(* ===== verification/Prelude.thy ===== *)
theory Prelude
  imports Main
    "HOL-Library.Sublist"
    "HOL-Library.Char_ord"
    "HOL-Library.List_Lexorder"
    "HOL-Library.Product_Lexorder"
begin

text \<open>
  The vocabulary the component theories share: the types of bytes and strings, the
  named collections of facts, the generic list lemmas, and 64-bit signed wrap-around.

  A Go string is a sequence of bytes, so it is a \<^typ>\<open>string\<close> here: a list of
  \<^typ>\<open>char\<close>, where a \<^typ>\<open>char\<close> is one byte. The order that
  \<^verbatim>\<open>HOL-Library.List_Lexorder\<close> puts on strings is the bytewise order of Go's \<open><\<close>.
\<close>

named_theorems io_simps \<open>evaluation of the effect combinators\<close>
named_theorems frame_intros \<open>composition rules for state-relation contracts\<close>

type_synonym bytes = "char list"

abbreviation (input) slash :: char where
  "slash \<equiv> CHR ''/''"

abbreviation (input) dot :: char where
  "dot \<equiv> CHR ''.''"

section \<open>Generic list lemmas\<close>

lemma find_None_all: "find P xs = None \<longleftrightarrow> (\<forall>x \<in> set xs. \<not> P x)"
  by (auto simp: find_None_iff)

lemma find_SomeD: "find P xs = Some x \<Longrightarrow> x \<in> set xs \<and> P x"
  by (auto simp: find_Some_iff)

lemma suffix_drop_prefix: "prefix p s \<Longrightarrow> s = p @ drop (length p) s"
  by (metis append_eq_conv_conj prefix_def)

lemma prefix_append_cancel [simp]: "prefix (p @ a) (p @ b) \<longleftrightarrow> prefix a b"
  by simp

lemma prefix_append_notin: "c \<notin> set e \<Longrightarrow> prefix e (a @ c # b) \<longleftrightarrow> prefix e a"
proof (induction a arbitrary: e)
  case Nil
  then show ?case by (cases e) auto
next
  case (Cons x a)
  then show ?case by (cases e) auto
qed

lemma suffix_singleton: "suffix [c] s \<longleftrightarrow> s \<noteq> [] \<and> last s = c"
  by (metis append_butlast_last_id last_snoc snoc_eq_iff_butlast suffix_def)

lemma takeWhile_neq_id [simp]: "c \<notin> set xs \<Longrightarrow> takeWhile (\<lambda>x. x \<noteq> c) xs = xs"
  by (induction xs) auto

lemma dropWhile_neq_Nil [simp]: "c \<notin> set xs \<Longrightarrow> dropWhile (\<lambda>x. x \<noteq> c) xs = []"
  by (induction xs) auto

lemma takeWhile_split: "c \<in> set xs \<Longrightarrow> \<exists>ys. xs = takeWhile (\<lambda>x. x \<noteq> c) xs @ c # ys"
  by (induction xs) auto

lemma dropWhile_hd_id: "xs = [] \<or> \<not> P (hd xs) \<Longrightarrow> dropWhile P xs = xs"
  by (cases xs) auto

lemma hd_dropWhile_not: "dropWhile P xs \<noteq> [] \<Longrightarrow> \<not> P (hd (dropWhile P xs))"
  by (rule hd_dropWhile)

lemma sorted_list_of_set_eqI:
  "sorted xs \<Longrightarrow> distinct xs \<Longrightarrow> set xs = A \<Longrightarrow> sorted_list_of_set A = xs"
  by (metis sorted_list_of_set.idem_if_sorted_distinct)

lemma filter_map_Some: "List.map_filter f xs = map (\<lambda>x. the (f x)) (filter (\<lambda>x. f x \<noteq> None) xs)"
  by (induction xs) (auto simp: List.map_filter_def)

lemma set_map_filter_iff: "y \<in> set (List.map_filter f xs) \<longleftrightarrow> (\<exists>x \<in> set xs. f x = Some y)"
  by (induction xs) (auto simp: List.map_filter_def split: option.splits)

section \<open>Signed 64-bit arithmetic\<close>

text \<open>
  Go's \<^verbatim>\<open>int64\<close> (and \<^verbatim>\<open>int\<close> on the 64-bit targets the program is built for) is a
  two's complement integer. Values are \<^typ>\<open>int\<close>; every addition or product whose
  result may leave the range is wrapped with \<open>wrap64\<close>.
\<close>

definition wrap64 :: "int \<Rightarrow> int" where
  "wrap64 x = (x + 2 ^ 63) mod 2 ^ 64 - 2 ^ 63"

definition in_int64 :: "int \<Rightarrow> bool" where
  "in_int64 x \<longleftrightarrow> - (2 ^ 63) \<le> x \<and> x < 2 ^ 63"

lemma wrap64_in_range: "in_int64 (wrap64 x)"
proof -
  have "0 \<le> (x + 2 ^ 63) mod 2 ^ 64" "(x + 2 ^ 63) mod 2 ^ 64 < (2::int) ^ 64"
    by (simp_all add: pos_mod_bound)
  then show ?thesis unfolding wrap64_def in_int64_def by simp
qed

lemma wrap64_id [simp]: "in_int64 x \<Longrightarrow> wrap64 x = x"
  unfolding wrap64_def in_int64_def by (simp add: mod_pos_pos_trivial)

lemma in_int64_nonneg: "0 \<le> x \<Longrightarrow> x < 2 ^ 63 \<Longrightarrow> in_int64 x"
  by (simp add: in_int64_def)

end
