(* ===== verification/Go_Strings.thy ===== *)
theory Go_Strings
  imports Prelude
begin

text \<open>
  The parts of Go's standard packages \<^verbatim>\<open>strings\<close>, \<^verbatim>\<open>strconv\<close>, \<^verbatim>\<open>path\<close> and
  \<^verbatim>\<open>net/url\<close> that the program calls, as functions on byte strings, with the lemmas
  the components need: trimming is idempotent, splitting and joining are inverse,
  decimal printing and parsing round-trip, and percent-encoding is decodable.

  \<^verbatim>\<open>unicode.IsSpace\<close> holds of 25 code points. \<open>go_spaces\<close> lists their UTF-8
  encodings. No encoding starts with a continuation byte, so looking for one of them at
  the start (or the end) of a byte string finds exactly the white space that Go's rune
  decoder finds there, on invalid UTF-8 too.
\<close>

section \<open>Trimming\<close>

definition go_spaces :: "string list" where
  "go_spaces =
    [[CHR 0x09], [CHR 0x0A], [CHR 0x0B], [CHR 0x0C], [CHR 0x0D], [CHR 0x20],
     [CHR 0xC2, CHR 0x85], [CHR 0xC2, CHR 0xA0],
     [CHR 0xE1, CHR 0x9A, CHR 0x80],
     [CHR 0xE2, CHR 0x80, CHR 0x80], [CHR 0xE2, CHR 0x80, CHR 0x81],
     [CHR 0xE2, CHR 0x80, CHR 0x82], [CHR 0xE2, CHR 0x80, CHR 0x83],
     [CHR 0xE2, CHR 0x80, CHR 0x84], [CHR 0xE2, CHR 0x80, CHR 0x85],
     [CHR 0xE2, CHR 0x80, CHR 0x86], [CHR 0xE2, CHR 0x80, CHR 0x87],
     [CHR 0xE2, CHR 0x80, CHR 0x88], [CHR 0xE2, CHR 0x80, CHR 0x89],
     [CHR 0xE2, CHR 0x80, CHR 0x8A], [CHR 0xE2, CHR 0x80, CHR 0xA8],
     [CHR 0xE2, CHR 0x80, CHR 0xA9], [CHR 0xE2, CHR 0x80, CHR 0xAF],
     [CHR 0xE2, CHR 0x81, CHR 0x9F], [CHR 0xE3, CHR 0x80, CHR 0x80]]"

definition match_at :: "string list \<Rightarrow> string \<Rightarrow> string option" where
  "match_at encs s = find (\<lambda>e. e \<noteq> [] \<and> prefix e s) encs"

lemma match_at_SomeD: "match_at encs s = Some e \<Longrightarrow> e \<in> set encs \<and> e \<noteq> [] \<and> prefix e s"
  unfolding match_at_def by (auto dest: find_SomeD)

function trim_with :: "string list \<Rightarrow> string \<Rightarrow> string" where
  "trim_with encs s =
     (case match_at encs s of None \<Rightarrow> s | Some e \<Rightarrow> trim_with encs (drop (length e) s))"
  by pat_completeness auto
termination
proof (relation "measure (\<lambda>(encs, s). length s)", goal_cases)
  case 1
  then show ?case by simp
next
  case (2 encs s e)
  then have "e \<noteq> []" "prefix e s" by (auto dest: match_at_SomeD)
  then have "0 < length e" "length e \<le> length s" by (auto dest: prefix_length_le)
  then have "length s - length e < length s" by arith
  then show ?case by simp
qed

declare trim_with.simps [simp del]

definition trim_left :: "string \<Rightarrow> string" where
  "trim_left s = trim_with go_spaces s"

definition trim_right :: "string \<Rightarrow> string" where
  "trim_right s = rev (trim_with (map rev go_spaces) (rev s))"

definition TrimSpace :: "string \<Rightarrow> string" where
  "TrimSpace s = trim_right (trim_left s)"

definition starts_space :: "string \<Rightarrow> bool" where
  "starts_space s \<longleftrightarrow> match_at go_spaces s \<noteq> None"

definition ends_space :: "string \<Rightarrow> bool" where
  "ends_space s \<longleftrightarrow> match_at (map rev go_spaces) (rev s) \<noteq> None"

lemma trim_with_id: "match_at encs s = None \<Longrightarrow> trim_with encs s = s"
  by (simp add: trim_with.simps)

lemma trim_with_stops: "match_at encs (trim_with encs s) = None"
proof (induction encs s rule: trim_with.induct)
  case (1 encs s)
  then show ?case
    by (cases "match_at encs s") (simp_all add: trim_with.simps [of encs s])
qed

lemma trim_with_suffix: "suffix (trim_with encs s) s"
proof (induction encs s rule: trim_with.induct)
  case (1 encs s)
  show ?case
  proof (cases "match_at encs s")
    case None
    then show ?thesis by (simp add: trim_with_id)
  next
    case (Some e)
    with 1 have "suffix (trim_with encs (drop (length e) s)) (drop (length e) s)" by simp
    then have "suffix (trim_with encs (drop (length e) s)) s"
      using suffix_drop suffix_order.trans by blast
    with Some show ?thesis by (simp add: trim_with.simps [of encs s])
  qed
qed

lemma trim_left_id: "\<not> starts_space s \<Longrightarrow> trim_left s = s"
  by (simp add: starts_space_def trim_left_def trim_with_id)

lemma trim_right_id: "\<not> ends_space s \<Longrightarrow> trim_right s = s"
  by (simp add: ends_space_def trim_right_def trim_with_id)

lemma trim_right_prefix: "prefix (trim_right s) s"
  unfolding trim_right_def by (metis rev_rev_ident suffix_to_prefix trim_with_suffix)

lemma not_ends_trim_right: "\<not> ends_space (trim_right s)"
  by (simp add: ends_space_def trim_right_def trim_with_stops)

lemma not_starts_trim_left: "\<not> starts_space (trim_left s)"
  by (simp add: starts_space_def trim_left_def trim_with_stops)

lemma starts_space_prefix: "prefix s t \<Longrightarrow> starts_space s \<Longrightarrow> starts_space t"
  unfolding starts_space_def match_at_def
  by (auto simp: find_None_all intro: prefix_order.trans)

lemma TrimSpace_not_starts: "\<not> starts_space (TrimSpace s)"
  unfolding TrimSpace_def using starts_space_prefix trim_right_prefix not_starts_trim_left by blast

lemma TrimSpace_not_ends: "\<not> ends_space (TrimSpace s)"
  by (simp add: TrimSpace_def not_ends_trim_right)

lemma TrimSpace_id: "\<not> starts_space s \<Longrightarrow> \<not> ends_space s \<Longrightarrow> TrimSpace s = s"
  by (simp add: TrimSpace_def trim_left_id trim_right_id)

lemma TrimSpace_idem [simp]: "TrimSpace (TrimSpace s) = TrimSpace s"
  by (simp add: TrimSpace_id TrimSpace_not_starts TrimSpace_not_ends)

lemma starts_space_Cons_slash [simp]: "\<not> starts_space (slash # s)"
  by (simp add: starts_space_def match_at_def go_spaces_def)

lemma not_starts_space_Nil [simp]: "\<not> starts_space []"
  by (simp add: starts_space_def match_at_def go_spaces_def)

lemma not_ends_space_Nil [simp]: "\<not> ends_space []"
  by (simp add: ends_space_def match_at_def go_spaces_def)

lemma not_ends_space_slash [simp]: "\<not> ends_space (s @ [slash])" "\<not> ends_space [slash]"
  by (simp_all add: ends_space_def match_at_def go_spaces_def)

lemma slash_notin_spaces: "e \<in> set (map rev go_spaces) \<Longrightarrow> slash \<notin> set e"
  by (auto simp: go_spaces_def)

lemma ends_space_append_slash: "ends_space (p @ slash # s) \<longleftrightarrow> ends_space s"
proof -
  have "find (\<lambda>e. e \<noteq> [] \<and> prefix e (rev s @ slash # rev p)) (map rev go_spaces)
      = find (\<lambda>e. e \<noteq> [] \<and> prefix e (rev s)) (map rev go_spaces)"
    by (rule find_cong [OF refl]) (simp only: prefix_append_notin [OF slash_notin_spaces])
  then show ?thesis by (simp add: ends_space_def match_at_def)
qed

definition TrimPrefix :: "string \<Rightarrow> string \<Rightarrow> string" where
  "TrimPrefix s p = (if prefix p s then drop (length p) s else s)"

definition TrimSuffix :: "string \<Rightarrow> string \<Rightarrow> string" where
  "TrimSuffix s p = (if suffix p s then take (length s - length p) s else s)"

text \<open>\<^verbatim>\<open>strings.Trim(s, "/")\<close>: the cutset has one character.\<close>

definition Trim_char :: "char \<Rightarrow> string \<Rightarrow> string" where
  "Trim_char c s = rev (dropWhile (\<lambda>x. x = c) (rev (dropWhile (\<lambda>x. x = c) s)))"

lemma TrimPrefix_append [simp]: "TrimPrefix (p @ s) p = s"
  by (simp add: TrimPrefix_def)

lemma TrimPrefix_Cons [simp]: "TrimPrefix (c # s) [c] = s"
  by (simp add: TrimPrefix_def)

lemma TrimSuffix_append [simp]: "TrimSuffix (s @ p) p = s"
  by (simp add: TrimSuffix_def suffix_def)

lemma TrimSuffix_id: "\<not> suffix p s \<Longrightarrow> TrimSuffix s p = s"
  by (simp add: TrimSuffix_def)

lemma hd_rev_dropWhile_rev:
  assumes "rev (dropWhile P (rev xs)) \<noteq> []"
  shows "hd (rev (dropWhile P (rev xs))) = hd xs"
proof -
  obtain ys where "rev xs = ys @ dropWhile P (rev xs)"
    by (metis takeWhile_dropWhile_id)
  then have "xs = rev (dropWhile P (rev xs)) @ rev ys"
    by (metis rev_append rev_rev_ident)
  with assms show ?thesis by (metis hd_append2)
qed

lemma Trim_char_hd: "Trim_char c s \<noteq> [] \<Longrightarrow> hd (Trim_char c s) \<noteq> c"
proof -
  assume ne: "Trim_char c s \<noteq> []"
  let ?t = "dropWhile (\<lambda>x. x = c) s"
  from ne have t: "?t \<noteq> []"
    unfolding Trim_char_def by (cases "dropWhile (\<lambda>x. x = c) s") simp_all
  from hd_dropWhile [OF t] have "hd ?t \<noteq> c" .
  moreover from ne have "hd (Trim_char c s) = hd ?t"
    unfolding Trim_char_def by (rule hd_rev_dropWhile_rev)
  ultimately show ?thesis by simp
qed

lemma Trim_char_last: "Trim_char c s \<noteq> [] \<Longrightarrow> last (Trim_char c s) \<noteq> c"
  unfolding Trim_char_def
  by (metis (mono_tags, lifting) hd_dropWhile last_rev rev_is_Nil_conv)

lemma Trim_char_id: "(s \<noteq> [] \<Longrightarrow> hd s \<noteq> c \<and> last s \<noteq> c) \<Longrightarrow> Trim_char c s = s"
  by (cases "s = []") (simp_all add: Trim_char_def dropWhile_hd_id hd_rev)

section \<open>Splitting and joining\<close>

fun Split :: "char \<Rightarrow> string \<Rightarrow> string list" where
  "Split c [] = [[]]"
| "Split c (x # xs) =
     (if x = c then [] # Split c xs
      else (case Split c xs of [] \<Rightarrow> [[x]] | y # ys \<Rightarrow> (x # y) # ys))"

fun Join :: "char \<Rightarrow> string list \<Rightarrow> string" where
  "Join c [] = []"
| "Join c [x] = x"
| "Join c (x # y # ys) = x @ c # Join c (y # ys)"

lemma Split_ne [simp]: "Split c s \<noteq> []"
  by (cases s) (auto split: list.splits)

lemma Join_Cons: "xs \<noteq> [] \<Longrightarrow> Join c (x # xs) = x @ c # Join c xs"
  by (cases xs) auto

lemma Join_Split [simp]: "Join c (Split c s) = s"
proof (induction s)
  case (Cons a s)
  obtain y ys where ys: "Split c s = y # ys" by (cases "Split c s") auto
  show ?case
  proof (cases "a = c")
    case True
    with Cons ys show ?thesis by (simp add: Join_Cons)
  next
    case False
    with Cons ys show ?thesis by (cases ys) auto
  qed
qed simp

lemma Split_notin: "x \<in> set (Split c s) \<Longrightarrow> c \<notin> set x"
proof (induction s arbitrary: x)
  case (Cons a s)
  then show ?case by (auto split: if_splits list.splits)
qed simp

lemma Split_append: "c \<notin> set x \<Longrightarrow> Split c (x @ c # s) = x # Split c s"
  by (induction x) auto

lemma Split_single: "c \<notin> set x \<Longrightarrow> Split c x = [x]"
  by (induction x) auto

lemma Split_Join: "xs \<noteq> [] \<Longrightarrow> \<forall>x \<in> set xs. c \<notin> set x \<Longrightarrow> Split c (Join c xs) = xs"
proof (induction xs)
  case (Cons a xs)
  then show ?case
    by (cases "xs = []") (simp_all add: Split_single Join_Cons Split_append)
qed simp

lemma Join_append:
  "xs \<noteq> [] \<Longrightarrow> ys \<noteq> [] \<Longrightarrow> Join c (xs @ ys) = Join c xs @ c # Join c ys"
proof (induction xs)
  case (Cons a xs)
  then show ?case by (cases "xs = []") (simp_all add: Join_Cons)
qed simp

lemma Join_snoc: "xs \<noteq> [] \<Longrightarrow> Join c (xs @ [x]) = Join c xs @ c # x"
  by (simp add: Join_append)

lemma Join_eq_Nil: "\<forall>x \<in> set xs. x \<noteq> [] \<Longrightarrow> Join c xs = [] \<longleftrightarrow> xs = []"
  by (induction xs rule: Join.induct) auto

text \<open>\<^verbatim>\<open>strings.SplitN(s, sep, 2)\<close> for a one-byte separator.\<close>

definition SplitN2 :: "char \<Rightarrow> string \<Rightarrow> string list" where
  "SplitN2 c s =
     (if c \<in> set s
      then [takeWhile (\<lambda>x. x \<noteq> c) s, tl (dropWhile (\<lambda>x. x \<noteq> c) s)]
      else [s])"

text \<open>
  \<^verbatim>\<open>strings.Fields\<close>: the maximal runs of bytes between white space. The accumulator
  holds the current field in reverse.
\<close>

function fields_acc :: "string \<Rightarrow> string \<Rightarrow> string list" where
  "fields_acc acc s =
     (case s of
        [] \<Rightarrow> (if acc = [] then [] else [rev acc])
      | c # cs \<Rightarrow>
          (case match_at go_spaces s of
             None \<Rightarrow> fields_acc (c # acc) cs
           | Some e \<Rightarrow> (if acc = [] then [] else [rev acc]) @ fields_acc [] (drop (length e) s)))"
  by pat_completeness auto
termination
proof (relation "measure (\<lambda>(acc, s). length s)", goal_cases)
  case (3 acc s c cs e)
  then have "e \<noteq> []" by (auto dest: match_at_SomeD)
  then have "0 < length e" by simp
  with 3 have "length s - length e < length s" by simp
  then show ?case by simp
qed auto

declare fields_acc.simps [simp del]

definition Fields :: "string \<Rightarrow> string list" where
  "Fields s = fields_acc [] s"

section \<open>Package path\<close>

text \<open>
  \<^verbatim>\<open>path.Clean\<close> by its documented rules, over the list of slash-separated elements:
  empty and \<open>.\<close> elements vanish, \<open>..\<close> removes the element before it, a leading
  \<open>..\<close> of a rooted path vanishes. The stack is kept in reverse.
\<close>

fun clean_elems :: "bool \<Rightarrow> string list \<Rightarrow> string list \<Rightarrow> string list" where
  "clean_elems rooted stack [] = rev stack"
| "clean_elems rooted stack (e # es) =
     (if e = [] \<or> e = ''.'' then clean_elems rooted stack es
      else if e = ''..'' then
        (case stack of
           [] \<Rightarrow> (if rooted then clean_elems rooted [] es else clean_elems rooted [''..''] es)
         | t # ts \<Rightarrow> (if t = ''..'' then clean_elems rooted (''..'' # stack) es
                      else clean_elems rooted ts es))
      else clean_elems rooted (e # stack) es)"

definition path_Clean :: "string \<Rightarrow> string" where
  "path_Clean p =
     (if p = [] then ''.''
      else if hd p = slash then slash # Join slash (clean_elems True [] (Split slash p))
      else (let es = clean_elems False [] (Split slash p)
            in if es = [] then ''.'' else Join slash es))"

definition path_Base :: "string \<Rightarrow> string" where
  "path_Base p =
     (if p = [] then ''.''
      else (let t = rev (dropWhile (\<lambda>c. c = slash) (rev p));
                b = rev (takeWhile (\<lambda>c. c \<noteq> slash) (rev t))
            in if b = [] then [slash] else b))"

definition path_Ext :: "string \<Rightarrow> string" where
  "path_Ext p =
     (let e = rev (takeWhile (\<lambda>c. c \<noteq> slash) (rev p))
      in if dot \<in> set e then dot # rev (takeWhile (\<lambda>c. c \<noteq> dot) (rev e)) else [])"

text \<open>An element that survives cleaning: not empty, not \<open>.\<close> or \<open>..\<close>, no slash.\<close>

definition plain_elem :: "string \<Rightarrow> bool" where
  "plain_elem e \<longleftrightarrow> e \<noteq> [] \<and> e \<noteq> ''.'' \<and> e \<noteq> ''..'' \<and> slash \<notin> set e"

lemma clean_elems_plain:
  assumes "\<forall>e \<in> set es. slash \<notin> set e" and "\<forall>e \<in> set stack. plain_elem e"
  shows "\<forall>e \<in> set (clean_elems True stack es). plain_elem e"
  using assms
proof (induction es arbitrary: stack)
  case (Cons e es)
  consider (skip) "e = [] \<or> e = ''.''" | (up) "e = ''..''" | (push) "plain_elem e"
    using Cons.prems(1) by (auto simp: plain_elem_def)
  then show ?case
  proof cases
    case skip
    then have "clean_elems True stack (e # es) = clean_elems True stack es" by auto
    with Cons show ?thesis by simp
  next
    case up
    then have "clean_elems True stack (e # es) = clean_elems True (tl stack) es
        \<or> hd stack = ''..'' \<and> stack \<noteq> []"
      by (cases stack) auto
    moreover have "\<not> (hd stack = ''..'' \<and> stack \<noteq> [])"
      using Cons.prems(2) by (cases stack) (auto simp: plain_elem_def)
    moreover have "\<forall>e \<in> set (tl stack). plain_elem e"
      using Cons.prems(2) by (cases stack) auto
    ultimately show ?thesis using Cons by simp
  next
    case push
    then have "clean_elems True stack (e # es) = clean_elems True (e # stack) es"
      by (simp add: plain_elem_def)
    moreover have "\<forall>x \<in> set (clean_elems True (e # stack) es). plain_elem x"
      using Cons.prems push by (intro Cons.IH) auto
    ultimately show ?thesis by (simp only:)
  qed
qed simp

lemma clean_elems_id:
  "\<forall>e \<in> set es. plain_elem e \<Longrightarrow> clean_elems r stack es = rev stack @ es"
  by (induction es arbitrary: stack) (auto simp: plain_elem_def)

text \<open>The rooted path of a list of elements, and what cleaning a rooted path gives.\<close>

definition rooted :: "string list \<Rightarrow> string" where
  "rooted es = slash # Join slash es"

lemma path_Clean_rooted_form:
  assumes "p \<noteq> []" "hd p = slash"
  obtains es where "path_Clean p = rooted es" "\<forall>e \<in> set es. plain_elem e"
proof
  show "path_Clean p = rooted (clean_elems True [] (Split slash p))"
    using assms by (simp add: path_Clean_def rooted_def)
  show "\<forall>e \<in> set (clean_elems True [] (Split slash p)). plain_elem e"
    by (rule clean_elems_plain) (auto dest: Split_notin)
qed

lemma path_Clean_rooted:
  assumes "\<forall>e \<in> set es. plain_elem e"
  shows "path_Clean (rooted es) = rooted es"
proof (cases "es = []")
  case True
  then show ?thesis by (simp add: path_Clean_def rooted_def)
next
  case False
  have "Split slash (Join slash es) = es"
    using assms False by (intro Split_Join) (auto simp: plain_elem_def)
  then show ?thesis
    using assms by (simp add: path_Clean_def rooted_def clean_elems_id)
qed

lemma rooted_eq_slash: "\<forall>e \<in> set es. plain_elem e \<Longrightarrow> rooted es = [slash] \<longleftrightarrow> es = []"
  by (auto simp: rooted_def plain_elem_def Join_eq_Nil)

lemma rooted_inject:
  assumes "\<forall>e \<in> set es. plain_elem e" "\<forall>e \<in> set fs. plain_elem e"
  shows "rooted es = rooted fs \<longleftrightarrow> es = fs"
proof
  assume eq: "rooted es = rooted fs"
  show "es = fs"
  proof (cases "es = [] \<or> fs = []")
    case True
    with eq have "rooted es = [slash] \<and> rooted fs = [slash]"
      by (auto simp: rooted_def)
    with assms show ?thesis by (simp add: rooted_eq_slash)
  next
    case False
    with assms eq show ?thesis
      by (metis Split_Join list.inject plain_elem_def rooted_def)
  qed
qed simp

lemma path_Base_rooted_snoc:
  assumes "plain_elem e"
  shows "path_Base (rooted (es @ [e])) = e"
proof -
  have e: "e \<noteq> []" "slash \<notin> set e" using assms by (auto simp: plain_elem_def)
  obtain pre where pre: "rooted (es @ [e]) = pre @ slash # e"
    by (cases "es = []") (auto simp: rooted_def Join_snoc intro: that [of "[]"])
  have "dropWhile (\<lambda>c. c = slash) (rev e @ slash # rev pre) = rev e @ slash # rev pre"
    using e by (intro dropWhile_hd_id) (metis append_is_Nil_conv hd_append2 hd_in_set rev_is_Nil_conv set_rev)
  moreover have "takeWhile (\<lambda>c. c \<noteq> slash) (rev e @ slash # rev pre) = rev e"
    using e by (simp add: takeWhile_append)
  ultimately show ?thesis
    unfolding pre path_Base_def using e by simp
qed

end
