(* ===== verification/Go_Conv.thy ===== *)
theory Go_Conv
  imports Go_Strings
begin

text \<open>
  Conversions of the Go standard library: decimal integers (\<^verbatim>\<open>strconv.Atoi\<close>,
  \<^verbatim>\<open>strconv.Itoa\<close>), booleans (\<^verbatim>\<open>strconv.ParseBool\<close>), case folding
  (\<^verbatim>\<open>strings.ToLower\<close>, \<^verbatim>\<open>strings.EqualFold\<close>) and percent-encoding
  (\<^verbatim>\<open>url.PathEscape\<close>), with the round trips between printing and parsing.

  \<^verbatim>\<open>strings.ToLower\<close> maps ASCII strings byte by byte; on any other string it needs the
  Unicode case tables, which enter as the parameter \<open>ulower\<close>.
\<close>

section \<open>Decimal integers\<close>

definition digit_char :: "nat \<Rightarrow> char" where
  "digit_char n = char_of (48 + n)"

definition digit_val :: "char \<Rightarrow> int option" where
  "digit_val c = (let n = (of_char c :: nat) in if 48 \<le> n \<and> n \<le> 57 then Some (int n - 48) else None)"

fun show_nat :: "nat \<Rightarrow> string" where
  "show_nat n = (if n < 10 then [digit_char n] else show_nat (n div 10) @ [digit_char (n mod 10)])"

declare show_nat.simps [simp del]

definition Itoa :: "int \<Rightarrow> string" where
  "Itoa n = (if n < 0 then CHR ''-'' # show_nat (nat (- n)) else show_nat (nat n))"

fun dec_acc :: "int \<Rightarrow> string \<Rightarrow> int option" where
  "dec_acc acc [] = Some acc"
| "dec_acc acc (c # cs) =
     (case digit_val c of None \<Rightarrow> None | Some d \<Rightarrow> dec_acc (acc * 10 + d) cs)"

definition Atoi :: "string \<Rightarrow> int option" where
  "Atoi s =
     (let neg = (s \<noteq> [] \<and> hd s = CHR ''-'');
          ds = (if s \<noteq> [] \<and> (hd s = CHR ''-'' \<or> hd s = CHR ''+'') then tl s else s)
      in if ds = [] then None
         else (case dec_acc 0 ds of
                 None \<Rightarrow> None
               | Some n \<Rightarrow> (let m = (if neg then - n else n) in if in_int64 m then Some m else None)))"

lemma digit_val_char [simp]: "n < 10 \<Longrightarrow> digit_val (digit_char n) = Some (int n)"
  by (simp add: digit_val_def digit_char_def of_char_of Let_def)

lemma dec_acc_append:
  "dec_acc a (s @ t) = (case dec_acc a s of None \<Rightarrow> None | Some v \<Rightarrow> dec_acc v t)"
  by (induction s arbitrary: a) (auto split: option.splits)

lemma dec_acc_show_nat: "dec_acc 0 (show_nat n) = Some (int n)"
proof (induction n rule: show_nat.induct)
  case (1 n)
  show ?case
  proof (cases "n < 10")
    case True
    then show ?thesis by (simp add: show_nat.simps [of n])
  next
    case False
    with 1 have "dec_acc 0 (show_nat n) = Some (int (n div 10) * 10 + int (n mod 10))"
      by (simp add: show_nat.simps [of n] dec_acc_append)
    also have "int (n div 10) * 10 + int (n mod 10) = int n"
      by presburger
    finally show ?thesis .
  qed
qed

lemma show_nat_ne [simp]: "show_nat n \<noteq> []"
  by (simp add: show_nat.simps [of n])

lemma show_nat_hd: "hd (show_nat n) \<noteq> CHR ''-'' \<and> hd (show_nat n) \<noteq> CHR ''+''"
proof -
  obtain c cs where c: "show_nat n = c # cs" by (cases "show_nat n") auto
  with dec_acc_show_nat [of n] have "digit_val c \<noteq> None"
    by (auto split: option.splits)
  with c show ?thesis by (auto simp: digit_val_def)
qed

lemma Atoi_Itoa: "in_int64 n \<Longrightarrow> Atoi (Itoa n) = Some n"
  using show_nat_hd by (auto simp: Atoi_def Itoa_def Let_def dec_acc_show_nat)

lemma Atoi_range: "Atoi s = Some n \<Longrightarrow> in_int64 n"
  by (auto simp: Atoi_def Let_def split: if_splits option.splits)

section \<open>Booleans\<close>

definition ParseBool :: "string \<Rightarrow> bool option" where
  "ParseBool s =
     (if s \<in> set [''1'', ''t'', ''T'', ''true'', ''TRUE'', ''True''] then Some True
      else if s \<in> set [''0'', ''f'', ''F'', ''false'', ''FALSE'', ''False''] then Some False
      else None)"

section \<open>Letter case\<close>

definition ascii :: "char \<Rightarrow> bool" where
  "ascii c \<longleftrightarrow> (of_char c :: nat) < 128"

definition lower_char :: "char \<Rightarrow> char" where
  "lower_char c = (let n = (of_char c :: nat) in if 65 \<le> n \<and> n \<le> 90 then char_of (n + 32) else c)"

definition ToLower :: "(string \<Rightarrow> string) \<Rightarrow> string \<Rightarrow> string" where
  "ToLower ulower s = (if list_all ascii s then map lower_char s else ulower s)"

text \<open>
  \<^verbatim>\<open>strings.EqualFold(s, t)\<close> for a lower-case ASCII literal \<open>t\<close>. Two ASCII letters
  have a third simple fold: the Kelvin sign (bytes \<open>E2 84 AA\<close>) folds to \<open>k\<close> and the
  long s (bytes \<open>C5 BF\<close>) folds to \<open>s\<close>.
\<close>

fun EqualFold :: "string \<Rightarrow> string \<Rightarrow> bool" where
  "EqualFold s [] = (s = [])"
| "EqualFold s (t # ts) =
     (case s of
        [] \<Rightarrow> False
      | c # cs \<Rightarrow>
          lower_char c = t \<and> EqualFold cs ts
          \<or> t = CHR ''k'' \<and> take 3 s = [CHR 0xE2, CHR 0x84, CHR 0xAA] \<and> EqualFold (drop 3 s) ts
          \<or> t = CHR ''s'' \<and> take 2 s = [CHR 0xC5, CHR 0xBF] \<and> EqualFold (drop 2 s) ts)"

lemma lower_char_idem [simp]: "lower_char (lower_char c) = lower_char c"
  by (auto simp: lower_char_def Let_def of_char_of)

lemma ascii_lower_char [simp]: "ascii c \<Longrightarrow> ascii (lower_char c)"
  by (auto simp: lower_char_def ascii_def Let_def of_char_of)

lemma ToLower_ascii_idem: "list_all ascii s \<Longrightarrow> ToLower u (ToLower u s) = ToLower u s"
  by (simp add: ToLower_def list_all_iff)

section \<open>Percent-encoding\<close>

definition hex_char :: "nat \<Rightarrow> char" where
  "hex_char n = (if n < 10 then char_of (48 + n) else char_of (55 + n))"

definition hex_val :: "char \<Rightarrow> nat option" where
  "hex_val c =
     (let n = (of_char c :: nat)
      in if 48 \<le> n \<and> n \<le> 57 then Some (n - 48)
         else if 65 \<le> n \<and> n \<le> 70 then Some (n - 55)
         else if 97 \<le> n \<and> n \<le> 102 then Some (n - 87)
         else None)"

text \<open>
  The bytes \<^verbatim>\<open>url.PathEscape\<close> leaves alone: letters, digits, the unreserved marks and
  the reserved characters that may stand in a path segment.
\<close>

definition path_safe :: "char \<Rightarrow> bool" where
  "path_safe c \<longleftrightarrow>
     (let n = (of_char c :: nat)
      in 48 \<le> n \<and> n \<le> 57 \<or> 65 \<le> n \<and> n \<le> 90 \<or> 97 \<le> n \<and> n \<le> 122)
     \<or> c \<in> set ''-_.~$&+=:@''"

definition escape_char :: "char \<Rightarrow> string" where
  "escape_char c =
     (if path_safe c then [c]
      else [CHR ''%'', hex_char (of_char c div 16), hex_char (of_char c mod 16)])"

definition PathEscape :: "string \<Rightarrow> string" where
  "PathEscape s = concat (map escape_char s)"

text \<open>Percent-decoding, which is what the receiver of an encoded value applies.\<close>

fun percent_decode :: "string \<Rightarrow> string option" where
  "percent_decode [] = Some []"
| "percent_decode (c # cs) =
     (if c = CHR ''%'' then
        (case cs of
           a # b # rest \<Rightarrow>
             (case (hex_val a, hex_val b) of
                (Some x, Some y) \<Rightarrow> map_option (Cons (char_of (16 * x + y))) (percent_decode rest)
              | _ \<Rightarrow> None)
         | _ \<Rightarrow> None)
      else map_option (Cons c) (percent_decode cs))"

lemma hex_val_char [simp]: "n < 16 \<Longrightarrow> hex_val (hex_char n) = Some n"
  by (auto simp: hex_val_def hex_char_def Let_def of_char_of)

lemma of_char_div16 [simp]: "(of_char c :: nat) div 16 < 16"
  using nat_of_char_less_256 [of c] by (intro less_mult_imp_div_less) simp

lemma decode_escape_char:
  "percent_decode (escape_char c @ t) = map_option (Cons c) (percent_decode t)"
proof (cases "path_safe c")
  case True
  then have "c \<noteq> CHR ''%''" by (auto simp: path_safe_def)
  with True show ?thesis by (simp add: escape_char_def)
next
  case False
  have "16 * (of_char c div 16) + of_char c mod 16 = (of_char c :: nat)" by simp
  then show ?thesis using False by (simp add: escape_char_def)
qed

lemma percent_decode_PathEscape:
  "percent_decode (PathEscape s @ t) = map_option (append s) (percent_decode t)"
proof (induction s)
  case Nil
  show ?case by (cases "percent_decode t") (simp_all add: PathEscape_def)
next
  case (Cons c s)
  have "PathEscape (c # s) @ t = escape_char c @ (PathEscape s @ t)"
    by (simp add: PathEscape_def)
  then show ?case using Cons
    by (cases "percent_decode t") (simp_all only: decode_escape_char option.map append_Cons)
qed

lemma PathEscape_roundtrip: "percent_decode (PathEscape s) = Some s"
  using percent_decode_PathEscape [of s "[]"] by simp

lemma slash_notin_PathEscape: "slash \<notin> set (PathEscape s)"
proof -
  have hex: "hex_char n \<noteq> slash" if "n < 16" for n
    using hex_val_char [OF that] by (auto simp: hex_val_def)
  have "slash \<notin> set (escape_char c)" for c
  proof -
    have "hex_char (of_char c div 16) \<noteq> slash" "hex_char (of_char c mod 16) \<noteq> slash"
      by (simp_all add: hex)
    then show ?thesis by (auto simp: escape_char_def path_safe_def dest: sym)
  qed
  then show ?thesis by (auto simp: PathEscape_def)
qed

end
