(* ===== verification/Go_Errors.thy ===== *)
theory Go_Errors
  imports Go_Conv
begin

text \<open>
  Error values and effects. An \<open>error\<close> is what a Go \<^verbatim>\<open>error\<close> interface value of this
  program can hold; \<open>chain\<close> is the sequence \<^verbatim>\<open>errors.Is\<close>/\<^verbatim>\<open>errors.As\<close> walk through. A
  computation that may talk to the object store is a function from the state of the world
  to a result (\<^term>\<open>Inl\<close> an error, \<^term>\<open>Inr\<close> a value) and the state after it.

  The second half models the error classification of
  \<^verbatim>\<open>src/internal/s3fs/backend.go\<close> and the error constructors of
  \<^verbatim>\<open>src/internal/s3fs/fs.go\<close>.
\<close>

section \<open>Error values\<close>

datatype errno = EISDIR | EINVAL | EEXIST | EACCES | ENOTDIR | ENOTEMPTY | EBADF

datatype fault = FaultUnknown | FaultServer | FaultClient

datatype error =
    NoSuchKey                    \<comment> \<open>\<^verbatim>\<open>*s3types.NoSuchKey\<close>\<close>
  | NotFound                     \<comment> \<open>\<^verbatim>\<open>*s3types.NotFound\<close>\<close>
  | APIError string fault        \<comment> \<open>any other \<^verbatim>\<open>smithy.APIError\<close>, with its code and fault\<close>
  | DeadlineExceeded
  | Errno errno
  | ErrNotExist
  | ErrReadOnly
  | ErrClosed
  | EOF
  | ErrUnexpectedEOF
  | ErrClosedPipe
  | ErrTooManyClients
  | ErrInvalidCredentials
  | ErrTLSNotConfigured
  | Message string "string list"        \<comment> \<open>\<^verbatim>\<open>errors.New\<close>, \<^verbatim>\<open>fmt.Errorf\<close> without \<open>%w\<close>: format and arguments\<close>
  | PathError string string error
  | Wrapped string "string list" error  \<comment> \<open>\<^verbatim>\<open>fmt.Errorf\<close> with \<open>%w\<close>: format, other arguments, wrapped error\<close>
  | RuntimePanic string          \<comment> \<open>not an error value: the computation panics\<close>

fun chain :: "error \<Rightarrow> error list" where
  "chain (PathError op p e) = PathError op p e # chain e"
| "chain (Wrapped fmt args e) = Wrapped fmt args e # chain e"
| "chain e = [e]"

definition errors_Is :: "error \<Rightarrow> error \<Rightarrow> bool" where
  "errors_Is e target \<longleftrightarrow> target \<in> set (chain e)"

text \<open>The first error of the chain that implements \<^verbatim>\<open>smithy.APIError\<close>: code and fault.\<close>

fun api_view :: "error \<Rightarrow> (string \<times> fault) option" where
  "api_view NoSuchKey = Some (''NoSuchKey'', FaultClient)"
| "api_view NotFound = Some (''NotFound'', FaultClient)"
| "api_view (APIError code f) = Some (code, f)"
| "api_view e = None"

definition as_APIError :: "error \<Rightarrow> (string \<times> fault) option" where
  "as_APIError e = (case List.map_filter api_view (chain e) of [] \<Rightarrow> None | x # xs \<Rightarrow> Some x)"

text \<open>\<^verbatim>\<open>os.IsNotExist\<close>: it looks through one \<^verbatim>\<open>*PathError\<close>, not through wrapping.\<close>

fun IsNotExist :: "error \<Rightarrow> bool" where
  "IsNotExist (PathError op p e) = (e = ErrNotExist)"
| "IsNotExist e = (e = ErrNotExist)"

section \<open>Classification of S3 errors\<close>

definition isNotFound :: "error option \<Rightarrow> bool" where
  "isNotFound err =
     (case err of
        None \<Rightarrow> False
      | Some e \<Rightarrow>
          if errors_Is e NoSuchKey then True
          else if errors_Is e NotFound then True
          else (case as_APIError e of
                  Some (code, f) \<Rightarrow> code \<in> set [''NoSuchKey'', ''NotFound'', ''NoSuchBucket'', ''404'']
                | None \<Rightarrow> False))"

definition isRangeNotSatisfiable :: "error \<Rightarrow> bool" where
  "isRangeNotSatisfiable e =
     (case as_APIError e of Some (code, f) \<Rightarrow> code = ''InvalidRange'' | None \<Rightarrow> False)"

definition isRetryable :: "error option \<Rightarrow> bool" where
  "isRetryable err =
     (case err of
        None \<Rightarrow> False
      | Some e \<Rightarrow>
          (case as_APIError e of
             Some (code, f) \<Rightarrow> f = FaultServer
           | None \<Rightarrow> False) \<or> errors_Is e DeadlineExceeded)"

section \<open>Error constructors\<close>

definition readOnlyErr :: "string \<Rightarrow> string \<Rightarrow> error" where
  "readOnlyErr op name = PathError op name ErrReadOnly"

definition notExist :: "string \<Rightarrow> string \<Rightarrow> error" where
  "notExist op name = PathError op name ErrNotExist"

definition errno :: "string \<Rightarrow> string \<Rightarrow> errno \<Rightarrow> error" where
  "errno op name e = PathError op name (Errno e)"

lemma IsNotExist_notExist [simp]: "IsNotExist (notExist op p)"
  by (simp add: notExist_def)

lemma isNotFound_PathError [simp]: "isNotFound (Some (PathError op p e)) = isNotFound (Some e)"
  by (simp add: isNotFound_def errors_Is_def as_APIError_def List.map_filter_def)

lemma isNotFound_Wrapped [simp]: "isNotFound (Some (Wrapped fmt args e)) = isNotFound (Some e)"
  by (simp add: isNotFound_def errors_Is_def as_APIError_def List.map_filter_def)

section \<open>Effects\<close>

type_synonym ('w, 'a) io = "'w \<Rightarrow> (error + 'a) \<times> 'w"

definition ret :: "'a \<Rightarrow> ('w, 'a) io" where
  "ret x = (\<lambda>w. (Inr x, w))"

definition throw :: "error \<Rightarrow> ('w, 'a) io" where
  "throw e = (\<lambda>w. (Inl e, w))"

text \<open>\<open>attempt m h\<close> runs \<open>m\<close> and gives its result, error or value, to \<open>h\<close>.\<close>

definition attempt :: "('w, 'a) io \<Rightarrow> (error + 'a \<Rightarrow> ('w, 'b) io) \<Rightarrow> ('w, 'b) io" where
  "attempt m h = (\<lambda>w. case m w of (r, w') \<Rightarrow> h r w')"

text \<open>\<open>andThen m f\<close>: \<^verbatim>\<open>x, err := m; if err != nil { return err }\<close>, then \<open>f x\<close>.\<close>

definition andThen :: "('w, 'a) io \<Rightarrow> ('a \<Rightarrow> ('w, 'b) io) \<Rightarrow> ('w, 'b) io" where
  "andThen m f = attempt m (\<lambda>r. case r of Inl e \<Rightarrow> throw e | Inr x \<Rightarrow> f x)"

lemma ret_apply [io_simps]: "ret x w = (Inr x, w)"
  by (simp add: ret_def)

lemma throw_apply [io_simps]: "throw e w = (Inl e, w)"
  by (simp add: throw_def)

lemma attempt_apply [io_simps]: "m w = (r, w') \<Longrightarrow> attempt m h w = h r w'"
  by (simp add: attempt_def)

lemma andThen_apply [io_simps]:
  "m w = (Inr x, w') \<Longrightarrow> andThen m f w = f x w'"
  "m w = (Inl e, w') \<Longrightarrow> andThen m f w = (Inl e, w')"
  by (simp_all add: andThen_def attempt_def throw_def)

lemma andThen_InrE:
  assumes "andThen m f w = (Inr y, w'')"
  obtains x w' where "m w = (Inr x, w')" "f x w' = (Inr y, w'')"
  using assms by (auto simp: andThen_def attempt_def throw_def split: prod.splits sum.splits)

lemma andThen_InlE:
  assumes "andThen m f w = (Inl e, w'')"
  obtains "m w = (Inl e, w'')" | x w' where "m w = (Inr x, w')" "f x w' = (Inl e, w'')"
  using assms by (auto simp: andThen_def attempt_def throw_def split: prod.splits sum.splits)

text \<open>
  A computation with a loop that may not end: \<^term>\<open>None\<close> stands for not returning.
\<close>

type_synonym ('w, 'a) lio = "'w \<Rightarrow> ((error + 'a) \<times> 'w) option"

definition once :: "('w, 'a) io \<Rightarrow> ('w, 'a) lio" where
  "once m = (\<lambda>w. Some (m w))"

definition lattempt :: "('w, 'a) lio \<Rightarrow> (error + 'a \<Rightarrow> ('w, 'b) lio) \<Rightarrow> ('w, 'b) lio" where
  "lattempt m h = (\<lambda>w. case m w of None \<Rightarrow> None | Some (r, w') \<Rightarrow> h r w')"

definition landThen :: "('w, 'a) lio \<Rightarrow> ('a \<Rightarrow> ('w, 'b) lio) \<Rightarrow> ('w, 'b) lio" where
  "landThen m f = lattempt m (\<lambda>r. case r of Inl e \<Rightarrow> once (throw e) | Inr x \<Rightarrow> f x)"

lemma once_apply [io_simps]: "once m w = Some (m w)"
  by (simp add: once_def)

lemma lattempt_apply [io_simps]:
  "m w = Some (r, w') \<Longrightarrow> lattempt m h w = h r w'"
  "m w = None \<Longrightarrow> lattempt m h w = None"
  by (simp_all add: lattempt_def)

lemma landThen_apply [io_simps]:
  "m w = Some (Inr x, w') \<Longrightarrow> landThen m f w = f x w'"
  "m w = Some (Inl e, w') \<Longrightarrow> landThen m f w = Some (Inl e, w')"
  "m w = None \<Longrightarrow> landThen m f w = None"
  by (simp_all add: landThen_def lattempt_def once_def throw_def)

lemma landThen_onceE:
  assumes "landThen (once m) f w = Some (r, w'')"
  obtains (err) e where "m w = (Inl e, w'')" "r = Inl e"
  | (val) x w' where "m w = (Inr x, w')" "f x w' = Some (r, w'')"
  using assms by (auto simp: landThen_def lattempt_def once_def throw_def split: prod.splits sum.splits)

lemma lattempt_onceE:
  assumes "lattempt (once m) h w = Some (r, w'')"
  obtains r0 w' where "m w = (r0, w')" "h r0 w' = Some (r, w'')"
  using assms by (auto simp: lattempt_def once_def split: prod.splits)

lemma landThenE:
  assumes "landThen m f w = Some (r, w'')"
  obtains (err) e where "m w = Some (Inl e, w'')" "r = Inl e"
  | (val) x w' where "m w = Some (Inr x, w')" "f x w' = Some (r, w'')"
  using assms
  by (auto simp: landThen_def lattempt_def once_def throw_def split: option.splits prod.splits sum.splits)

text \<open>
  A contract between the state before and the state after a computation. The relations
  of interest are reflexive and transitive, and then the contract of a composite
  computation follows from the contracts of its parts.
\<close>

definition keeps :: "('w \<Rightarrow> 'w \<Rightarrow> bool) \<Rightarrow> ('w, 'a) io \<Rightarrow> bool" where
  "keeps R m \<longleftrightarrow> (\<forall>w. R w (snd (m w)))"

lemma keepsI: "(\<And>w r w'. m w = (r, w') \<Longrightarrow> R w w') \<Longrightarrow> keeps R m"
  by (metis keeps_def prod.collapse)

lemma keepsD: "keeps R m \<Longrightarrow> m w = (r, w') \<Longrightarrow> R w w'"
  by (metis keeps_def snd_conv)

definition lkeeps :: "('w \<Rightarrow> 'w \<Rightarrow> bool) \<Rightarrow> ('w, 'a) lio \<Rightarrow> bool" where
  "lkeeps R m \<longleftrightarrow> (\<forall>w r w'. m w = Some (r, w') \<longrightarrow> R w w')"

lemma lkeepsI: "(\<And>w r w'. m w = Some (r, w') \<Longrightarrow> R w w') \<Longrightarrow> lkeeps R m"
  by (simp add: lkeeps_def)

lemma lkeepsD: "lkeeps R m \<Longrightarrow> m w = Some (r, w') \<Longrightarrow> R w w'"
  by (simp add: lkeeps_def)

lemma lkeeps_once: "keeps R m \<Longrightarrow> lkeeps R (once m)"
  by (metis keepsD lkeepsI once_def option.sel)

locale state_contract =
  fixes R :: "'w \<Rightarrow> 'w \<Rightarrow> bool"
  assumes R_refl: "R w w"
    and R_trans: "R w w' \<Longrightarrow> R w' w'' \<Longrightarrow> R w w''"
begin

lemma keeps_ret [frame_intros]: "keeps R (ret x)"
  by (simp add: keeps_def ret_def R_refl)

lemma keeps_throw [frame_intros]: "keeps R (throw e)"
  by (simp add: keeps_def throw_def R_refl)

lemma keeps_attempt [frame_intros]:
  assumes "keeps R m" and "\<And>r. keeps R (h r)"
  shows "keeps R (attempt m h)"
proof (rule keepsI)
  fix w r w'' assume *: "attempt m h w = (r, w'')"
  obtain r0 w0 where m: "m w = (r0, w0)" by fastforce
  with * have "h r0 w0 = (r, w'')" by (simp add: attempt_def)
  with assms m show "R w w''" by (meson R_trans keepsD)
qed

lemma keeps_andThen [frame_intros]:
  assumes "keeps R m" and "\<And>x. keeps R (f x)"
  shows "keeps R (andThen m f)"
  unfolding andThen_def using assms
  by (intro keeps_attempt) (auto simp: keeps_throw split: sum.splits)

lemma lkeeps_lattempt:
  assumes "lkeeps R m" and "\<And>r. lkeeps R (h r)"
  shows "lkeeps R (lattempt m h)"
proof (rule lkeepsI)
  fix w r w'' assume "lattempt m h w = Some (r, w'')"
  then obtain r0 w0 where "m w = Some (r0, w0)" "h r0 w0 = Some (r, w'')"
    by (auto simp: lattempt_def split: option.splits)
  with assms show "R w w''" by (meson R_trans lkeepsD)
qed

lemma lkeeps_landThen:
  assumes "lkeeps R m" and "\<And>w x w'. m w = Some (Inr x, w') \<Longrightarrow> lkeeps R (f x)"
  shows "lkeeps R (landThen m f)"
proof (rule lkeepsI)
  fix w r w'' assume "landThen m f w = Some (r, w'')"
  then show "R w w''"
    by (cases rule: landThenE) (use assms in \<open>blast intro: R_trans dest: lkeepsD\<close>)+
qed

lemmas lframe_intros = lkeeps_lattempt lkeeps_landThen lkeeps_once

lemma keeps_if [frame_intros]: "(c \<Longrightarrow> keeps R m) \<Longrightarrow> (\<not> c \<Longrightarrow> keeps R n) \<Longrightarrow> keeps R (if c then m else n)"
  by simp

end

interpretation same_state: state_contract "\<lambda>w w'. w' = w"
  by unfold_locales simp_all

end
