(* ===== verification/S3_Path.thy ===== *)
theory S3_Path
  imports Go_Errors
begin

text \<open>
  \<^verbatim>\<open>src/internal/s3fs/path.go\<close>: the mapping from FTP paths to object keys. The lemmas
  describe the paths on which the mapping behaves as a path mapping should
  (\<open>stable_path\<close>), show that no path leaves the root prefix, and that the encoded copy
  source decodes to the bucket and key it was built from.
\<close>

definition CleanFTPPath :: "string \<Rightarrow> string" where
  "CleanFTPPath p0 =
     (let p = TrimSpace p0
      in if p = [] then [slash]
         else (let p' = (if \<not> prefix [slash] p then slash # p else p);
                   clean = path_Clean p'
               in if clean = ''.'' then [slash] else clean))"

definition joinRoot :: "string \<Rightarrow> string \<Rightarrow> string" where
  "joinRoot rootPrefix ftpPath =
     (let clean = CleanFTPPath ftpPath
      in if clean = [slash] then rootPrefix else rootPrefix @ TrimPrefix clean [slash])"

definition dirKey :: "string \<Rightarrow> string \<Rightarrow> string" where
  "dirKey rootPrefix ftpPath =
     (let k = joinRoot rootPrefix ftpPath
      in if k = [] \<or> suffix [slash] k then k else k @ [slash])"

definition relativeName :: "string \<Rightarrow> string \<Rightarrow> string" where
  "relativeName pre k = (if k = pre then [] else TrimPrefix (TrimSuffix k [slash]) pre)"

definition copySource :: "string \<Rightarrow> string \<Rightarrow> string" where
  "copySource bucket k =
     PathEscape bucket @ slash # Join slash (map PathEscape (Split slash k))"

section \<open>What cleaning gives\<close>

lemma CleanFTPPath_form:
  obtains es where "CleanFTPPath p = rooted es" "\<forall>e \<in> set es. plain_elem e"
proof (cases "TrimSpace p = []")
  case True
  then show ?thesis by (intro that [of "[]"]) (simp_all add: CleanFTPPath_def rooted_def)
next
  case False
  define q where "q = (if \<not> prefix [slash] (TrimSpace p) then slash # TrimSpace p else TrimSpace p)"
  have q: "q \<noteq> []" "hd q = slash" using False by (auto simp: q_def prefix_def)
  then obtain es where es: "path_Clean q = rooted es" "\<forall>e \<in> set es. plain_elem e"
    by (rule path_Clean_rooted_form)
  with False have "CleanFTPPath p = rooted es"
    by (simp add: CleanFTPPath_def q_def [symmetric] Let_def rooted_def)
  with es show ?thesis by (intro that)
qed

lemma CleanFTPPath_hd: "\<exists>s. CleanFTPPath p = slash # s"
  by (metis CleanFTPPath_form rooted_def)

definition stable_path :: "string list \<Rightarrow> bool" where
  "stable_path es \<longleftrightarrow> list_all plain_elem es \<and> (es \<noteq> [] \<longrightarrow> \<not> ends_space (last es))"

lemma stable_path_plain: "stable_path es \<Longrightarrow> \<forall>e \<in> set es. plain_elem e"
  by (simp add: stable_path_def list_all_iff)

lemma ends_space_rooted: "es \<noteq> [] \<Longrightarrow> ends_space (rooted es) \<longleftrightarrow> ends_space (last es)"
proof (induction es rule: rev_induct)
  case (snoc e es)
  obtain pre where "rooted (es @ [e]) = pre @ slash # e"
    by (cases "es = []") (auto simp: rooted_def Join_snoc intro: that [of "[]"])
  then show ?case by (simp add: ends_space_append_slash)
qed simp

lemma not_ends_space_rooted: "stable_path es \<Longrightarrow> \<not> ends_space (rooted es)"
  by (cases "es = []") (auto simp: stable_path_def ends_space_rooted, simp add: rooted_def)

lemma CleanFTPPath_rooted:
  assumes "stable_path es"
  shows "CleanFTPPath (rooted es) = rooted es"
proof -
  have "TrimSpace (rooted es) = rooted es"
    using assms by (intro TrimSpace_id not_ends_space_rooted) (simp_all add: rooted_def)
  then show ?thesis
    using path_Clean_rooted [OF stable_path_plain [OF assms]]
    by (simp add: CleanFTPPath_def rooted_def Let_def)
qed

lemma CleanFTPPath_stable:
  assumes "\<not> ends_space (CleanFTPPath p)"
  obtains es where "CleanFTPPath p = rooted es" "stable_path es"
proof -
  obtain es where es: "CleanFTPPath p = rooted es" "\<forall>e \<in> set es. plain_elem e"
    by (rule CleanFTPPath_form)
  with assms have "stable_path es"
    by (auto simp: stable_path_def list_all_iff ends_space_rooted)
  with es that show ?thesis by blast
qed

lemma CleanFTPPath_idem: "\<not> ends_space (CleanFTPPath p) \<Longrightarrow> CleanFTPPath (CleanFTPPath p) = CleanFTPPath p"
  by (metis CleanFTPPath_rooted CleanFTPPath_stable)

lemma CleanFTPPath_rooted_slash: "stable_path es \<Longrightarrow> CleanFTPPath (rooted es) = [slash] \<longleftrightarrow> es = []"
  by (simp add: CleanFTPPath_rooted rooted_eq_slash stable_path_plain)

lemma rooted_ne_slash: "stable_path es \<Longrightarrow> es \<noteq> [] \<Longrightarrow> rooted es \<noteq> [slash]"
  by (simp add: rooted_eq_slash stable_path_plain)

section \<open>Keys\<close>

definition wf_root :: "string \<Rightarrow> bool" where
  "wf_root rp \<longleftrightarrow> rp = [] \<or> suffix [slash] rp"

lemma joinRoot_prefix: "prefix rp (joinRoot rp p)"
  by (simp add: joinRoot_def Let_def)

lemma dirKey_prefix: "prefix rp (dirKey rp p)"
  by (auto simp: dirKey_def Let_def joinRoot_prefix intro: prefix_order.trans)

lemma dirKey_end: "dirKey rp p = [] \<or> suffix [slash] (dirKey rp p)"
  by (auto simp: dirKey_def Let_def suffix_def)

lemma joinRoot_rooted:
  assumes "stable_path es"
  shows "joinRoot rp (rooted es) = rp @ Join slash es"
  using rooted_eq_slash [OF stable_path_plain [OF assms]] assms
  by (simp add: joinRoot_def Let_def CleanFTPPath_rooted) (simp add: rooted_def)

lemma Join_plain_last:
  assumes "\<forall>e \<in> set es. plain_elem e" "es \<noteq> []"
  shows "Join slash es \<noteq> []" "last (Join slash es) \<noteq> slash"
proof -
  show "Join slash es \<noteq> []"
    using assms by (simp add: Join_eq_Nil plain_elem_def)
  obtain fs e where es: "es = fs @ [e]" using assms(2) by (cases es rule: rev_cases) auto
  with assms have e: "e \<noteq> []" "slash \<notin> set e" by (auto simp: plain_elem_def)
  then have "last e \<noteq> slash" by (metis last_in_set)
  with e es show "last (Join slash es) \<noteq> slash"
    by (cases "fs = []") (simp_all add: Join_snoc)
qed

lemma dirKey_rooted:
  assumes "stable_path es" "es \<noteq> []"
  shows "dirKey rp (rooted es) = rp @ Join slash es @ [slash]"
  using Join_plain_last [OF stable_path_plain [OF assms(1)] assms(2)]
  by (simp add: dirKey_def Let_def joinRoot_rooted assms suffix_singleton)

lemma dirKey_root: "wf_root rp \<Longrightarrow> dirKey rp [slash] = rp"
  using joinRoot_rooted [of "[]" rp]
  by (auto simp: dirKey_def Let_def wf_root_def stable_path_def rooted_def)

lemma joinRoot_ne: "stable_path es \<Longrightarrow> es \<noteq> [] \<Longrightarrow> joinRoot rp (rooted es) \<noteq> []"
  using Join_plain_last(1) [OF stable_path_plain] by (simp add: joinRoot_rooted)

lemma joinRoot_inject:
  assumes "stable_path es" "stable_path fs"
  shows "joinRoot rp (rooted es) = joinRoot rp (rooted fs) \<longleftrightarrow> es = fs"
  using rooted_inject [OF stable_path_plain stable_path_plain, OF assms]
  by (simp add: joinRoot_rooted assms) (simp add: rooted_def)

section \<open>Entry names and copy sources\<close>

lemma relativeName_file: "n \<noteq> [] \<Longrightarrow> slash \<notin> set n \<Longrightarrow> relativeName pre (pre @ n) = n"
proof -
  assume n: "n \<noteq> []" "slash \<notin> set n"
  then have "last n \<noteq> slash" by (metis last_in_set)
  with n have "\<not> suffix [slash] (pre @ n)" by (simp add: suffix_singleton)
  with n show ?thesis by (simp add: relativeName_def TrimSuffix_id)
qed

lemma relativeName_dir: "relativeName pre (pre @ n @ [slash]) = n"
proof -
  have "TrimSuffix (pre @ n @ [slash]) [slash] = pre @ n"
    using TrimSuffix_append [of "pre @ n" "[slash]"] by simp
  then show ?thesis by (simp add: relativeName_def)
qed

lemma percent_decode_Join:
  "xs \<noteq> [] \<Longrightarrow> percent_decode (Join slash (map PathEscape xs)) = Some (Join slash xs)"
proof (induction xs)
  case (Cons x xs)
  show ?case
  proof (cases "xs = []")
    case True
    then show ?thesis by (simp add: PathEscape_roundtrip)
  next
    case False
    with Cons.IH show ?thesis by (simp add: Join_Cons percent_decode_PathEscape)
  qed
qed simp

lemma copySource_decodes: "percent_decode (copySource bucket k) = Some (bucket @ slash # k)"
  by (simp add: copySource_def percent_decode_PathEscape percent_decode_Join)

end
