(* ===== verification/S3_Api.thy ===== *)
theory S3_Api
  imports Go_Errors
begin

text \<open>
  The object store the program talks to, as an interface. The store and the AWS SDK are
  not part of the repository, so every operation of the model takes the SDK's calls as a
  record of functions \<open>api\<close> over an unknown world \<open>'w\<close> and an unknown type of response
  bodies \<open>'b\<close>. What the code relies on is stated as the assumptions of three locales:

  \<^item> \<open>body_reader\<close>: the contract of \<^verbatim>\<open>io.Reader\<close> for a response body;
  \<^item> \<open>s3_service\<close>: what a reply of the service says about the stored objects, with
    failures of any call allowed at any time. A failed write may or may not have happened;
  \<^item> \<open>s3_available\<close>: in addition, a set of states (\<open>up\<close>) in which calls do not fail.

  The abstraction \<open>objs w b k\<close> is the content of the object with key \<open>k\<close> of bucket
  \<open>b\<close>. The calls of one operation are not interleaved with other clients of the bucket.
\<close>

section \<open>Requests and replies\<close>

type_synonym gotime = int

definition zeroTime :: gotime where
  "zeroTime = 0"

record list_input =
  in_Bucket :: string
  in_Prefix :: string
  in_Delimiter :: "string option"
  in_MaxKeys :: "int option"
  in_ContinuationToken :: "string option"

record object_summary =
  Key :: "string option"
  Size :: "int option"
  LastModified :: "gotime option"

record list_output =
  Contents :: "object_summary list"
  CommonPrefixes :: "string option list"
  IsTruncated :: "bool option"
  NextContinuationToken :: "string option"

record head_output =
  ContentLength :: "int option"
  head_LastModified :: "gotime option"

record get_input =
  get_Bucket :: string
  get_Key :: string
  get_Range :: "string option"

record 'r put_input =
  put_Bucket :: string
  put_Key :: string
  put_Body :: 'r
  put_ContentLength :: "int option"
  put_ContentType :: "string option"

text \<open>The SDK's helpers that read optional fields.\<close>

definition ToString :: "string option \<Rightarrow> string" where
  "ToString v = (case v of None \<Rightarrow> [] | Some s \<Rightarrow> s)"

definition ToBool :: "bool option \<Rightarrow> bool" where
  "ToBool v = (case v of None \<Rightarrow> False | Some b \<Rightarrow> b)"

definition ToInt64 :: "int option \<Rightarrow> int" where
  "ToInt64 v = (case v of None \<Rightarrow> 0 | Some n \<Rightarrow> n)"

definition ToTime :: "gotime option \<Rightarrow> gotime" where
  "ToTime v = (case v of None \<Rightarrow> zeroTime | Some t \<Rightarrow> t)"

lemma To_Some [simp]:
  "ToString (Some s) = s" "ToBool (Some b) = b" "ToInt64 (Some n) = n" "ToTime (Some t) = t"
  by (simp_all add: ToString_def ToBool_def ToInt64_def ToTime_def)

text \<open>How the body of an upload ended: read to its end, failed, or not read to its end.\<close>

datatype body_end = AtEOF | ReadFailed error | NotDrained

record ('w, 'b) s3api =
  HeadObject :: "string \<Rightarrow> string \<Rightarrow> ('w, head_output) io"
  ListObjectsV2 :: "list_input \<Rightarrow> ('w, list_output) io"
  GetObject :: "get_input \<Rightarrow> ('w, 'b) io"
  PutObject :: "bytes put_input \<Rightarrow> ('w, unit) io"
  DeleteObject :: "string \<Rightarrow> string \<Rightarrow> ('w, unit) io"
  DeleteObjects :: "string \<Rightarrow> string list \<Rightarrow> ('w, string list) io"
  CopyObject :: "string \<Rightarrow> string \<Rightarrow> string \<Rightarrow> ('w, unit) io"
  ReadBody :: "'b \<Rightarrow> nat \<Rightarrow> 'w \<Rightarrow> (bytes \<times> error option \<times> 'b) \<times> 'w"
  CloseBody :: "'b \<Rightarrow> ('w, unit) io"
  Upload :: "bytes put_input \<Rightarrow> body_end \<Rightarrow> ('w, unit) io"
  HeadBucket :: "string \<Rightarrow> ('w, unit) io"
  CreateBucket :: "string \<Rightarrow> ('w, unit) io"

text \<open>
  \<open>DeleteObjects\<close> answers with the keys under \<^verbatim>\<open>Errors\<close>, the ones it could not delete.
  \<open>Upload inp end\<close> is the SDK's \<^verbatim>\<open>manager.Uploader\<close>: its effect depends on the bytes
  its body delivered (\<open>put_Body\<close>) and on how the body ended.
\<close>

section \<open>The object map\<close>

type_synonym objects = "string \<Rightarrow> string \<Rightarrow> bytes option"

definition upd_obj :: "objects \<Rightarrow> string \<Rightarrow> string \<Rightarrow> bytes option \<Rightarrow> objects" where
  "upd_obj m b k v = m(b := (m b)(k := v))"

definition del_objs :: "objects \<Rightarrow> string \<Rightarrow> string set \<Rightarrow> objects" where
  "del_objs m b D = m(b := (\<lambda>k. if k \<in> D then None else m b k))"

lemma upd_obj_apply [simp]:
  "upd_obj m b k v b' k' = (if b' = b \<and> k' = k then v else m b' k')"
  by (simp add: upd_obj_def)

lemma del_objs_apply [simp]:
  "del_objs m b D b' k' = (if b' = b \<and> k' \<in> D then None else m b' k')"
  by (simp add: del_objs_def)

section \<open>Listings\<close>

datatype list_entry = EKey string | EPrefix string

fun entry_key :: "list_entry \<Rightarrow> string option" where
  "entry_key (EKey k) = Some k"
| "entry_key (EPrefix p) = None"

fun entry_prefix :: "list_entry \<Rightarrow> string option" where
  "entry_prefix (EKey k) = None"
| "entry_prefix (EPrefix p) = Some p"

text \<open>
  A listing without delimiter has one entry per key with the given prefix, in bytewise
  order. With a delimiter the keys that contain it after the prefix are rolled up: each
  group is one common prefix, which ends with the first delimiter after the prefix.
\<close>

definition roll_up :: "string \<Rightarrow> char option \<Rightarrow> string \<Rightarrow> list_entry" where
  "roll_up pre d k =
     (case d of
        None \<Rightarrow> EKey k
      | Some c \<Rightarrow>
          (let rest = drop (length pre) k
           in if c \<in> set rest then EPrefix (pre @ takeWhile (\<lambda>x. x \<noteq> c) rest @ [c]) else EKey k))"

definition listing_of :: "string list \<Rightarrow> string \<Rightarrow> char option \<Rightarrow> list_entry list" where
  "listing_of ks pre d = remdups (map (roll_up pre d) (filter (prefix pre) ks))"

definition listing :: "(string \<rightharpoonup> bytes) \<Rightarrow> string \<Rightarrow> char option \<Rightarrow> list_entry list" where
  "listing m pre d = listing_of (sorted_list_of_set (dom m)) pre d"

definition summary_of :: "(string \<rightharpoonup> bytes) \<Rightarrow> (string \<Rightarrow> gotime) \<Rightarrow> string \<Rightarrow> object_summary" where
  "summary_of m mt k =
     \<lparr>Key = Some k, Size = Some (int (length (the (m k)))), LastModified = Some (mt k)\<rparr>"

text \<open>The largest number of entries of one reply: \<^verbatim>\<open>MaxKeys\<close>, at most 1000.\<close>

definition max_entries :: "list_input \<Rightarrow> nat" where
  "max_entries inp = (case in_MaxKeys inp of None \<Rightarrow> 1000 | Some n \<Rightarrow> min (nat n) 1000)"

text \<open>
  One reply holds a slice of the listing, from where the continuation token points. It is
  marked truncated exactly when entries remain, and then it is not empty and carries the
  token for the rest.
\<close>

definition page_of ::
  "(list_entry list \<Rightarrow> string \<Rightarrow> nat) \<Rightarrow> (string \<rightharpoonup> bytes) \<Rightarrow> (string \<Rightarrow> gotime) \<Rightarrow>
     list_entry list \<Rightarrow> nat \<Rightarrow> nat \<Rightarrow> list_output \<Rightarrow> bool" where
  "page_of tokpos m mt es pos n out \<longleftrightarrow>
     (let pg = take n (drop pos es)
      in Contents out = map (summary_of m mt) (List.map_filter entry_key pg)
       \<and> CommonPrefixes out = map Some (List.map_filter entry_prefix pg)
       \<and> (ToBool (IsTruncated out) \<longleftrightarrow> pos + n < length es)
       \<and> (ToBool (IsTruncated out) \<longrightarrow>
            0 < n \<and> (\<exists>t. NextContinuationToken out = Some t \<and> tokpos es t = pos + n)))"

section \<open>The contract of a response body\<close>

locale body_reader =
  fixes rd :: "'b \<Rightarrow> nat \<Rightarrow> 'w \<Rightarrow> (bytes \<times> error option \<times> 'b) \<times> 'w"
    and rem :: "'b \<Rightarrow> bytes"
  assumes rd_split: "rd b n w = ((bs, e, b'), w') \<Longrightarrow> length bs \<le> n \<and> rem b = bs @ rem b'"
    and rd_eof: "rd b n w = ((bs, Some EOF, b'), w') \<Longrightarrow> rem b' = []"
    and rd_progress: "rd b n w = ((bs, None, b'), w') \<Longrightarrow> 0 < n \<Longrightarrow> bs \<noteq> []"
begin

lemma rd_length: "rd b n w = ((bs, e, b'), w') \<Longrightarrow> length (rem b') \<le> length (rem b)"
  using rd_split by fastforce

lemma rd_take: "rd b n w = ((bs, e, b'), w') \<Longrightarrow> bs = take (length bs) (rem b)"
  using rd_split by fastforce

lemma rd_drop: "rd b n w = ((bs, e, b'), w') \<Longrightarrow> rem b' = drop (length bs) (rem b)"
  using rd_split by fastforce

lemma rd_eof_all: "rd b n w = ((bs, Some EOF, b'), w') \<Longrightarrow> bs = rem b"
  using rd_split rd_eof by fastforce

end

section \<open>What the replies of the service say\<close>

definition range_from :: "int \<Rightarrow> string" where
  "range_from n = ''bytes='' @ Itoa n @ ''-''"

locale s3_service = body_reader "ReadBody api" rem
  for api :: "('w, 'b) s3api" and rem :: "'b \<Rightarrow> bytes" +
  fixes objs :: "'w \<Rightarrow> objects"
    and mtime :: "'w \<Rightarrow> string \<Rightarrow> string \<Rightarrow> gotime"
    and tokpos :: "list_entry list \<Rightarrow> string \<Rightarrow> nat"
  assumes finite_bucket: "finite (dom (objs w b))"
    and head_frame: "HeadObject api b k w = (r, w') \<Longrightarrow> objs w' = objs w"
    and head_found: "HeadObject api b k w = (Inr out, w') \<Longrightarrow>
      \<exists>v. objs w b k = Some v \<and> ContentLength out = Some (int (length v))
        \<and> head_LastModified out = Some (mtime w b k)"
    and head_missing: "HeadObject api b k w = (Inl e, w') \<Longrightarrow> isNotFound (Some e) \<Longrightarrow>
      objs w b k = None"
    and list_frame: "ListObjectsV2 api linp w = (rl, w') \<Longrightarrow> objs w' = objs w \<and> mtime w' = mtime w"
    and list_page: "ListObjectsV2 api linp w = (Inr lout, w') \<Longrightarrow>
      0 < max_entries linp \<Longrightarrow> in_Delimiter linp = map_option (\<lambda>c. [c]) d \<Longrightarrow>
      es = listing (objs w (in_Bucket linp)) (in_Prefix linp) d \<Longrightarrow>
      \<exists>n \<le> max_entries linp. page_of tokpos (objs w (in_Bucket linp)) (mtime w (in_Bucket linp)) es
        (case in_ContinuationToken linp of None \<Rightarrow> 0 | Some t \<Rightarrow> tokpos es t) n lout"
    and get_frame: "GetObject api ginp w = (rg, w') \<Longrightarrow> objs w' = objs w"
    and get_whole: "GetObject api \<lparr>get_Bucket = b, get_Key = k, get_Range = None\<rparr> w = (Inr bd, w') \<Longrightarrow>
      objs w b k = Some (rem bd)"
    and get_range: "GetObject api \<lparr>get_Bucket = b, get_Key = k, get_Range = Some (range_from off)\<rparr> w
        = (Inr bd, w') \<Longrightarrow> 0 \<le> off \<Longrightarrow>
      \<exists>v. objs w b k = Some v \<and> nat off < length v \<and> rem bd = drop (nat off) v"
    and put_done: "PutObject api inp w = (Inr (), w') \<Longrightarrow>
      objs w' = upd_obj (objs w) (put_Bucket inp) (put_Key inp) (Some (put_Body inp))"
    and put_failed: "PutObject api inp w = (Inl e, w') \<Longrightarrow>
      objs w' = objs w \<or> objs w' = upd_obj (objs w) (put_Bucket inp) (put_Key inp) (Some (put_Body inp))"
    and delete_done: "DeleteObject api b k w = (Inr (), w') \<Longrightarrow> objs w' = upd_obj (objs w) b k None"
    and delete_failed: "DeleteObject api b k w = (Inl e, w') \<Longrightarrow>
      objs w' = objs w \<or> objs w' = upd_obj (objs w) b k None"
    and deletes_done: "DeleteObjects api b ks w = (Inr errs, w') \<Longrightarrow>
      objs w' = del_objs (objs w) b (set ks - set errs)"
    and deletes_failed: "DeleteObjects api b ks w = (Inl e, w') \<Longrightarrow>
      \<exists>D \<subseteq> set ks. objs w' = del_objs (objs w) b D"
    and copy_done: "CopyObject api b k src w = (Inr (), w') \<Longrightarrow>
      percent_decode src = Some (b0 @ slash # k0) \<Longrightarrow> slash \<notin> set b0 \<Longrightarrow>
      objs w b0 k0 \<noteq> None \<and> objs w' = upd_obj (objs w) b k (objs w b0 k0)"
    and copy_failed: "CopyObject api b k src w = (Inl e, w') \<Longrightarrow>
      percent_decode src = Some (b0 @ slash # k0) \<Longrightarrow> slash \<notin> set b0 \<Longrightarrow>
      objs w' = objs w \<or> objs w b0 k0 \<noteq> None \<and> objs w' = upd_obj (objs w) b k (objs w b0 k0)"
    and read_frame: "ReadBody api bd n w = (r2, w') \<Longrightarrow> objs w' = objs w"
    and close_frame: "CloseBody api bd w = (ru, w') \<Longrightarrow> objs w' = objs w"
    and upload_done: "Upload api inp fin w = (Inr (), w') \<Longrightarrow>
      fin = AtEOF \<and> objs w' = upd_obj (objs w) (put_Bucket inp) (put_Key inp) (Some (put_Body inp))"
    and upload_failed: "Upload api inp fin w = (Inl e, w') \<Longrightarrow>
      objs w' = objs w \<or>
      fin = AtEOF \<and> objs w' = upd_obj (objs w) (put_Bucket inp) (put_Key inp) (Some (put_Body inp))"
    and headb_frame: "HeadBucket api b w = (ru, w') \<Longrightarrow> objs w' = objs w"
    and createb_frame: "CreateBucket api b w = (ru, w') \<Longrightarrow> objs w' = objs w"
    and get_wrapped: "GetObject api ginp w = (Inl e, w') \<Longrightarrow> e \<noteq> EOF"

text \<open>
  States in which no call fails, and that no call leaves. A reply to a listing may still have
  fewer entries than asked for, and a copy of an object onto itself may be refused.
\<close>

locale s3_available = s3_service +
  fixes up :: "'w \<Rightarrow> bool"
  assumes head_up: "up w \<Longrightarrow> HeadObject api b k w = (r, w') \<Longrightarrow>
      up w' \<and> (objs w b k \<noteq> None \<longrightarrow> isl r = False) \<and> (\<forall>e. r = Inl e \<longrightarrow> isNotFound (Some e))"
    and list_up: "up w \<Longrightarrow> ListObjectsV2 api linp w = (rl, w') \<Longrightarrow> up w' \<and> \<not> isl rl"
    and get_up: "up w \<Longrightarrow> GetObject api ginp w = (rg, w') \<Longrightarrow> up w'
      \<and> (get_Range ginp = None \<and> objs w (get_Bucket ginp) (get_Key ginp) \<noteq> None \<longrightarrow> \<not> isl rg)
      \<and> (\<forall>n v. get_Range ginp = Some (range_from n) \<and> 0 \<le> n
           \<and> objs w (get_Bucket ginp) (get_Key ginp) = Some v \<and> nat n < length v \<longrightarrow> \<not> isl rg)"
    and put_up: "up w \<Longrightarrow> PutObject api pinp w = (r', w') \<Longrightarrow> up w' \<and> \<not> isl r'"
    and delete_up: "up w \<Longrightarrow> DeleteObject api b k w = (r', w') \<Longrightarrow> up w' \<and> \<not> isl r'"
    and deletes_up: "up w \<Longrightarrow> DeleteObjects api b ks w = (r'', w') \<Longrightarrow> up w' \<and> r'' = Inr []"
    and copy_up: "up w \<Longrightarrow> CopyObject api b k src w = (r', w') \<Longrightarrow> up w'
      \<and> (\<forall>b0 k0. percent_decode src = Some (b0 @ slash # k0) \<and> slash \<notin> set b0
           \<and> objs w b0 k0 \<noteq> None \<and> (b0, k0) \<noteq> (b, k) \<longrightarrow> \<not> isl r')"
    and read_up: "up w \<Longrightarrow> ReadBody api bd n w = ((bs, e, bd'), w') \<Longrightarrow>
      up w' \<and> (e = None \<or> e = Some EOF)"
    and close_up: "up w \<Longrightarrow> CloseBody api bd w = (r', w') \<Longrightarrow> up w' \<and> \<not> isl r'"
    and upload_up: "up w \<Longrightarrow> Upload api pinp fin w = (r', w') \<Longrightarrow> up w' \<and> (fin = AtEOF \<longrightarrow> \<not> isl r')"

end
