(* ===== verification/File_Info.thy ===== *)
theory File_Info
  imports S3_Api "HOL-Library.Word"
begin

text \<open>
  \<^verbatim>\<open>src/internal/s3fs/fileinfo.go\<close> and \<^verbatim>\<open>src/internal/s3fs/helpers.go\<close>: the value
  returned for a file or a directory, and the builders of SDK requests.
\<close>

unbundle bit_operations_syntax

type_synonym FileMode = "32 word"

text \<open>\<^verbatim>\<open>os.ModeDir\<close> is bit 31; \<^verbatim>\<open>0o755\<close> and \<^verbatim>\<open>0o644\<close> are written in decimal.\<close>

definition ModeDir :: FileMode where
  "ModeDir = push_bit 31 1"

record FileInfo =
  NameValue :: string
  SizeValue :: int
  ModeValue :: FileMode
  ModTimeValue :: gotime
  DirValue :: bool

definition NewDirInfo :: "string \<Rightarrow> FileInfo" where
  "NewDirInfo name =
     \<lparr>NameValue = name, SizeValue = 0, ModeValue = ModeDir OR 493, ModTimeValue = zeroTime,
      DirValue = True\<rparr>"

definition NewFileInfo :: "string \<Rightarrow> int \<Rightarrow> gotime \<Rightarrow> FileInfo" where
  "NewFileInfo name sz modTime =
     \<lparr>NameValue = name, SizeValue = sz, ModeValue = 420, ModTimeValue = modTime,
      DirValue = False\<rparr>"

definition FileInfo_Name :: "FileInfo \<Rightarrow> string" where
  "FileInfo_Name f = NameValue f"

definition FileInfo_Size :: "FileInfo \<Rightarrow> int" where
  "FileInfo_Size f = SizeValue f"

definition FileInfo_Mode :: "FileInfo \<Rightarrow> FileMode" where
  "FileInfo_Mode f = ModeValue f"

definition FileInfo_ModTime :: "FileInfo \<Rightarrow> gotime" where
  "FileInfo_ModTime f = ModTimeValue f"

definition IsDir :: "FileInfo \<Rightarrow> bool" where
  "IsDir f = DirValue f"

definition putObjectInput :: "string \<Rightarrow> string \<Rightarrow> 'r \<Rightarrow> string \<Rightarrow> 'r put_input" where
  "putObjectInput b k body contentType =
     \<lparr>put_Bucket = b, put_Key = k, put_Body = body, put_ContentLength = None,
      put_ContentType = (if contentType \<noteq> [] then Some contentType else None)\<rparr>"

definition sizeOf :: "int option \<Rightarrow> int" where
  "sizeOf v = ToInt64 v"

definition timeOf :: "gotime option \<Rightarrow> gotime" where
  "timeOf v = ToTime v"

lemma FileInfo_sel [simp]:
  "FileInfo_Name (NewDirInfo n) = n" "IsDir (NewDirInfo n)" "FileInfo_Size (NewDirInfo n) = 0"
  "FileInfo_Name (NewFileInfo n s t) = n" "\<not> IsDir (NewFileInfo n s t)"
  "FileInfo_Size (NewFileInfo n s t) = s" "FileInfo_ModTime (NewFileInfo n s t) = t"
  by (simp_all add: NewDirInfo_def NewFileInfo_def FileInfo_Name_def FileInfo_Size_def
      FileInfo_ModTime_def IsDir_def)

text \<open>The directory bit of the mode agrees with the directory flag.\<close>

lemma mode_dir_bit:
  "bit (FileInfo_Mode (NewDirInfo n)) 31" "\<not> bit (FileInfo_Mode (NewFileInfo n s t)) 31"
  by (simp_all add: FileInfo_Mode_def NewDirInfo_def NewFileInfo_def ModeDir_def)

lemma putObjectInput_sel [simp]:
  "put_Bucket (putObjectInput b k r ct) = b" "put_Key (putObjectInput b k r ct) = k"
  "put_Body (putObjectInput b k r ct) = r"
  by (simp_all add: putObjectInput_def)

end
