(* ===== verification/Fs.thy ===== *)
theory Fs
  imports S3_Path File_Info
begin

text \<open>
  \<^verbatim>\<open>src/internal/s3fs/fs.go\<close>: the filesystem view over a bucket and a root prefix, its
  lookup of a path (\<open>Stat\<close>) and the requests the other files build on. Opening files
  is in the theories of the handles.
\<close>

record FS =
  bucket :: string
  rootPrefix :: string
  dirMarker :: bool
  readOnly :: bool

definition NewFS :: "string \<Rightarrow> string \<Rightarrow> bool \<Rightarrow> bool \<Rightarrow> FS" where
  "NewFS b rp dm ro = \<lparr>bucket = b, rootPrefix = rp, dirMarker = dm, readOnly = ro\<rparr>"

definition FS_key :: "FS \<Rightarrow> string \<Rightarrow> string" where
  "FS_key f p = joinRoot (rootPrefix f) p"

definition FS_keyDir :: "FS \<Rightarrow> string \<Rightarrow> string" where
  "FS_keyDir f p = dirKey (rootPrefix f) p"

definition list_request :: "string \<Rightarrow> string \<Rightarrow> string option \<Rightarrow> int option \<Rightarrow> string option \<Rightarrow> list_input" where
  "list_request b pre d mx tok =
     \<lparr>in_Bucket = b, in_Prefix = pre, in_Delimiter = d, in_MaxKeys = mx, in_ContinuationToken = tok\<rparr>"

lemma list_request_sel [simp]:
  "in_Bucket (list_request b pre d mx tok) = b" "in_Prefix (list_request b pre d mx tok) = pre"
  "in_Delimiter (list_request b pre d mx tok) = d" "in_MaxKeys (list_request b pre d mx tok) = mx"
  "in_ContinuationToken (list_request b pre d mx tok) = tok"
  by (simp_all add: list_request_def)

definition Stat :: "('w, 'b) s3api \<Rightarrow> FS \<Rightarrow> string \<Rightarrow> ('w, FileInfo) io" where
  "Stat api f name =
     (let clean = CleanFTPPath name
      in if clean = [slash] then ret (NewDirInfo [slash])
         else (let k = FS_key f clean
               in if k = [] then ret (NewDirInfo [slash])
                  else attempt (HeadObject api (bucket f) k) (\<lambda>r.
                    case r of
                      Inr head \<Rightarrow>
                        ret (NewFileInfo (path_Base clean) (ToInt64 (ContentLength head))
                               (ToTime (head_LastModified head)))
                    | Inl err \<Rightarrow>
                        if \<not> isNotFound (Some err) then throw (Wrapped ''stat %s: %w'' [clean] err)
                        else attempt (ListObjectsV2 api
                               (list_request (bucket f) (FS_keyDir f clean) None (Some 1) None)) (\<lambda>r2.
                          case r2 of
                            Inl listErr \<Rightarrow> throw (Wrapped ''stat %s: %w'' [clean] listErr)
                          | Inr lst \<Rightarrow>
                              if length (Contents lst) > 0 \<or> length (CommonPrefixes lst) > 0
                              then ret (NewDirInfo (path_Base clean))
                              else throw (notExist ''stat'' clean)))))"

definition getObject :: "('w, 'b) s3api \<Rightarrow> FS \<Rightarrow> string \<Rightarrow> int \<Rightarrow> ('w, 'b) io" where
  "getObject api f k offset =
     GetObject api \<lparr>get_Bucket = bucket f, get_Key = k,
       get_Range = (if offset > 0 then Some (''bytes='' @ Itoa offset @ ''-'') else None)\<rparr>"

text \<open>The pair \<^verbatim>\<open>(out, found)\<close> is an option: \<^term>\<open>None\<close> is \<^verbatim>\<open>found = false\<close>.\<close>

definition headObject :: "('w, 'b) s3api \<Rightarrow> FS \<Rightarrow> string \<Rightarrow> ('w, head_output option) io" where
  "headObject api f k =
     attempt (HeadObject api (bucket f) k) (\<lambda>r.
       case r of
         Inl err \<Rightarrow> if isNotFound (Some err) then ret None else throw err
       | Inr out \<Rightarrow> ret (Some out))"

definition headSize :: "('w, 'b) s3api \<Rightarrow> FS \<Rightarrow> string \<Rightarrow> ('w, int option) io" where
  "headSize api f k =
     andThen (headObject api f k) (\<lambda>found.
       case found of None \<Rightarrow> ret None | Some out \<Rightarrow> ret (Some (sizeOf (ContentLength out))))"

definition prefixHasObjects :: "('w, 'b) s3api \<Rightarrow> FS \<Rightarrow> string \<Rightarrow> ('w, bool) io" where
  "prefixHasObjects api f pre =
     andThen (ListObjectsV2 api (list_request (bucket f) pre None (Some 1) None)) (\<lambda>out.
       ret (length (Contents out) > 0))"

text \<open>\<^verbatim>\<open>Chmod\<close>, \<^verbatim>\<open>Chown\<close> and \<^verbatim>\<open>Chtimes\<close> accept and do nothing.\<close>

definition Chmod :: "string \<Rightarrow> FileMode \<Rightarrow> ('w, unit) io" where
  "Chmod name mode = ret ()"

definition Chown :: "string \<Rightarrow> int \<Rightarrow> int \<Rightarrow> ('w, unit) io" where
  "Chown name uid gid = ret ()"

definition Chtimes :: "string \<Rightarrow> gotime \<Rightarrow> gotime \<Rightarrow> ('w, unit) io" where
  "Chtimes name atime mtime = ret ()"

section \<open>What is at a path\<close>

text \<open>
  The specification of a lookup, over the objects of one bucket: an object with the key
  of the path is a file, otherwise any object below the key's prefix makes a directory.
\<close>

datatype node = NFile bytes | NDir | NNone

definition below :: "(string \<rightharpoonup> bytes) \<Rightarrow> string \<Rightarrow> bool" where
  "below m pre \<longleftrightarrow> (\<exists>k \<in> dom m. prefix pre k)"

definition node_at :: "(string \<rightharpoonup> bytes) \<Rightarrow> string \<Rightarrow> string list \<Rightarrow> node" where
  "node_at m rp es =
     (if es = [] then NDir
      else (case m (rp @ Join slash es) of
              Some v \<Rightarrow> NFile v
            | None \<Rightarrow> if below m (rp @ Join slash es @ [slash]) then NDir else NNone))"

text \<open>The same, by keys: the form that holds of every argument string.\<close>

definition node_key :: "(string \<rightharpoonup> bytes) \<Rightarrow> string \<Rightarrow> string \<Rightarrow> node" where
  "node_key m k d = (case m k of Some v \<Rightarrow> NFile v | None \<Rightarrow> if below m d then NDir else NNone)"

lemma node_at_key:
  assumes "stable_path es" "es \<noteq> []"
  shows "node_at m (rootPrefix f) es = node_key m (FS_key f (rooted es)) (FS_keyDir f (rooted es))"
  by (simp add: node_at_def node_key_def FS_key_def FS_keyDir_def joinRoot_rooted dirKey_rooted assms)

lemma listing_plain: "listing m pre None = map EKey (filter (prefix pre) (sorted_list_of_set (dom m)))"
proof -
  have "roll_up pre None = EKey" by (auto simp: roll_up_def fun_eq_iff)
  moreover have "distinct (map EKey (filter (prefix pre) (sorted_list_of_set (dom m))))"
    by (simp add: distinct_map inj_on_def)
  ultimately show ?thesis by (simp add: listing_def listing_of_def distinct_remdups_id)
qed

lemma map_filter_EKey [simp]:
  "List.map_filter entry_key (map EKey ks) = ks" "List.map_filter entry_prefix (map EKey ks) = []"
  by (induction ks) (simp_all add: List.map_filter_def)

context s3_service
begin

text \<open>A probe of a prefix without delimiter: its first page is empty iff nothing is below.\<close>

lemma probe_page:
  assumes "ListObjectsV2 api (list_request b pre None (Some mx) None) w = (Inr out, w')" "0 < mx"
  obtains n where "n \<le> min (nat mx) 1000"
    "map (ToString \<circ> Key) (Contents out) = take n (filter (prefix pre) (sorted_list_of_set (dom (objs w b))))"
    "CommonPrefixes out = []"
    "ToBool (IsTruncated out) \<longleftrightarrow> n < length (filter (prefix pre) (sorted_list_of_set (dom (objs w b))))"
    "ToBool (IsTruncated out) \<Longrightarrow> 0 < n"
proof -
  let ?ks = "filter (prefix pre) (sorted_list_of_set (dom (objs w b)))"
  obtain n where n: "n \<le> min (nat mx) 1000"
    and pg: "page_of tokpos (objs w b) (mtime w b) (map EKey ?ks) 0 n out"
    using list_page [OF assms(1), of None "map EKey ?ks"] assms(2)
    by (auto simp: max_entries_def listing_plain)
  have "map (ToString \<circ> Key) (Contents out) = take n ?ks"
    using pg by (simp add: page_of_def take_map Let_def o_def summary_of_def)
  with n pg that show ?thesis by (simp add: page_of_def take_map Let_def)
qed

lemma probe_iff:
  assumes "ListObjectsV2 api (list_request b pre None (Some mx) None) w = (Inr out, w')" "0 < mx"
  shows "Contents out \<noteq> [] \<longleftrightarrow> below (objs w b) pre" and "CommonPrefixes out = []"
proof -
  let ?ks = "filter (prefix pre) (sorted_list_of_set (dom (objs w b)))"
  from assms obtain n where n: "map (ToString \<circ> Key) (Contents out) = take n ?ks"
      "CommonPrefixes out = []" "ToBool (IsTruncated out) \<longleftrightarrow> n < length ?ks"
      "ToBool (IsTruncated out) \<Longrightarrow> 0 < n"
    by (rule probe_page) blast
  have "Contents out \<noteq> [] \<longleftrightarrow> take n ?ks \<noteq> []" by (simp flip: n(1))
  also have "\<dots> \<longleftrightarrow> ?ks \<noteq> []" using n(3,4) by (cases "n = 0") auto
  also have "\<dots> \<longleftrightarrow> below (objs w b) pre"
    by (auto simp: below_def filter_empty_conv finite_bucket)
  finally show "Contents out \<noteq> [] \<longleftrightarrow> below (objs w b) pre" .
  show "CommonPrefixes out = []" by (rule n(2))
qed

lemma headObject_cases:
  assumes "headObject api f k w = (r, w')"
  shows "objs w' = objs w"
    and "r = Inr None \<Longrightarrow> objs w (bucket f) k = None"
    and "r = Inr (Some out) \<Longrightarrow> \<exists>v. objs w (bucket f) k = Some v
      \<and> ContentLength out = Some (int (length v)) \<and> head_LastModified out = Some (mtime w (bucket f) k)"
  using assms
  by (auto simp: headObject_def attempt_def ret_def throw_def
      dest: head_frame head_missing head_found split: prod.splits sum.splits if_splits)

lemma headSize_cases:
  assumes "headSize api f k w = (r, w')"
  shows "objs w' = objs w"
    and "r = Inr None \<Longrightarrow> objs w (bucket f) k = None"
    and "r = Inr (Some n) \<Longrightarrow> \<exists>v. objs w (bucket f) k = Some v \<and> n = int (length v)"
proof -
  obtain r0 w0 where h: "headObject api f k w = (r0, w0)" by fastforce
  note hc = headObject_cases [OF h]
  show "objs w' = objs w" "r = Inr None \<Longrightarrow> objs w (bucket f) k = None"
    using assms h hc
    by (auto simp: headSize_def andThen_def attempt_def ret_def throw_def
        split: sum.splits option.splits)
  show "\<exists>v. objs w (bucket f) k = Some v \<and> n = int (length v)" if "r = Inr (Some n)"
    using assms h hc(3) that
    by (auto simp: headSize_def andThen_def attempt_def ret_def throw_def sizeOf_def
        split: sum.splits option.splits)
qed

lemma prefixHasObjects_cases:
  assumes "prefixHasObjects api f pre w = (r, w')"
  shows "objs w' = objs w" and "r = Inr b \<Longrightarrow> b = below (objs w (bucket f)) pre"
  using assms
  by (auto simp: prefixHasObjects_def andThen_def attempt_def ret_def throw_def
      dest: list_frame probe_iff(1) split: prod.splits sum.splits)

text \<open>
  The result of a lookup by what is stored: the entry for a file or a directory, none
  when nothing is there.
\<close>

lemma Stat_frame: "Stat api f p w = (r, w') \<Longrightarrow> objs w' = objs w"
  by (auto simp: Stat_def Let_def attempt_def ret_def throw_def
      dest!: head_frame list_frame split: if_splits prod.splits sum.splits)

end

definition node_info :: "string \<Rightarrow> gotime \<Rightarrow> node \<Rightarrow> FileInfo option" where
  "node_info name t n =
     (case n of
        NFile v \<Rightarrow> Some (NewFileInfo name (int (length v)) t)
      | NDir \<Rightarrow> Some (NewDirInfo name)
      | NNone \<Rightarrow> None)"

definition at_root :: "FS \<Rightarrow> string \<Rightarrow> bool" where
  "at_root f clean \<longleftrightarrow> clean = [slash] \<or> FS_key f clean = []"

context s3_service
begin

lemma Stat_root: "at_root f (CleanFTPPath p) \<Longrightarrow> Stat api f p w = (Inr (NewDirInfo [slash]), w)"
  by (auto simp: Stat_def at_root_def Let_def ret_def)

lemma Stat_sound:
  assumes st: "Stat api f p w = (r, w')" and nr: "\<not> at_root f (CleanFTPPath p)"
  defines "c \<equiv> CleanFTPPath p"
  defines "nd \<equiv> node_key (objs w (bucket f)) (FS_key f c) (FS_keyDir f c)"
  shows "r = Inr info \<Longrightarrow> node_info (path_Base c) (mtime w (bucket f) (FS_key f c)) nd = Some info"
    and "r = Inl e \<Longrightarrow> IsNotExist e \<Longrightarrow> nd = NNone"
proof -
  let ?b = "bucket f" and ?k = "FS_key f c" and ?d = "FS_keyDir f c"
  let ?L = "list_request ?b ?d None (Some 1) None"
  obtain r1 w1 where h: "HeadObject api ?b ?k w = (r1, w1)" by fastforce
  obtain r2 w2 where l: "ListObjectsV2 api ?L w1 = (r2, w2)" by fastforce
  have o1: "objs w1 = objs w" using h by (rule head_frame)
  have r: "r = (case r1 of
      Inr head \<Rightarrow> Inr (NewFileInfo (path_Base c) (ToInt64 (ContentLength head)) (ToTime (head_LastModified head)))
    | Inl err \<Rightarrow> if \<not> isNotFound (Some err) then Inl (Wrapped ''stat %s: %w'' [c] err)
        else (case r2 of Inl le \<Rightarrow> Inl (Wrapped ''stat %s: %w'' [c] le)
          | Inr lst \<Rightarrow> if Contents lst \<noteq> [] \<or> CommonPrefixes lst \<noteq> []
              then Inr (NewDirInfo (path_Base c)) else Inl (notExist ''stat'' c)))"
    using st nr h l
    by (auto simp: Stat_def at_root_def c_def [symmetric] Let_def attempt_def ret_def throw_def
        split: sum.splits if_splits)
  have none: "objs w ?b ?k = None" if "r1 = Inl e1" "isNotFound (Some e1)" for e1
    using head_missing h that by blast
  have probe: "Contents lst \<noteq> [] \<or> CommonPrefixes lst \<noteq> [] \<longleftrightarrow> below (objs w ?b) ?d" if "r2 = Inr lst" for lst
    using probe_iff [of ?b ?d 1 w1 lst w2] l that o1 by simp
  show "node_info (path_Base c) (mtime w ?b ?k) nd = Some info" if "r = Inr info"
  proof (cases r1)
    case (Inr head)
    then show ?thesis
      using r that head_found [of ?b ?k w head w1] h by (auto simp: nd_def node_key_def node_info_def)
  next
    case (Inl e1)
    with r that have nf: "isNotFound (Some e1)" by (auto split: if_splits)
    with Inl r that obtain lst where lst: "r2 = Inr lst" by (auto split: sum.splits)
    from r Inl nf lst that have "Contents lst \<noteq> [] \<or> CommonPrefixes lst \<noteq> []" "info = NewDirInfo (path_Base c)"
      by (auto split: if_splits)
    with probe [OF lst] none [OF Inl nf] show ?thesis by (simp add: nd_def node_key_def node_info_def)
  qed
  show "nd = NNone" if "r = Inl e" "IsNotExist e"
  proof (cases r1)
    case (Inr head)
    with r that show ?thesis by simp
  next
    case (Inl e1)
    with r that have nf: "isNotFound (Some e1)" by (auto split: if_splits)
    with Inl r that obtain lst where lst: "r2 = Inr lst" by (auto split: sum.splits if_splits)
    from r Inl nf lst that have "\<not> (Contents lst \<noteq> [] \<or> CommonPrefixes lst \<noteq> [])"
      by (auto split: if_splits)
    with probe [OF lst] none [OF Inl nf] show ?thesis by (simp add: nd_def node_key_def)
  qed
qed

lemma Stat_isdir:
  assumes "Stat api f p w = (Inr info, w')" "\<not> at_root f (CleanFTPPath p)"
  shows "IsDir info \<longleftrightarrow> objs w (bucket f) (FS_key f (CleanFTPPath p)) = None"
    and "IsDir info \<Longrightarrow> below (objs w (bucket f)) (FS_keyDir f (CleanFTPPath p))"
  using Stat_sound(1) [OF assms refl]
  by (auto simp: node_info_def node_key_def split: option.splits if_splits)

end

context s3_available
begin

lemma Stat_up:
  assumes "up w" and st: "Stat api f p w = (r, w')" and nr: "\<not> at_root f (CleanFTPPath p)"
  defines "c \<equiv> CleanFTPPath p"
  defines "nd \<equiv> node_key (objs w (bucket f)) (FS_key f c) (FS_keyDir f c)"
  shows "up w'"
    and "r = (case node_info (path_Base c) (mtime w (bucket f) (FS_key f c)) nd of
           Some info \<Rightarrow> Inr info | None \<Rightarrow> Inl (notExist ''stat'' c))"
proof -
  let ?b = "bucket f" and ?k = "FS_key f c" and ?d = "FS_keyDir f c"
  obtain r1 w1 where h: "HeadObject api ?b ?k w = (r1, w1)" by fastforce
  obtain r2 w2 where l: "ListObjectsV2 api (list_request ?b ?d None (Some 1) None) w1 = (r2, w2)"
    by fastforce
  note hu = head_up [OF assms(1) h]
  have lu: "up w2 \<and> \<not> isl r2" using list_up hu l by blast
  have ok: "up w' \<and> (\<exists>x. r = Inr x) \<or> up w' \<and> r = Inl (notExist ''stat'' c)"
    using st nr h l hu lu
    by (auto simp: Stat_def at_root_def c_def [symmetric] Let_def attempt_def ret_def throw_def
        split: sum.splits if_splits)
  then show "up w'" by blast
  show "r = (case node_info (path_Base c) (mtime w ?b ?k) nd of
           Some info \<Rightarrow> Inr info | None \<Rightarrow> Inl (notExist ''stat'' c))"
    using ok Stat_sound [OF st nr] by (auto simp: nd_def c_def node_info_def)
qed

lemma headSize_up:
  assumes "up w" "headSize api f k w = (r, w')"
  shows "up w'" and "r = Inr (map_option (int \<circ> length) (objs w (bucket f) k))"
proof -
  obtain r1 w1 where h: "HeadObject api (bucket f) k w = (r1, w1)" by fastforce
  note hu = head_up [OF assms(1) h]
  have ok: "up w' \<and> (\<exists>x. r = Inr x)"
    using assms(2) h hu
    by (auto simp: headSize_def headObject_def andThen_def attempt_def ret_def throw_def
        split: sum.splits if_splits option.splits)
  then show "up w'" by blast
  from ok obtain x where x: "r = Inr x" by blast
  with headSize_cases(2,3) [OF assms(2)] show "r = Inr (map_option (int \<circ> length) (objs w (bucket f) k))"
    by (cases x) auto
qed

lemma prefixHasObjects_up:
  assumes "up w" "prefixHasObjects api f pre w = (r, w')"
  shows "up w'" and "r = Inr (below (objs w (bucket f)) pre)"
proof -
  obtain r1 w1 where l: "ListObjectsV2 api (list_request (bucket f) pre None (Some 1) None) w = (r1, w1)"
    by fastforce
  have "up w1 \<and> \<not> isl r1" using list_up assms(1) l by blast
  with l assms(2) have ok: "up w' \<and> (\<exists>x. r = Inr x)"
    by (auto simp: prefixHasObjects_def andThen_def attempt_def ret_def split: sum.splits)
  then show "up w'" by blast
  from ok prefixHasObjects_cases(2) [OF assms(2)] show "r = Inr (below (objs w (bucket f)) pre)"
    by auto
qed

end

section \<open>Changes that stay inside the root prefix\<close>

definition confined :: "('w \<Rightarrow> objects) \<Rightarrow> string \<Rightarrow> string \<Rightarrow> 'w \<Rightarrow> 'w \<Rightarrow> bool" where
  "confined obj b pre w w' \<longleftrightarrow> (\<forall>b' k. \<not> (b' = b \<and> prefix pre k) \<longrightarrow> obj w' b' k = obj w b' k)"

definition quiet :: "('w \<Rightarrow> objects) \<Rightarrow> 'w \<Rightarrow> 'w \<Rightarrow> bool" where
  "quiet obj w w' \<longleftrightarrow> obj w' = obj w"

lemma quiet_confined: "quiet obj w w' \<Longrightarrow> confined obj b pre w w'"
  by (simp add: quiet_def confined_def)

interpretation confined: state_contract "confined obj b pre" for obj :: "'w \<Rightarrow> objects" and b pre
  by unfold_locales (auto simp: confined_def)

interpretation quiet: state_contract "quiet obj" for obj :: "'w \<Rightarrow> objects"
  by unfold_locales (auto simp: quiet_def)

end
