(* ===== verification/Dir.thy ===== *)
theory Dir
  imports Fs
begin

text \<open>
  \<^verbatim>\<open>src/internal/s3fs/dir.go\<close>: listing a directory, creating and removing directories,
  removing files and trees, and renaming by copy and delete. The two paging loops are
  partial functions: \<^term>\<open>None\<close> stands for a loop that does not end, and the theorems
  show that against the service's contract they always end.
\<close>

section \<open>Listing\<close>

text \<open>The closure \<^verbatim>\<open>add\<close>: \<open>infos\<close> and \<open>seen\<close> are the variables it captures.\<close>

definition add_info :: "FileInfo \<Rightarrow> FileInfo list \<times> string set \<Rightarrow> FileInfo list \<times> string set" where
  "add_info info acc =
     (if FileInfo_Name info \<in> snd acc then acc
      else (fst acc @ [info], insert (FileInfo_Name info) (snd acc)))"

definition add_prefix :: "string \<Rightarrow> string option \<Rightarrow> FileInfo list \<times> string set \<Rightarrow> FileInfo list \<times> string set" where
  "add_prefix pre cp acc =
     (let entry = relativeName pre (ToString cp)
      in if entry = [] then acc else add_info (NewDirInfo entry) acc)"

definition add_object :: "string \<Rightarrow> object_summary \<Rightarrow> FileInfo list \<times> string set \<Rightarrow> FileInfo list \<times> string set" where
  "add_object pre obj acc =
     (let k = ToString (Key obj)
      in if k = pre \<or> suffix [slash] k then acc
         else (let entry = relativeName pre k
               in if entry = [] \<or> slash \<in> set entry then acc
                  else add_info (NewFileInfo entry (ToInt64 (Size obj)) (ToTime (LastModified obj))) acc))"

definition add_page :: "string \<Rightarrow> list_output \<Rightarrow> FileInfo list \<times> string set \<Rightarrow> FileInfo list \<times> string set" where
  "add_page pre out acc =
     fold (add_object pre) (Contents out) (fold (add_prefix pre) (CommonPrefixes out) acc)"

partial_function (option) readdir_loop ::
  "('w, 'b) s3api \<Rightarrow> string \<Rightarrow> string \<Rightarrow> string option \<Rightarrow> FileInfo list \<times> string set \<Rightarrow>
     'w \<Rightarrow> ((error + FileInfo list) \<times> 'w) option" where
  "readdir_loop api b pre token acc w =
     (case ListObjectsV2 api (list_request b pre (Some [slash]) None token) w of
        (Inl err, w') \<Rightarrow> Some (Inl err, w')
      | (Inr out, w') \<Rightarrow>
          (if \<not> ToBool (IsTruncated out) then Some (Inr (fst (add_page pre out acc)), w')
           else readdir_loop api b pre (NextContinuationToken out) (add_page pre out acc) w'))"

declare readdir_loop.simps [code]

text \<open>
  \<^verbatim>\<open>sort.Slice\<close> with directories first, then by name. The names are distinct, so the
  order is total on the entries and the sorted result is unique.
\<close>

definition info_order :: "FileInfo \<Rightarrow> bool \<times> string" where
  "info_order i = (\<not> IsDir i, FileInfo_Name i)"

definition sort_infos :: "FileInfo list \<Rightarrow> FileInfo list" where
  "sort_infos infos = sort_key info_order infos"

definition ReadDir :: "('w, 'b) s3api \<Rightarrow> FS \<Rightarrow> string \<Rightarrow> ('w, FileInfo list) lio" where
  "ReadDir api f name =
     (let clean = CleanFTPPath name
      in landThen (once (Stat api f clean)) (\<lambda>info.
           landThen (readdir_loop api (bucket f) (FS_keyDir f clean) None ([], {})) (\<lambda>infos.
             once (ret (sort_infos infos)))))"

section \<open>Creating directories\<close>

definition Mkdir :: "('w, 'b) s3api \<Rightarrow> FS \<Rightarrow> string \<Rightarrow> ('w, unit) io" where
  "Mkdir api f name =
     (if readOnly f then throw (readOnlyErr ''mkdir'' name)
      else (let clean = CleanFTPPath name
            in if clean = [slash] then ret ()
               else andThen (headSize api f (FS_key f clean)) (\<lambda>found.
                 if found \<noteq> None then throw (errno ''mkdir'' clean EEXIST)
                 else andThen (prefixHasObjects api f (FS_keyDir f clean)) (\<lambda>exists.
                   if exists then throw (errno ''mkdir'' clean EEXIST)
                   else if \<not> dirMarker f then ret ()
                   else PutObject api
                     \<lparr>put_Bucket = bucket f, put_Key = FS_keyDir f clean, put_Body = [],
                      put_ContentLength = Some 0, put_ContentType = None\<rparr>))))"

definition MkdirAll :: "('w, 'b) s3api \<Rightarrow> FS \<Rightarrow> string \<Rightarrow> ('w, unit) io" where
  "MkdirAll api f name =
     (if readOnly f then throw (readOnlyErr ''mkdir'' name)
      else (let clean = CleanFTPPath name
            in if clean = [slash] then ret ()
               else attempt (Stat api f clean) (\<lambda>r.
                 case r of Inr info \<Rightarrow> ret () | Inl err \<Rightarrow> Mkdir api f clean)))"

section \<open>Removing\<close>

definition RemoveDir :: "('w, 'b) s3api \<Rightarrow> FS \<Rightarrow> string \<Rightarrow> ('w, unit) io" where
  "RemoveDir api f name =
     (if readOnly f then throw (readOnlyErr ''rmdir'' name)
      else (let clean = CleanFTPPath name
            in if clean = [slash] then throw (errno ''rmdir'' clean EACCES)
               else andThen (Stat api f clean) (\<lambda>info.
                 if \<not> IsDir info then throw (errno ''rmdir'' clean ENOTDIR)
                 else (let pre = FS_keyDir f clean
                       in andThen (ListObjectsV2 api (list_request (bucket f) pre None (Some 2) None)) (\<lambda>out.
                            if list_ex (\<lambda>obj. ToString (Key obj) \<noteq> pre) (Contents out)
                            then throw (errno ''rmdir'' clean ENOTEMPTY)
                            else DeleteObject api (bucket f) pre)))))"

definition Remove :: "('w, 'b) s3api \<Rightarrow> FS \<Rightarrow> string \<Rightarrow> ('w, unit) io" where
  "Remove api f name =
     (if readOnly f then throw (readOnlyErr ''remove'' name)
      else (let clean = CleanFTPPath name
            in if clean = [slash] then throw (errno ''remove'' clean EACCES)
               else andThen (Stat api f clean) (\<lambda>info.
                 if IsDir info then RemoveDir api f clean
                 else DeleteObject api (bucket f) (FS_key f clean))))"

definition removeKey :: "('w, 'b) s3api \<Rightarrow> FS \<Rightarrow> string \<Rightarrow> ('w, unit) io" where
  "removeKey api f k = DeleteObject api (bucket f) k"

partial_function (option) list_keys_loop ::
  "('w, 'b) s3api \<Rightarrow> string \<Rightarrow> string \<Rightarrow> string option \<Rightarrow> string list \<Rightarrow>
     'w \<Rightarrow> ((error + string list) \<times> 'w) option" where
  "list_keys_loop api b pre token keys w =
     (case ListObjectsV2 api (list_request b pre None None token) w of
        (Inl err, w') \<Rightarrow> Some (Inl err, w')
      | (Inr out, w') \<Rightarrow>
          (if \<not> ToBool (IsTruncated out)
           then Some (Inr (keys @ map (ToString \<circ> Key) (Contents out)), w')
           else list_keys_loop api b pre (NextContinuationToken out)
                  (keys @ map (ToString \<circ> Key) (Contents out)) w'))"

declare list_keys_loop.simps [code]

definition listAllKeys :: "('w, 'b) s3api \<Rightarrow> FS \<Rightarrow> string \<Rightarrow> ('w, string list) lio" where
  "listAllKeys api f pre = list_keys_loop api (bucket f) pre None []"

abbreviation batchSize :: nat where
  "batchSize \<equiv> 1000"

function deleteKeys :: "('w, 'b) s3api \<Rightarrow> FS \<Rightarrow> string list \<Rightarrow> ('w, unit) io" where
  "deleteKeys api f keys =
     (if keys = [] then ret ()
      else andThen (DeleteObjects api (bucket f) (take batchSize keys)) (\<lambda>errs.
             deleteKeys api f (drop batchSize keys)))"
  by pat_completeness auto
termination
  by (relation "measure (\<lambda>(api, f, keys). length keys)") auto

declare deleteKeys.simps [simp del]

definition RemoveAll :: "('w, 'b) s3api \<Rightarrow> FS \<Rightarrow> string \<Rightarrow> ('w, unit) lio" where
  "RemoveAll api f name =
     (if readOnly f then once (throw (readOnlyErr ''remove'' name))
      else (let clean = CleanFTPPath name
            in if clean = [slash] then once (throw (errno ''remove'' clean EACCES))
               else lattempt (once (Stat api f clean)) (\<lambda>stat.
                 case stat of
                   Inl statErr \<Rightarrow>
                     if \<not> IsNotExist statErr then once (throw statErr)
                     else landThen (listAllKeys api f (FS_keyDir f clean)) (\<lambda>keys.
                            once (deleteKeys api f keys))
                 | Inr info \<Rightarrow>
                     if \<not> IsDir info then once (removeKey api f (FS_key f clean))
                     else landThen (listAllKeys api f (FS_keyDir f clean)) (\<lambda>keys.
                            landThen (once (deleteKeys api f keys)) (\<lambda>u.
                              once (removeKey api f (FS_keyDir f clean)))))))"

section \<open>Renaming\<close>

definition copyKey :: "('w, 'b) s3api \<Rightarrow> FS \<Rightarrow> string \<Rightarrow> string \<Rightarrow> ('w, unit) io" where
  "copyKey api f fromKey toKey = CopyObject api (bucket f) toKey (copySource (bucket f) fromKey)"

fun copyKeys :: "('w, 'b) s3api \<Rightarrow> FS \<Rightarrow> string \<Rightarrow> string \<Rightarrow> string list \<Rightarrow> ('w, unit) io" where
  "copyKeys api f oldPrefix newPrefix [] = ret ()"
| "copyKeys api f oldPrefix newPrefix (k # ks) =
     andThen (copyKey api f k (newPrefix @ TrimPrefix k oldPrefix)) (\<lambda>u.
       copyKeys api f oldPrefix newPrefix ks)"

definition Rename :: "('w, 'b) s3api \<Rightarrow> FS \<Rightarrow> string \<Rightarrow> string \<Rightarrow> ('w, unit) lio" where
  "Rename api f oldname newname =
     (if readOnly f then once (throw (readOnlyErr ''rename'' oldname))
      else (let oldClean = CleanFTPPath oldname; newClean = CleanFTPPath newname
            in if oldClean = newClean then once (ret ())
               else if oldClean = [slash] \<or> newClean = [slash]
               then once (throw (errno ''rename'' oldClean EACCES))
               else landThen (once (Stat api f oldClean)) (\<lambda>info.
                 if \<not> IsDir info then
                   once (andThen (prefixHasObjects api f (FS_keyDir f newClean)) (\<lambda>exists.
                     if exists then throw (errno ''rename'' newClean EISDIR)
                     else andThen (copyKey api f (FS_key f oldClean) (FS_key f newClean)) (\<lambda>u.
                       removeKey api f (FS_key f oldClean))))
                 else (let oldPrefix = FS_keyDir f oldClean; newPrefix = FS_keyDir f newClean
                       in if oldPrefix = [] then once (throw (errno ''rename'' oldClean EACCES))
                          else if prefix oldPrefix newPrefix
                          then once (throw (errno ''rename'' newClean EINVAL))
                          else landThen (once (prefixHasObjects api f newPrefix)) (\<lambda>exists.
                            if exists then once (throw (errno ''rename'' newClean ENOTEMPTY))
                            else landThen (listAllKeys api f oldPrefix) (\<lambda>keys.
                              once (andThen (copyKeys api f oldPrefix newPrefix keys) (\<lambda>u.
                                deleteKeys api f keys))))))))"

section \<open>The paging loops\<close>

text \<open>The position in a listing that a request's continuation token stands for.\<close>

definition token_pos :: "(list_entry list \<Rightarrow> string \<Rightarrow> nat) \<Rightarrow> list_entry list \<Rightarrow> string option \<Rightarrow> nat" where
  "token_pos tp es tok = (case tok of None \<Rightarrow> 0 | Some t \<Rightarrow> tp es t)"

lemma drop_take_add: "take n (drop p xs) @ drop (p + n) xs = drop p xs"
  by (metis append_take_drop_id drop_drop add.commute)

context s3_service
begin

text \<open>One step of either loop: the reply is a slice, and a further call starts after it.\<close>

lemma loop_page:
  assumes "ListObjectsV2 api (list_request b pre (map_option (\<lambda>c. [c]) d) None tok) w = (Inr out, w')"
    and "es = listing (objs w b) pre d" and "p = token_pos tokpos es tok"
  obtains n where "page_of tokpos (objs w b) (mtime w b) es p n out"
    and "ToBool (IsTruncated out) \<Longrightarrow>
      p + n < length es \<and> 0 < n \<and> token_pos tokpos es (NextContinuationToken out) = p + n"
    and "\<not> ToBool (IsTruncated out) \<Longrightarrow> length es \<le> p + n"
proof -
  obtain n where pg: "page_of tokpos (objs w b) (mtime w b) es p n out"
    using list_page [OF assms(1), of d es] assms(2,3)
    by (auto simp: max_entries_def token_pos_def)
  show ?thesis
  proof (rule that [OF pg])
    assume "ToBool (IsTruncated out)"
    with pg show "p + n < length es \<and> 0 < n \<and> token_pos tokpos es (NextContinuationToken out) = p + n"
      by (auto simp: page_of_def Let_def token_pos_def)
  next
    assume "\<not> ToBool (IsTruncated out)"
    with pg show "length es \<le> p + n" by (auto simp: page_of_def Let_def)
  qed
qed

lemma list_keys_loop_ok:
  assumes "ks = filter (prefix pre) (sorted_list_of_set (dom (objs w b)))"
    and "p = token_pos tokpos (map EKey ks) tok"
  shows "\<exists>r w'. list_keys_loop api b pre tok acc w = Some (r, w') \<and> objs w' = objs w
    \<and> (\<forall>keys. r = Inr keys \<longrightarrow> keys = acc @ drop p ks)"
  using assms
proof (induction "length ks - p" arbitrary: tok acc w p rule: less_induct)
  case less
  obtain r1 w1 where l: "ListObjectsV2 api (list_request b pre None None tok) w = (r1, w1)" by fastforce
  have o1: "objs w1 = objs w" using list_frame [OF l] by simp
  show ?case
  proof (cases r1)
    case (Inl e)
    with l o1 show ?thesis by (subst list_keys_loop.simps) simp
  next
    case (Inr out)
    have es: "map EKey ks = listing (objs w b) pre None" using less.prems by (simp add: listing_plain)
    from loop_page [of b pre None tok w out w1, OF _ es less.prems(2)] l Inr
    obtain n where pg: "page_of tokpos (objs w b) (mtime w b) (map EKey ks) p n out"
      and more: "ToBool (IsTruncated out) \<Longrightarrow> p + n < length (map EKey ks) \<and> 0 < n
        \<and> token_pos tokpos (map EKey ks) (NextContinuationToken out) = p + n"
      and stop: "\<not> ToBool (IsTruncated out) \<Longrightarrow> length (map EKey ks) \<le> p + n"
      by auto
    have page: "map (ToString \<circ> Key) (Contents out) = take n (drop p ks)"
      using pg by (simp add: page_of_def Let_def drop_map take_map o_def summary_of_def)
    show ?thesis
    proof (cases "ToBool (IsTruncated out)")
      case False
      then have "take n (drop p ks) = drop p ks" using stop by simp
      with False l Inr o1 page show ?thesis by (subst list_keys_loop.simps) simp
    next
      case True
      note m = more [OF True]
      have "length ks - (p + n) < length ks - p" using m by auto
      from less.hyps [OF this _ m [THEN conjunct2, THEN conjunct2, symmetric],
          of w1 "acc @ take n (drop p ks)"]
      obtain r w' where "list_keys_loop api b pre (NextContinuationToken out) (acc @ take n (drop p ks)) w1 = Some (r, w')"
          "objs w' = objs w1" "\<forall>keys. r = Inr keys \<longrightarrow> keys = (acc @ take n (drop p ks)) @ drop (p + n) ks"
        using less.prems(1) o1 by auto
      with True l Inr o1 page show ?thesis
        by (subst list_keys_loop.simps) (simp add: drop_take_add)
    qed
  qed
qed

lemma listAllKeys_ok:
  "\<exists>r w'. listAllKeys api f pre w = Some (r, w') \<and> objs w' = objs w
     \<and> (\<forall>keys. r = Inr keys \<longrightarrow> keys = filter (prefix pre) (sorted_list_of_set (dom (objs w (bucket f)))))"
  using list_keys_loop_ok [OF refl refl, where pre = pre and w = w and b = "bucket f"
      and tok = None and acc = "[]"]
  by (simp add: listAllKeys_def token_pos_def)

lemma listAllKeys_cases:
  assumes "listAllKeys api f pre w = Some (r, w')"
  shows "objs w' = objs w"
    and "r = Inr keys \<Longrightarrow> set keys = {k \<in> dom (objs w (bucket f)). prefix pre k} \<and> distinct keys"
proof -
  from listAllKeys_ok [of f pre w] assms
  have o: "objs w' = objs w"
    and k: "\<forall>keys. r = Inr keys \<longrightarrow> keys = filter (prefix pre) (sorted_list_of_set (dom (objs w (bucket f))))"
    by auto
  show "objs w' = objs w" by (rule o)
  show "set keys = {k \<in> dom (objs w (bucket f)). prefix pre k} \<and> distinct keys" if "r = Inr keys"
    using k that finite_bucket by auto
qed

end

section \<open>What a listing shows\<close>

text \<open>A name directly below a prefix: a file, or a directory with something in it.\<close>

definition child_file :: "(string \<rightharpoonup> bytes) \<Rightarrow> string \<Rightarrow> string \<Rightarrow> bool" where
  "child_file m pre n \<longleftrightarrow> n \<noteq> [] \<and> slash \<notin> set n \<and> m (pre @ n) \<noteq> None"

definition child_dir :: "(string \<rightharpoonup> bytes) \<Rightarrow> string \<Rightarrow> string \<Rightarrow> bool" where
  "child_dir m pre n \<longleftrightarrow> n \<noteq> [] \<and> slash \<notin> set n \<and> below m (pre @ n @ [slash])"

definition child_info :: "(string \<rightharpoonup> bytes) \<Rightarrow> (string \<Rightarrow> gotime) \<Rightarrow> string \<Rightarrow> FileInfo \<Rightarrow> bool" where
  "child_info m mt pre i \<longleftrightarrow>
     (let n = FileInfo_Name i
      in child_dir m pre n \<and> i = NewDirInfo n
       \<or> child_file m pre n \<and> i = NewFileInfo n (int (length (the (m (pre @ n))))) (mt (pre @ n)))"

fun entry_string :: "list_entry \<Rightarrow> string" where
  "entry_string (EKey k) = k"
| "entry_string (EPrefix p) = p"

definition good_entry :: "(string \<rightharpoonup> bytes) \<Rightarrow> string \<Rightarrow> list_entry \<Rightarrow> bool" where
  "good_entry m pre e \<longleftrightarrow>
     (\<exists>n. slash \<notin> set n \<and>
        (e = EPrefix (pre @ n @ [slash]) \<and> below m (pre @ n @ [slash])
         \<or> e = EKey (pre @ n) \<and> m (pre @ n) \<noteq> None))"

lemma good_entryE:
  assumes "good_entry m pre e"
  obtains (dir) n where "slash \<notin> set n" "e = EPrefix (pre @ n @ [slash])" "below m (pre @ n @ [slash])"
  | (obj) n where "slash \<notin> set n" "e = EKey (pre @ n)" "m (pre @ n) \<noteq> None"
  using assms by (auto simp: good_entry_def)

lemma roll_up_good:
  assumes "m k \<noteq> None" "prefix pre k"
  shows "good_entry m pre (roll_up pre (Some slash) k)"
proof -
  let ?rest = "drop (length pre) k"
  let ?n = "takeWhile (\<lambda>x. x \<noteq> slash) ?rest"
  have k: "k = pre @ ?rest" using assms(2) by (rule suffix_drop_prefix)
  have n: "slash \<notin> set ?n" by (auto dest: set_takeWhileD)
  show ?thesis
  proof (cases "slash \<in> set ?rest")
    case True
    then obtain r2 where "?rest = ?n @ slash # r2" using takeWhile_split by fast
    then have "k = (pre @ ?n @ [slash]) @ r2" using k by simp
    then have "prefix (pre @ ?n @ [slash]) k" by (rule prefixI)
    then have "below m (pre @ ?n @ [slash])" using assms(1) by (auto simp: below_def)
    with True n show ?thesis by (auto simp: roll_up_def good_entry_def Let_def)
  next
    case False
    then show ?thesis using k assms(1)
      by (simp add: roll_up_def good_entry_def Let_def) (metis list_entry.inject(1))
  qed
qed

lemma good_roll_up:
  assumes "good_entry m pre e"
  shows "\<exists>k \<in> dom m. prefix pre k \<and> roll_up pre (Some slash) k = e"
  using assms
proof (cases rule: good_entryE)
  case (dir n)
  then obtain k z where "k \<in> dom m" "k = pre @ n @ [slash] @ z"
    by (auto simp: below_def prefix_def)
  with dir show ?thesis
    by (intro bexI [of _ k]) (auto simp: roll_up_def Let_def takeWhile_append)
next
  case (obj n)
  then show ?thesis by (intro bexI [of _ "pre @ n"]) (auto simp: roll_up_def Let_def)
qed

lemma set_listing:
  "finite (dom m) \<Longrightarrow> set (listing m pre (Some slash)) = {e. good_entry m pre e}"
proof -
  assume "finite (dom m)"
  then have "set (listing m pre (Some slash)) = roll_up pre (Some slash) ` {k \<in> dom m. prefix pre k}"
    by (auto simp: listing_def listing_of_def)
  also have "\<dots> = {e. good_entry m pre e}"
    using good_roll_up roll_up_good by (fastforce simp: image_iff)
  finally show ?thesis .
qed

definition acc_ok :: "(string \<rightharpoonup> bytes) \<Rightarrow> (string \<Rightarrow> gotime) \<Rightarrow> string \<Rightarrow> FileInfo list \<times> string set \<Rightarrow> bool" where
  "acc_ok m mt pre acc \<longleftrightarrow>
     snd acc = FileInfo_Name ` set (fst acc) \<and> distinct (map FileInfo_Name (fst acc))
     \<and> (\<forall>i \<in> set (fst acc). child_info m mt pre i)"

lemma add_info_ok:
  assumes "acc_ok m mt pre acc" "child_info m mt pre i"
  shows "acc_ok m mt pre (add_info i acc)" "snd (add_info i acc) = insert (FileInfo_Name i) (snd acc)"
  using assms by (auto simp: acc_ok_def add_info_def)

lemma add_prefix_ok:
  assumes "acc_ok m mt pre acc" "good_entry m pre (EPrefix p)"
  shows "acc_ok m mt pre (add_prefix pre (Some p) acc)
    \<and> snd (add_prefix pre (Some p) acc) = snd acc \<union> ({relativeName pre p} - {[]})"
proof -
  obtain n where n: "slash \<notin> set n" "p = pre @ n @ [slash]" "below m (pre @ n @ [slash])"
    using assms(2) by (auto simp: good_entry_def)
  show ?thesis
  proof (cases "n = []")
    case True
    with n assms(1) show ?thesis
      using relativeName_dir [of pre "[]"] by (simp add: add_prefix_def)
  next
    case False
    with n have "child_info m mt pre (NewDirInfo n)" by (simp add: child_info_def child_dir_def)
    with assms(1) n False show ?thesis by (simp add: add_prefix_def relativeName_dir add_info_ok)
  qed
qed

lemma add_object_ok:
  assumes "acc_ok m mt pre acc" "good_entry m pre (EKey k)"
  shows "acc_ok m mt pre (add_object pre (summary_of m mt k) acc)
    \<and> snd (add_object pre (summary_of m mt k) acc) = snd acc \<union> ({relativeName pre k} - {[]})"
proof -
  obtain n where n: "slash \<notin> set n" "k = pre @ n" "m (pre @ n) \<noteq> None"
    using assms(2) by (auto simp: good_entry_def)
  show ?thesis
  proof (cases "n = []")
    case True
    with n assms(1) show ?thesis by (simp add: add_object_def summary_of_def relativeName_def)
  next
    case False
    with n have "last n \<noteq> slash" by (metis last_in_set)
    with False have s: "\<not> suffix [slash] k" by (simp add: n suffix_singleton)
    from False n have c: "child_info m mt pre (NewFileInfo n (int (length (the (m k)))) (mt k))"
      by (simp add: child_info_def child_file_def)
    from False n have r: "relativeName pre k = n" by (simp add: relativeName_file)
    have "add_object pre (summary_of m mt k) acc
        = add_info (NewFileInfo n (int (length (the (m k)))) (mt k)) acc"
      using s r n False by (simp add: add_object_def summary_of_def Let_def)
    with add_info_ok [OF assms(1) c] r False show ?thesis by simp
  qed
qed

lemma fold_ok:
  assumes "acc_ok m mt pre acc"
    and "\<And>x acc. x \<in> set xs \<Longrightarrow> acc_ok m mt pre acc \<Longrightarrow>
      acc_ok m mt pre (g x acc) \<and> snd (g x acc) = snd acc \<union> (h x - {[]})"
  shows "acc_ok m mt pre (fold g xs acc) \<and> snd (fold g xs acc) = snd acc \<union> (\<Union>(h ` set xs) - {[]})"
  using assms
proof (induction xs arbitrary: acc)
  case (Cons x xs)
  have "acc_ok m mt pre (g x acc)" "snd (g x acc) = snd acc \<union> (h x - {[]})"
    using Cons.prems by simp_all
  with Cons.IH [of "g x acc"] Cons.prems(2) show ?case by (auto simp: Un_assoc)
qed simp

lemma add_page_ok:
  assumes "acc_ok m mt pre acc" "\<forall>e \<in> set pg. good_entry m pre e"
    and "Contents out = map (summary_of m mt) (List.map_filter entry_key pg)"
    and "CommonPrefixes out = map Some (List.map_filter entry_prefix pg)"
  shows "acc_ok m mt pre (add_page pre out acc)
    \<and> snd (add_page pre out acc) = snd acc \<union> (relativeName pre ` entry_string ` set pg - {[]})"
proof -
  let ?ks = "List.map_filter entry_key pg" and ?ps = "List.map_filter entry_prefix pg"
  have gk: "good_entry m pre (EKey k)" if "k \<in> set ?ks" for k
    using that assms(2) by (auto simp: set_map_filter_iff elim!: entry_key.elims)
  have gp: "good_entry m pre (EPrefix p)" if "p \<in> set ?ps" for p
    using that assms(2) by (auto simp: set_map_filter_iff elim!: entry_prefix.elims)
  let ?a1 = "fold (add_prefix pre) (map Some ?ps) acc"
  have 1: "acc_ok m mt pre ?a1 \<and> snd ?a1 = snd acc \<union> (\<Union>((\<lambda>p. {relativeName pre p}) ` set ?ps) - {[]})"
    unfolding fold_map o_def by (rule fold_ok [OF assms(1)]) (simp add: add_prefix_ok gp)
  have 2: "acc_ok m mt pre (fold (add_object pre) (map (summary_of m mt) ?ks) ?a1)
    \<and> snd (fold (add_object pre) (map (summary_of m mt) ?ks) ?a1)
      = snd ?a1 \<union> (\<Union>((\<lambda>k. {relativeName pre k}) ` set ?ks) - {[]})"
    unfolding fold_map [of "add_object pre"] o_def
    by (rule fold_ok) (use 1 in \<open>simp_all add: add_object_ok gk fold_map o_def\<close>)
  have str: "entry_string ` set pg = set ?ps \<union> set ?ks"
  proof (rule set_eqI)
    fix x
    show "x \<in> entry_string ` set pg \<longleftrightarrow> x \<in> set ?ps \<union> set ?ks"
      unfolding Un_iff set_map_filter_iff image_iff
      by (metis entry_key.cases entry_key.simps entry_prefix.simps entry_string.simps option.distinct(1) option.inject)
  qed
  show ?thesis
    unfolding add_page_def assms(3,4) str using 1 2 by auto
qed

end
