(* ===== verification/Mem_S3.thy ===== *)
theory Mem_S3
  imports S3_Api
begin

text \<open>
  An object store held in memory, which shows that the contracts of \<open>S3_Api\<close> can hold
  together and gives the witnesses of the development something to run on. It plays the
  part that the in-process store plays in the repository's end-to-end tests, with paging
  (\<open>cap\<close> bounds the entries of one reply), a schedule of failing calls (\<open>faults\<close>) and
  keys that may not be deleted (\<open>locked\<close>).
\<close>

record mem =
  store :: "((string \<times> string) \<times> bytes \<times> gotime) list"
  clock :: gotime
  faults :: "bool list"
  locked :: "string list"

definition mem_of :: "(string \<times> string \<times> bytes) list \<Rightarrow> mem" where
  "mem_of xs = \<lparr>store = map (\<lambda>(b, k, v). ((b, k), v, 0)) xs, clock = 1, faults = [], locked = []\<rparr>"

definition mem_objs :: "mem \<Rightarrow> objects" where
  "mem_objs w b k = map_option fst (map_of (store w) (b, k))"

definition mem_mtime :: "mem \<Rightarrow> string \<Rightarrow> string \<Rightarrow> gotime" where
  "mem_mtime w b k = (case map_of (store w) (b, k) of None \<Rightarrow> zeroTime | Some (v, t) \<Rightarrow> t)"

definition mem_put :: "string \<Rightarrow> string \<Rightarrow> bytes \<Rightarrow> mem \<Rightarrow> mem" where
  "mem_put b k v w =
     w\<lparr>store := ((b, k), v, clock w) # filter (\<lambda>x. fst x \<noteq> (b, k)) (store w), clock := clock w + 1\<rparr>"

definition mem_del :: "string \<Rightarrow> string list \<Rightarrow> mem \<Rightarrow> mem" where
  "mem_del b ks w = w\<lparr>store := filter (\<lambda>x. \<not> (fst (fst x) = b \<and> snd (fst x) \<in> set ks)) (store w)\<rparr>"

definition mem_keys :: "mem \<Rightarrow> string \<Rightarrow> string list" where
  "mem_keys w b = sort (remdups (map (snd \<circ> fst) (filter (\<lambda>x. fst (fst x) = b) (store w))))"

text \<open>Every call first looks at the schedule of failures.\<close>

definition mem_call :: "(mem, 'a) io \<Rightarrow> (mem, 'a) io" where
  "mem_call m w =
     (case faults w of
        [] \<Rightarrow> m w
      | f # fs \<Rightarrow> if f then (Inl (APIError ''InternalError'' FaultServer), w\<lparr>faults := fs\<rparr>)
                  else m (w\<lparr>faults := fs\<rparr>))"

definition mem_tokpos :: "list_entry list \<Rightarrow> string \<Rightarrow> nat" where
  "mem_tokpos es t = (case dec_acc 0 t of None \<Rightarrow> 0 | Some n \<Rightarrow> nat n)"

definition mem_head :: "string \<Rightarrow> string \<Rightarrow> (mem, head_output) io" where
  "mem_head b k = mem_call (\<lambda>w.
     case map_of (store w) (b, k) of
       None \<Rightarrow> (Inl NotFound, w)
     | Some (v, t) \<Rightarrow>
         (Inr \<lparr>ContentLength = Some (int (length v)), head_LastModified = Some t\<rparr>, w))"

definition mem_page :: "nat \<Rightarrow> list_input \<Rightarrow> mem \<Rightarrow> list_output" where
  "mem_page cap inp w =
     (let b = in_Bucket inp;
          d = (case in_Delimiter inp of Some (c # cs) \<Rightarrow> Some c | _ \<Rightarrow> None);
          es = listing_of (mem_keys w b) (in_Prefix inp) d;
          pos = (case in_ContinuationToken inp of None \<Rightarrow> 0 | Some t \<Rightarrow> mem_tokpos es t);
          n = min cap (max_entries inp);
          pg = take n (drop pos es);
          more = (pos + n < length es)
      in \<lparr>Contents = map (summary_of (mem_objs w b) (mem_mtime w b)) (List.map_filter entry_key pg),
          CommonPrefixes = map Some (List.map_filter entry_prefix pg),
          IsTruncated = Some more,
          NextContinuationToken = (if more then Some (show_nat (pos + n)) else None)\<rparr>)"

definition mem_list :: "nat \<Rightarrow> list_input \<Rightarrow> (mem, list_output) io" where
  "mem_list cap inp = mem_call (\<lambda>w. (Inr (mem_page cap inp w), w))"

definition parse_range :: "string \<Rightarrow> nat option" where
  "parse_range s =
     (if prefix ''bytes='' s \<and> suffix ''-'' s
      then map_option nat (dec_acc 0 (butlast (drop 6 s))) else None)"

definition mem_get :: "get_input \<Rightarrow> (mem, bytes) io" where
  "mem_get inp = mem_call (\<lambda>w.
     case mem_objs w (get_Bucket inp) (get_Key inp) of
       None \<Rightarrow> (Inl NoSuchKey, w)
     | Some v \<Rightarrow>
         (case get_Range inp of
            None \<Rightarrow> (Inr v, w)
          | Some s \<Rightarrow>
              (case parse_range s of
                 None \<Rightarrow> (Inl (APIError ''InvalidArgument'' FaultClient), w)
               | Some n \<Rightarrow> if n < length v then (Inr (drop n v), w)
                           else (Inl (APIError ''InvalidRange'' FaultClient), w))))"

definition mem_store :: "bytes put_input \<Rightarrow> (mem, unit) io" where
  "mem_store inp = mem_call (\<lambda>w. (Inr (), mem_put (put_Bucket inp) (put_Key inp) (put_Body inp) w))"

definition mem_delete :: "string \<Rightarrow> string \<Rightarrow> (mem, unit) io" where
  "mem_delete b k = mem_call (\<lambda>w.
     if k \<in> set (locked w) then (Inl (APIError ''AccessDenied'' FaultClient), w)
     else (Inr (), mem_del b [k] w))"

definition mem_deletes :: "string \<Rightarrow> string list \<Rightarrow> (mem, string list) io" where
  "mem_deletes b ks = mem_call (\<lambda>w.
     (Inr (filter (\<lambda>k. k \<in> set (locked w)) ks), mem_del b (filter (\<lambda>k. k \<notin> set (locked w)) ks) w))"

definition mem_copy :: "string \<Rightarrow> string \<Rightarrow> string \<Rightarrow> (mem, unit) io" where
  "mem_copy b k src = mem_call (\<lambda>w.
     case percent_decode src of
       None \<Rightarrow> (Inl (APIError ''InvalidArgument'' FaultClient), w)
     | Some s \<Rightarrow>
         (let src_b = takeWhile (\<lambda>c. c \<noteq> slash) s; src_k = tl (dropWhile (\<lambda>c. c \<noteq> slash) s)
          in case mem_objs w src_b src_k of
               None \<Rightarrow> (Inl NoSuchKey, w)
             | Some v \<Rightarrow>
                 if (src_b, src_k) = (b, k) then (Inl (APIError ''InvalidRequest'' FaultClient), w)
                 else (Inr (), mem_put b k v w)))"

definition mem_read :: "bytes \<Rightarrow> nat \<Rightarrow> mem \<Rightarrow> (bytes \<times> error option \<times> bytes) \<times> mem" where
  "mem_read bd n w = ((take n bd, if bd = [] then Some EOF else None, drop n bd), w)"

definition mem_upload :: "bytes put_input \<Rightarrow> body_end \<Rightarrow> (mem, unit) io" where
  "mem_upload inp fin =
     (case fin of
        AtEOF \<Rightarrow> mem_store inp
      | ReadFailed e \<Rightarrow> throw e
      | NotDrained \<Rightarrow> throw (APIError ''RequestCanceled'' FaultClient))"

definition mem_api :: "nat \<Rightarrow> (mem, bytes) s3api" where
  "mem_api cap =
     \<lparr>HeadObject = mem_head, ListObjectsV2 = mem_list cap, GetObject = mem_get,
      PutObject = mem_store, DeleteObject = mem_delete, DeleteObjects = mem_deletes,
      CopyObject = mem_copy, ReadBody = mem_read, CloseBody = (\<lambda>bd. ret ()),
      Upload = mem_upload, HeadBucket = (\<lambda>b. mem_call (ret ())),
      CreateBucket = (\<lambda>b. mem_call (ret ()))\<rparr>"

lemmas mem_defs = mem_head_def mem_list_def mem_get_def mem_store_def mem_delete_def
  mem_deletes_def mem_copy_def mem_upload_def

lemma mem_api_sel [simp]:
  "HeadObject (mem_api cap) = mem_head" "ListObjectsV2 (mem_api cap) = mem_list cap"
  "GetObject (mem_api cap) = mem_get" "PutObject (mem_api cap) = mem_store"
  "DeleteObject (mem_api cap) = mem_delete" "DeleteObjects (mem_api cap) = mem_deletes"
  "CopyObject (mem_api cap) = mem_copy" "ReadBody (mem_api cap) = mem_read"
  "CloseBody (mem_api cap) = (\<lambda>bd. ret ())" "Upload (mem_api cap) = mem_upload"
  "HeadBucket (mem_api cap) = (\<lambda>b. mem_call (ret ()))"
  "CreateBucket (mem_api cap) = (\<lambda>b. mem_call (ret ()))"
  by (simp_all add: mem_api_def)

section \<open>The store implements the contracts\<close>

lemma mem_faults_irrelevant [simp]:
  "mem_objs (w\<lparr>faults := fs\<rparr>) = mem_objs w" "mem_mtime (w\<lparr>faults := fs\<rparr>) = mem_mtime w"
  by (simp_all add: mem_objs_def mem_mtime_def fun_eq_iff)

lemma mem_callE:
  assumes "mem_call m w = (r, w')"
  obtains (failed) fs where "r = Inl (APIError ''InternalError'' FaultServer)" "w' = w\<lparr>faults := fs\<rparr>"
      "faults w \<noteq> []"
  | (ran) w0 where "m w0 = (r, w')" "mem_objs w0 = mem_objs w" "mem_mtime w0 = mem_mtime w"
      "store w0 = store w" "locked w0 = locked w" "faults w = [] \<Longrightarrow> w0 = w"
proof (cases "faults w")
  case Nil
  with assms show ?thesis by (intro ran [of w]) (simp_all add: mem_call_def)
next
  case (Cons f fs)
  show ?thesis
  proof (cases f)
    case True
    with assms Cons show ?thesis by (intro failed [of fs]) (auto simp: mem_call_def)
  next
    case False
    with assms Cons show ?thesis by (intro ran [of "w\<lparr>faults := fs\<rparr>"]) (auto simp: mem_call_def)
  qed
qed

lemma map_of_filter_fst:
  "map_of (filter (\<lambda>x. P (fst x)) xs) k = (if P k then map_of xs k else None)"
  by (induction xs) auto

lemma mem_objs_put: "mem_objs (mem_put b k v w) = upd_obj (mem_objs w) b k (Some v)"
  using map_of_filter_fst [of "\<lambda>y. y \<noteq> (b, k)" "store w"]
  by (auto simp: mem_objs_def mem_put_def fun_eq_iff)

lemma mem_objs_del: "mem_objs (mem_del b ks w) = del_objs (mem_objs w) b (set ks)"
  using map_of_filter_fst [of "\<lambda>y. \<not> (fst y = b \<and> snd y \<in> set ks)" "store w"]
  by (auto simp: mem_objs_def mem_del_def fun_eq_iff)

lemma mem_objs_Some_iff: "k \<in> dom (mem_objs w b) \<longleftrightarrow> (b, k) \<in> fst ` set (store w)"
proof -
  have "k \<in> dom (mem_objs w b) \<longleftrightarrow> map_of (store w) (b, k) \<noteq> None"
    by (simp add: mem_objs_def dom_def)
  then show ?thesis by (simp only: map_of_eq_None_iff) simp
qed

lemma dom_mem_objs:
  "dom (mem_objs w b) = set (map (snd \<circ> fst) (filter (\<lambda>x. fst (fst x) = b) (store w)))"
  by (rule set_eqI) (auto simp only: mem_objs_Some_iff set_map set_filter image_iff o_def
      mem_Collect_eq fst_conv snd_conv prod_eq_iff)

lemma mem_keys_sorted: "mem_keys w b = sorted_list_of_set (dom (mem_objs w b))"
  unfolding mem_keys_def dom_mem_objs by (rule sorted_list_of_set_sort_remdups [symmetric])

lemma mem_tokpos_show [simp]: "mem_tokpos es (show_nat n) = n"
  by (simp add: mem_tokpos_def dec_acc_show_nat)

lemma parse_range_from: "0 \<le> n \<Longrightarrow> parse_range (range_from n) = Some (nat n)"
  by (simp add: parse_range_def range_from_def Itoa_def dec_acc_show_nat suffix_def butlast_append)

lemma mem_page_ok:
  assumes "in_Delimiter inp = map_option (\<lambda>c. [c]) d" "0 < max_entries inp"
    and es: "es = listing (mem_objs w (in_Bucket inp)) (in_Prefix inp) d"
    and n: "n = min (Suc cap) (max_entries inp)"
  shows "page_of mem_tokpos (mem_objs w (in_Bucket inp)) (mem_mtime w (in_Bucket inp)) es
    (case in_ContinuationToken inp of None \<Rightarrow> 0 | Some t \<Rightarrow> mem_tokpos es t) n
    (mem_page (Suc cap) inp w)"
proof -
  have d: "(case in_Delimiter inp of Some (c # cs) \<Rightarrow> Some c | _ \<Rightarrow> None) = d"
    using assms(1) by (cases d) auto
  have e: "listing_of (mem_keys w (in_Bucket inp)) (in_Prefix inp) d = es"
    by (simp add: es listing_def mem_keys_sorted)
  show ?thesis
    unfolding page_of_def mem_page_def Let_def d e using assms(2) n by simp
qed

lemma mem_copy_source:
  assumes "slash \<notin> set b0"
  shows "takeWhile (\<lambda>c. c \<noteq> slash) (b0 @ slash # k0) = b0"
    and "tl (dropWhile (\<lambda>c. c \<noteq> slash) (b0 @ slash # k0)) = k0"
  using assms by (simp_all add: takeWhile_append dropWhile_append)

interpretation mem: body_reader mem_read "\<lambda>bd. bd"
  by unfold_locales (auto simp: mem_read_def split: if_splits)

lemma mem_call_frame:
  assumes "mem_call m w = (r, w')" and "\<And>w r w'. m w = (r, w') \<Longrightarrow> w' = w"
  shows "mem_objs w' = mem_objs w" "mem_mtime w' = mem_mtime w"
  using assms by (auto elim!: mem_callE)

lemma mem_head_frame: "mem_head b k w = (r, w') \<Longrightarrow> mem_objs w' = mem_objs w"
  unfolding mem_head_def by (erule mem_call_frame) (auto split: option.splits prod.splits)

lemma mem_head_found:
  "mem_head b k w = (Inr out, w') \<Longrightarrow>
     \<exists>v. mem_objs w b k = Some v \<and> ContentLength out = Some (int (length v))
       \<and> head_LastModified out = Some (mem_mtime w b k)"
  unfolding mem_head_def
  by (erule mem_callE) (auto simp: mem_objs_def mem_mtime_def split: option.splits)

lemma mem_head_missing:
  "mem_head b k w = (Inl e, w') \<Longrightarrow> isNotFound (Some e) \<Longrightarrow> mem_objs w b k = None"
  unfolding mem_head_def
  by (erule mem_callE)
    (auto simp: mem_objs_def isNotFound_def errors_Is_def as_APIError_def List.map_filter_def
      split: option.splits)

lemma mem_list_frame:
  "mem_list cap inp w = (r, w') \<Longrightarrow> mem_objs w' = mem_objs w \<and> mem_mtime w' = mem_mtime w"
  unfolding mem_list_def by (auto dest: mem_call_frame)

lemma mem_list_page:
  assumes "mem_list (Suc cap) inp w = (Inr out, w')" "0 < max_entries inp"
    and "in_Delimiter inp = map_option (\<lambda>c. [c]) d"
    and "es = listing (mem_objs w (in_Bucket inp)) (in_Prefix inp) d"
  shows "page_of mem_tokpos (mem_objs w (in_Bucket inp)) (mem_mtime w (in_Bucket inp)) es
    (case in_ContinuationToken inp of None \<Rightarrow> 0 | Some t \<Rightarrow> mem_tokpos es t)
    (min (Suc cap) (max_entries inp)) out"
  using assms(1) unfolding mem_list_def
proof (cases rule: mem_callE)
  case (ran w0)
  with mem_page_ok [OF assms(3,2), of es w0 _ cap] assms(4) show ?thesis by auto
qed simp

lemma mem_get_frame: "mem_get inp w = (r, w') \<Longrightarrow> mem_objs w' = mem_objs w"
  unfolding mem_get_def by (erule mem_call_frame) (auto split: option.splits if_splits)

lemma mem_get_wrapped: "mem_get inp w = (Inl e, w') \<Longrightarrow> e \<noteq> EOF"
  unfolding mem_get_def by (erule mem_callE) (auto split: option.splits if_splits)

lemma mem_get_whole:
  "mem_get \<lparr>get_Bucket = b, get_Key = k, get_Range = None\<rparr> w = (Inr bd, w') \<Longrightarrow>
     mem_objs w b k = Some bd"
  unfolding mem_get_def by (erule mem_callE) (auto split: option.splits)

lemma mem_get_range:
  "mem_get \<lparr>get_Bucket = b, get_Key = k, get_Range = Some (range_from n)\<rparr> w = (Inr bd, w') \<Longrightarrow>
     0 \<le> n \<Longrightarrow> \<exists>v. mem_objs w b k = Some v \<and> nat n < length v \<and> bd = drop (nat n) v"
  unfolding mem_get_def
  by (erule mem_callE) (auto simp: parse_range_from split: option.splits if_splits)

lemma mem_store_done:
  "mem_store inp w = (Inr (), w') \<Longrightarrow>
     mem_objs w' = upd_obj (mem_objs w) (put_Bucket inp) (put_Key inp) (Some (put_Body inp))"
  unfolding mem_store_def by (erule mem_callE) (auto simp: mem_objs_put)

lemma mem_store_failed: "mem_store inp w = (Inl e, w') \<Longrightarrow> mem_objs w' = mem_objs w"
  unfolding mem_store_def by (erule mem_callE) auto

lemma mem_delete_done: "mem_delete b k w = (Inr (), w') \<Longrightarrow> mem_objs w' = upd_obj (mem_objs w) b k None"
  unfolding mem_delete_def
  by (erule mem_callE) (auto simp: mem_objs_del fun_eq_iff split: if_splits)

lemma mem_delete_failed: "mem_delete b k w = (Inl e, w') \<Longrightarrow> mem_objs w' = mem_objs w"
  unfolding mem_delete_def by (erule mem_callE) (auto split: if_splits)

lemma mem_deletes_done:
  "mem_deletes b ks w = (Inr errs, w') \<Longrightarrow>
     mem_objs w' = del_objs (mem_objs w) b (set ks - set errs)"
  unfolding mem_deletes_def
  by (erule mem_callE) (auto simp: mem_objs_del fun_eq_iff)

lemma mem_deletes_failed: "mem_deletes b ks w = (Inl e, w') \<Longrightarrow> mem_objs w' = mem_objs w"
  unfolding mem_deletes_def by (erule mem_callE) auto

lemma mem_copy_done:
  "mem_copy b k src w = (Inr (), w') \<Longrightarrow> percent_decode src = Some (b0 @ slash # k0) \<Longrightarrow>
     slash \<notin> set b0 \<Longrightarrow>
     mem_objs w b0 k0 \<noteq> None \<and> mem_objs w' = upd_obj (mem_objs w) b k (mem_objs w b0 k0)"
  unfolding mem_copy_def
  by (erule mem_callE) (auto simp: mem_copy_source mem_objs_put Let_def split: option.splits if_splits)

lemma mem_copy_failed: "mem_copy b k src w = (Inl e, w') \<Longrightarrow> mem_objs w' = mem_objs w"
  unfolding mem_copy_def by (erule mem_callE) (auto simp: Let_def split: option.splits if_splits)

lemma mem_upload_done:
  "mem_upload inp fin w = (Inr (), w') \<Longrightarrow> fin = AtEOF
     \<and> mem_objs w' = upd_obj (mem_objs w) (put_Bucket inp) (put_Key inp) (Some (put_Body inp))"
  by (cases fin) (auto simp: mem_upload_def throw_def mem_store_done)

lemma mem_upload_failed: "mem_upload inp fin w = (Inl e, w') \<Longrightarrow> mem_objs w' = mem_objs w"
  by (cases fin) (auto simp: mem_upload_def throw_def mem_store_failed)

lemma mem_bucket_frame: "mem_call (ret ()) w = (r, w') \<Longrightarrow> mem_objs w' = mem_objs w"
  by (erule mem_call_frame) (simp add: ret_def)

lemma mem_finite: "finite (dom (mem_objs w b))"
  by (simp add: dom_mem_objs)

lemma mem_deletes_failed_some:
  "mem_deletes b ks w = (Inl e, w') \<Longrightarrow> \<exists>D \<subseteq> set ks. mem_objs w' = del_objs (mem_objs w) b D"
  by (rule exI [of _ "{}"]) (simp add: mem_deletes_failed fun_eq_iff)

interpretation mem_service: s3_service "mem_api (Suc cap)" "\<lambda>bd. bd" mem_objs mem_mtime mem_tokpos
  for cap
proof (unfold_locales, unfold mem_api_sel, goal_cases)
  case 1 then show ?case by (rule mem.rd_split)
next
  case 2 then show ?case by (rule mem.rd_eof)
next
  case 3 then show ?case by (rule mem.rd_progress)
next
  case 4 then show ?case by (rule mem_finite)
next
  case 5 then show ?case by (rule mem_head_frame)
next
  case 6 then show ?case by (rule mem_head_found)
next
  case 7 then show ?case by (rule mem_head_missing)
next
  case 8 then show ?case by (rule mem_list_frame)
next
  case (9 linp w lout w' d es)
  then show ?case using mem_list_page by (metis min.cobounded2)
next
  case 10 then show ?case by (rule mem_get_frame)
next
  case 11 then show ?case by (rule mem_get_whole)
next
  case 12 then show ?case by (rule mem_get_range)
next
  case 13 then show ?case by (rule mem_store_done)
next
  case 14 then show ?case by (intro disjI1) (rule mem_store_failed)
next
  case 15 then show ?case by (rule mem_delete_done)
next
  case 16 then show ?case by (intro disjI1) (rule mem_delete_failed)
next
  case 17 then show ?case by (rule mem_deletes_done)
next
  case 18 then show ?case by (rule mem_deletes_failed_some)
next
  case 19 then show ?case by (rule mem_copy_done)
next
  case 20 then show ?case by (intro disjI1) (erule mem_copy_failed)
next
  case 21 then show ?case by (simp add: mem_read_def)
next
  case 22 then show ?case by (simp add: ret_def)
next
  case 23 then show ?case by (rule mem_upload_done)
next
  case 24 then show ?case by (intro disjI1) (rule mem_upload_failed)
next
  case 25 then show ?case by (rule mem_bucket_frame)
next
  case 26 then show ?case by (rule mem_bucket_frame)
next
  case 27 then show ?case by (rule mem_get_wrapped)
qed

abbreviation mem_s3 :: "(mem, bytes) s3api" where
  "mem_s3 \<equiv> mem_api 1000"

definition mem_up :: "mem \<Rightarrow> bool" where
  "mem_up w \<longleftrightarrow> faults w = [] \<and> locked w = []"

lemma mem_up_of [simp]: "mem_up (mem_of xs)"
  by (simp add: mem_up_def mem_of_def)

lemma mem_up_upd [simp]:
  "mem_up (mem_put b k v w) = mem_up w" "mem_up (mem_del b ks w) = mem_up w"
  by (simp_all add: mem_up_def mem_put_def mem_del_def)

lemma mem_up_locked: "mem_up w \<Longrightarrow> locked w = []"
  by (simp add: mem_up_def)

lemma mem_call_up: "mem_up w \<Longrightarrow> mem_call m w = m w"
  by (simp add: mem_up_def mem_call_def)

lemma isNotFound_NotFound [simp]: "isNotFound (Some NotFound)"
  by (simp add: isNotFound_def errors_Is_def)

lemma mem_s3_service: "s3_service mem_s3 (\<lambda>bd. bd) mem_objs mem_mtime mem_tokpos"
  using mem_service.s3_service_axioms [of 999] by simp

interpretation mem_avail: s3_available "mem_api (Suc cap)" "\<lambda>bd. bd" mem_objs mem_mtime mem_tokpos mem_up
  for cap
proof (intro s3_available.intro mem_service.s3_service_axioms s3_available_axioms.intro,
    unfold mem_api_sel, goal_cases)
  case 1 then show ?case
    by (auto simp: mem_head_def mem_call_up mem_objs_def split: option.splits)
next
  case 2 then show ?case by (auto simp: mem_list_def mem_call_up)
next
  case 3 then show ?case
    by (auto simp: mem_get_def mem_call_up parse_range_from split: option.splits if_splits)
next
  case 4 then show ?case by (auto simp: mem_store_def mem_call_up)
next
  case 5 then show ?case by (auto simp: mem_delete_def mem_call_up mem_up_locked)
next
  case 6 then show ?case by (auto simp: mem_deletes_def mem_call_up mem_up_locked)
next
  case 7 then show ?case
    by (auto simp: mem_copy_def mem_call_up mem_copy_source Let_def split: option.splits if_splits)
next
  case 8 then show ?case by (auto simp: mem_read_def split: if_splits)
next
  case 9 then show ?case by (auto simp: ret_def)
next
  case 10 then show ?case
    by (auto simp: mem_upload_def mem_store_def mem_call_up throw_def split: body_end.splits)
qed

lemma mem_s3_available: "s3_available mem_s3 (\<lambda>bd. bd) mem_objs mem_mtime mem_tokpos mem_up"
  using mem_avail.s3_available_axioms [of 999] by simp

end
