(* ===== verification/Dir_Spec.thy ===== *)
theory Dir_Spec
  imports Dir Mem_S3
begin

text \<open>
  The contracts of the directory operations of \<open>Dir\<close> against the object store: what a
  listing shows, what each operation stores and removes when calls succeed, and what it
  may have changed when calls fail.
\<close>

section \<open>Listing a directory\<close>

context s3_service
begin

lemma readdir_loop_ok:
  assumes "es = listing (objs w b) pre (Some slash)"
    and "p = token_pos tokpos es tok" and "acc_ok (objs w b) (mtime w b) pre acc"
  shows "\<exists>r w'. readdir_loop api b pre tok acc w = Some (r, w') \<and> objs w' = objs w
    \<and> (\<forall>infos. r = Inr infos \<longrightarrow> acc_ok (objs w b) (mtime w b) pre
          (infos, snd acc \<union> (relativeName pre ` entry_string ` set (drop p es) - {[]})))"
  using assms
proof (induction "length es - p" arbitrary: tok acc w p rule: less_induct)
  case less
  let ?m = "objs w b" and ?mt = "mtime w b"
  obtain r1 w1 where l: "ListObjectsV2 api (list_request b pre (Some [slash]) None tok) w = (r1, w1)" by fastforce
  have o1: "objs w1 = objs w" "mtime w1 = mtime w" using list_frame [OF l] by simp_all
  show ?case
  proof (cases r1)
    case (Inl e)
    with l o1 show ?thesis by (subst readdir_loop.simps) simp
  next
    case (Inr out)
    from loop_page [of b pre "Some slash" tok w out w1, OF _ less.prems(1,2)] l Inr
    obtain n where pg: "page_of tokpos ?m ?mt es p n out"
      and more: "ToBool (IsTruncated out) \<Longrightarrow> p + n < length es \<and> 0 < n
        \<and> token_pos tokpos es (NextContinuationToken out) = p + n"
      and stop: "\<not> ToBool (IsTruncated out) \<Longrightarrow> length es \<le> p + n"
      by auto
    let ?pg = "take n (drop p es)" and ?acc = "add_page pre out acc"
    have "\<forall>e \<in> set ?pg. good_entry ?m pre e"
      using set_listing [OF finite_bucket, of w b pre] less.prems(1)
      by (auto dest!: in_set_takeD in_set_dropD)
    with pg less.prems(3) have ok: "acc_ok ?m ?mt pre ?acc"
      "snd ?acc = snd acc \<union> (relativeName pre ` entry_string ` set ?pg - {[]})"
      by (simp_all add: page_of_def Let_def add_page_ok)
    show ?thesis
    proof (cases "ToBool (IsTruncated out)")
      case False
      then have "?pg = drop p es" using stop by simp
      with False l Inr o1 ok show ?thesis
        by (subst readdir_loop.simps) (simp, metis prod.collapse)
    next
      case True
      note m = more [OF True]
      have "length es - (p + n) < length es - p" using m by auto
      from less.hyps [OF this _ m [THEN conjunct2, THEN conjunct2, symmetric], of w1 ?acc]
      obtain r w' where r: "readdir_loop api b pre (NextContinuationToken out) ?acc w1 = Some (r, w')"
          "objs w' = objs w1" "\<forall>infos. r = Inr infos \<longrightarrow> acc_ok ?m ?mt pre
            (infos, snd ?acc \<union> (relativeName pre ` entry_string ` set (drop (p + n) es) - {[]}))"
        using less.prems(1) o1 ok(1) by auto
      have "set (drop p es) = set ?pg \<union> set (drop (p + n) es)"
        by (metis drop_take_add set_append)
      then have "snd ?acc \<union> (relativeName pre ` entry_string ` set (drop (p + n) es) - {[]})
          = snd acc \<union> (relativeName pre ` entry_string ` set (drop p es) - {[]})"
        using ok(2) by (simp add: image_Un) blast
      with r True l Inr o1 show ?thesis by (subst readdir_loop.simps) simp
    qed
  qed
qed

end

text \<open>The names a listing shows: those of the files and of the directories below a prefix.\<close>

definition child_names :: "(string \<rightharpoonup> bytes) \<Rightarrow> string \<Rightarrow> string set" where
  "child_names m pre = {n. child_file m pre n \<or> child_dir m pre n}"

lemma entry_names:
  assumes "finite (dom m)"
  shows "relativeName pre ` entry_string ` set (listing m pre (Some slash)) - {[]} = child_names m pre"
    (is "?L = ?R")
proof (rule set_eqI)
  fix n
  have "n \<in> ?L \<longleftrightarrow> n \<noteq> [] \<and> (\<exists>e. good_entry m pre e \<and> n = relativeName pre (entry_string e))"
    by (auto simp: set_listing [OF assms])
  also have "\<dots> \<longleftrightarrow> n \<in> ?R"
  proof
    assume "n \<noteq> [] \<and> (\<exists>e. good_entry m pre e \<and> n = relativeName pre (entry_string e))"
    then obtain e where n: "n \<noteq> []" "n = relativeName pre (entry_string e)" and "good_entry m pre e" by blast
    from this(3) show "n \<in> ?R"
    proof (cases rule: good_entryE)
      case (dir n')
      with n show ?thesis by (simp add: relativeName_dir child_names_def child_dir_def)
    next
      case (obj n')
      with n show ?thesis
        using relativeName_file [of n' pre]
        by (cases "n' = []") (simp add: relativeName_def, simp add: child_names_def child_file_def)
    qed
  next
    assume "n \<in> ?R"
    then consider "child_file m pre n" | "child_dir m pre n" by (auto simp: child_names_def)
    then show "n \<noteq> [] \<and> (\<exists>e. good_entry m pre e \<and> n = relativeName pre (entry_string e))"
    proof cases
      case 1
      then have "good_entry m pre (EKey (pre @ n))" "n \<noteq> []" "n = relativeName pre (entry_string (EKey (pre @ n)))"
        by (auto simp: child_file_def good_entry_def relativeName_file)
      then show ?thesis by blast
    next
      case 2
      then have "good_entry m pre (EPrefix (pre @ n @ [slash]))" "n \<noteq> []"
          "n = relativeName pre (entry_string (EPrefix (pre @ n @ [slash])))"
        by (auto simp: child_dir_def good_entry_def relativeName_dir)
      then show ?thesis by blast
    qed
  qed
  finally show "n \<in> ?L \<longleftrightarrow> n \<in> ?R" .
qed

text \<open>What a correct directory listing is.\<close>

definition listing_ok :: "(string \<rightharpoonup> bytes) \<Rightarrow> (string \<Rightarrow> gotime) \<Rightarrow> string \<Rightarrow> FileInfo list \<Rightarrow> bool" where
  "listing_ok m mt pre infos \<longleftrightarrow>
     sorted (map info_order infos) \<and> distinct (map FileInfo_Name infos)
     \<and> FileInfo_Name ` set infos = child_names m pre
     \<and> (\<forall>i \<in> set infos. child_info m mt pre i)"

lemma sort_infos_ok:
  assumes "acc_ok m mt pre (infos, child_names m pre)"
  shows "listing_ok m mt pre (sort_infos infos)"
proof -
  have "distinct (map FileInfo_Name (sort_infos infos)) \<longleftrightarrow> distinct (map FileInfo_Name infos)"
    unfolding sort_infos_def by (metis distinct_map distinct_sort set_sort)
  with assms show ?thesis
    by (simp add: listing_ok_def acc_ok_def sort_infos_def)
qed

context s3_service
begin

lemma ReadDir_returns: "\<exists>r w'. ReadDir api f name w = Some (r, w') \<and> objs w' = objs w"
proof -
  let ?c = "CleanFTPPath name"
  obtain r0 w0 where st: "Stat api f ?c w = (r0, w0)" by fastforce
  have o0: "objs w0 = objs w" using Stat_frame [OF st] .
  show ?thesis
  proof (cases r0)
    case (Inl e)
    with st o0 show ?thesis by (simp add: ReadDir_def Let_def io_simps)
  next
    case (Inr info)
    let ?m = "objs w0 (bucket f)"
    obtain r w' where loop: "readdir_loop api (bucket f) (FS_keyDir f ?c) None ([], {}) w0 = Some (r, w')"
        "objs w' = objs w0"
      using readdir_loop_ok [OF refl refl, of w0 "bucket f" "FS_keyDir f ?c" "([], {})" None]
      by (auto simp: acc_ok_def)
    have "ReadDir api f name w = landThen (readdir_loop api (bucket f) (FS_keyDir f ?c) None ([], {}))
        (\<lambda>infos. once (ret (sort_infos infos))) w0"
      unfolding ReadDir_def Let_def using st Inr by (intro landThen_apply) (simp add: once_def)
    with loop o0 show ?thesis by (cases r) (simp_all add: io_simps)
  qed
qed

lemma ReadDir_listing:
  assumes "ReadDir api f name w = Some (Inr infos, w')"
  shows "\<exists>w0. objs w0 = objs w \<and>
    listing_ok (objs w (bucket f)) (mtime w0 (bucket f)) (FS_keyDir f (CleanFTPPath name)) infos"
proof -
  let ?c = "CleanFTPPath name" and ?b = "bucket f" and ?pre = "FS_keyDir f (CleanFTPPath name)"
  from assms obtain info w0 xs w1 where st: "Stat api f ?c w = (Inr info, w0)"
      and loop: "readdir_loop api ?b ?pre None ([], {}) w0 = Some (Inr xs, w1)" and xs: "infos = sort_infos xs"
    by (auto simp: ReadDir_def Let_def ret_def once_def elim!: landThen_onceE landThenE)
  have o0: "objs w0 = objs w" using Stat_frame [OF st] .
  have "acc_ok (objs w0 ?b) (mtime w0 ?b) ?pre
      (xs, relativeName ?pre ` entry_string ` set (listing (objs w0 ?b) ?pre (Some slash)) - {[]})"
    using readdir_loop_ok [OF refl refl, of w0 ?b ?pre "([], {})" None] loop
    by (auto simp: acc_ok_def token_pos_def)
  then have "listing_ok (objs w0 ?b) (mtime w0 ?b) ?pre infos"
    using entry_names [OF finite_bucket] sort_infos_ok xs by metis
  with o0 show ?thesis by auto
qed

end

section \<open>Effects of the primitive calls\<close>

text \<open>
  A write to one key of a bucket stays inside any prefix of that key. A copy source is
  built by \<open>copySource\<close>, so the service copies from the key it was built for.
\<close>

lemma confined_upd: "prefix pre k \<Longrightarrow> obj w' = upd_obj (obj w) b k v \<Longrightarrow> confined obj b pre w w'"
  by (auto simp: confined_def)

lemma confined_del: "\<forall>k \<in> D. prefix pre k \<Longrightarrow> obj w' = del_objs (obj w) b D \<Longrightarrow> confined obj b pre w w'"
  by (auto simp: confined_def)

lemma confined_same: "obj w' = obj w \<Longrightarrow> confined obj b pre w w'"
  by (simp add: confined_def)

context s3_service
begin

lemma PutObject_confined:
  "put_Bucket inp = b \<Longrightarrow> prefix pre (put_Key inp) \<Longrightarrow> keeps (confined objs b pre) (PutObject api inp)"
proof (rule keepsI)
  fix w r w'
  assume "put_Bucket inp = b" "prefix pre (put_Key inp)" "PutObject api inp w = (r, w')"
  then show "confined objs b pre w w'"
    by (cases r) (auto dest!: put_failed put_done intro: confined_upd confined_same)
qed

lemma DeleteObject_confined: "prefix pre k \<Longrightarrow> keeps (confined objs b pre) (DeleteObject api b k)"
proof (rule keepsI)
  fix w r w'
  assume "prefix pre k" "DeleteObject api b k w = (r, w')"
  then show "confined objs b pre w w'"
    by (cases r) (auto dest!: delete_failed delete_done intro: confined_upd confined_same)
qed

lemma DeleteObjects_effect:
  assumes "DeleteObjects api b ks w = (r, w')"
  shows "\<exists>D \<subseteq> set ks. objs w' = del_objs (objs w) b D"
proof (cases r)
  case (Inl e)
  with assms show ?thesis by (blast dest: deletes_failed)
next
  case (Inr errs)
  with assms show ?thesis using deletes_done by blast
qed

lemma copyKey_effect:
  assumes "copyKey api f k0 k w = (r, w')" "slash \<notin> set (bucket f)"
  shows "r = Inr () \<Longrightarrow> objs w (bucket f) k0 \<noteq> None
      \<and> objs w' = upd_obj (objs w) (bucket f) k (objs w (bucket f) k0)"
    and "objs w' = objs w \<or> objs w (bucket f) k0 \<noteq> None
      \<and> objs w' = upd_obj (objs w) (bucket f) k (objs w (bucket f) k0)"
proof -
  note d = copySource_decodes [of "bucket f" k0] assms(2)
  note c = assms(1) [unfolded copyKey_def]
  have ok: "objs w (bucket f) k0 \<noteq> None
      \<and> objs w' = upd_obj (objs w) (bucket f) k (objs w (bucket f) k0)" if "r = Inr ()"
    by (rule copy_done [OF c [unfolded that] d])
  then show "r = Inr () \<Longrightarrow> objs w (bucket f) k0 \<noteq> None
      \<and> objs w' = upd_obj (objs w) (bucket f) k (objs w (bucket f) k0)" .
  show "objs w' = objs w \<or> objs w (bucket f) k0 \<noteq> None
      \<and> objs w' = upd_obj (objs w) (bucket f) k (objs w (bucket f) k0)"
  proof (cases r)
    case (Inl e)
    show ?thesis by (rule copy_failed [OF c [unfolded Inl] d])
  next
    case (Inr u)
    then have "r = Inr ()" by simp
    from ok [OF this] show ?thesis by (rule disjI2)
  qed
qed

lemma copyKey_confined:
  assumes "prefix pre k"
  shows "keeps (confined objs (bucket f) pre) (copyKey api f k0 k)"
proof (rule keepsI)
  fix w r w' assume c: "copyKey api f k0 k w = (r, w')"
  let ?s = "bucket f @ slash # k0"
  define b0 where "b0 = takeWhile (\<lambda>x. x \<noteq> slash) ?s"
  have "\<exists>k1. ?s = b0 @ slash # k1" unfolding b0_def by (rule takeWhile_split) simp
  then obtain k1 where s: "?s = b0 @ slash # k1" ..
  have d: "percent_decode (copySource (bucket f) k0) = Some (b0 @ slash # k1)"
    by (simp only: copySource_decodes s)
  have ns: "slash \<notin> set b0" unfolding b0_def by (auto dest: set_takeWhileD)
  have "objs w' = objs w \<or> (\<exists>v. objs w' = upd_obj (objs w) (bucket f) k v)"
  proof (cases r)
    case (Inl e)
    from copy_failed [OF c [unfolded copyKey_def Inl] d ns] show ?thesis by blast
  next
    case (Inr u)
    then have "r = Inr ()" by simp
    from copy_done [OF c [unfolded copyKey_def this] d ns] show ?thesis by blast
  qed
  then show "confined objs (bucket f) pre w w'"
    using assms by (auto intro: confined_upd confined_same)
qed

lemma deleteKeys_effect:
  "deleteKeys api f ks w = (r, w') \<Longrightarrow> \<exists>D \<subseteq> set ks. objs w' = del_objs (objs w) (bucket f) D"
proof (induction "length ks" arbitrary: ks w rule: less_induct)
  case less
  show ?case
  proof (cases "ks = []")
    case True
    with less.prems have "objs w' = objs w" by (simp add: deleteKeys.simps io_simps)
    then show ?thesis by (intro exI [of _ "{}"]) (simp add: fun_eq_iff)
  next
    case False
    obtain r1 w1 where d: "DeleteObjects api (bucket f) (take batchSize ks) w = (r1, w1)" by fastforce
    then obtain D1 where D1: "D1 \<subseteq> set ks" "objs w1 = del_objs (objs w) (bucket f) D1"
      using DeleteObjects_effect by (meson set_take_subset subset_trans)
    show ?thesis
    proof (cases r1)
      case (Inl e)
      with d less.prems False have "w' = w1" by (simp add: deleteKeys.simps [of api f ks] io_simps)
      with D1 show ?thesis by blast
    next
      case (Inr errs)
      with d less.prems False have "deleteKeys api f (drop batchSize ks) w1 = (r, w')"
        by (simp add: deleteKeys.simps [of api f ks] io_simps)
      moreover have "length (drop batchSize ks) < length ks" using False by simp
      ultimately obtain D2 where D2: "D2 \<subseteq> set (drop batchSize ks)" "objs w' = del_objs (objs w1) (bucket f) D2"
        using less.hyps by blast
      have "D1 \<union> D2 \<subseteq> set ks" using D1(1) D2(1) set_drop_subset by fastforce
      moreover have "objs w' = del_objs (objs w) (bucket f) (D1 \<union> D2)"
        using D1(2) D2(2) by (auto simp: fun_eq_iff)
      ultimately show ?thesis by blast
    qed
  qed
qed

text \<open>Copying a list of keys to other keys, none of which is itself in the list.\<close>

lemma copyKeys_effect:
  assumes "copyKeys api f old new ks w = (r, w')" "slash \<notin> set (bucket f)"
    and "\<forall>k \<in> set ks. \<forall>k' \<in> set ks. new @ TrimPrefix k old \<noteq> k'"
  defines "b \<equiv> bucket f"
  shows "\<forall>b' k'. b' \<noteq> b \<or> (\<forall>k \<in> set ks. k' \<noteq> new @ TrimPrefix k old) \<longrightarrow> objs w' b' k' = objs w b' k'"
    and "r = Inr () \<Longrightarrow> inj_on (\<lambda>k. TrimPrefix k old) (set ks) \<Longrightarrow> distinct ks \<Longrightarrow>
      \<forall>k \<in> set ks. objs w' b (new @ TrimPrefix k old) = objs w b k"
proof -
  have "(\<forall>b' k'. b' \<noteq> b \<or> (\<forall>k \<in> set ks. k' \<noteq> new @ TrimPrefix k old) \<longrightarrow> objs w' b' k' = objs w b' k')
    \<and> (r = Inr () \<longrightarrow> inj_on (\<lambda>k. TrimPrefix k old) (set ks) \<longrightarrow> distinct ks \<longrightarrow>
      (\<forall>k \<in> set ks. objs w' b (new @ TrimPrefix k old) = objs w b k))"
    using assms(1,3)
  proof (induction ks arbitrary: w)
    case Nil
    then show ?case by (simp add: io_simps)
  next
    case (Cons k ks)
    let ?t = "new @ TrimPrefix k old"
    obtain r1 w1 where c: "copyKey api f k ?t w = (r1, w1)" by fastforce
    note e = copyKey_effect [OF c assms(2)]
    have keep1: "b' \<noteq> b \<or> k' \<noteq> ?t \<Longrightarrow> objs w1 b' k' = objs w b' k'" for b' k'
      using e(2) by (auto simp: b_def)
    show ?case
    proof (cases r1)
      case (Inl x)
      with c Cons.prems have "w' = w1" "r = Inl x" by (simp_all add: io_simps)
      with keep1 show ?thesis by auto
    next
      case (Inr u)
      with c Cons.prems have rest: "copyKeys api f old new ks w1 = (r, w')" by (simp add: io_simps)
      note IH = Cons.IH [OF rest]
      have sub: "\<forall>k \<in> set ks. \<forall>k' \<in> set ks. new @ TrimPrefix k old \<noteq> k'" using Cons.prems(2) by auto
      have fr: "objs w' b' k' = objs w1 b' k'" if "b' \<noteq> b \<or> (\<forall>k \<in> set ks. k' \<noteq> new @ TrimPrefix k old)" for b' k'
        using IH [OF sub] that by blast
      have "objs w' b (new @ TrimPrefix j old) = objs w b j"
        if "r = Inr ()" "inj_on (\<lambda>k. TrimPrefix k old) (set (k # ks))" "distinct (k # ks)" "j \<in> set (k # ks)" for j
      proof (cases "j = k")
        case True
        have "objs w' b ?t = objs w1 b ?t"
          using that by (intro fr) (auto simp: inj_on_def)
        also have "\<dots> = objs w b k" using e(1) Inr by (simp add: b_def)
        finally show ?thesis by (simp add: True)
      next
        case False
        with that have j: "j \<in> set ks" by simp
        have "objs w' b (new @ TrimPrefix j old) = objs w1 b j"
          using IH [OF sub] that j by (auto simp: inj_on_def)
        also have "\<dots> = objs w b j" using Cons.prems(2) j by (intro keep1) auto
        finally show ?thesis .
      qed
      moreover have "objs w' b' k' = objs w b' k'"
        if "b' \<noteq> b \<or> (\<forall>j \<in> set (k # ks). k' \<noteq> new @ TrimPrefix j old)" for b' k'
        using fr [of b' k'] keep1 [of b' k'] that by simp
      ultimately show ?thesis by blast
    qed
  qed
  then show "\<forall>b' k'. b' \<noteq> b \<or> (\<forall>k \<in> set ks. k' \<noteq> new @ TrimPrefix k old) \<longrightarrow> objs w' b' k' = objs w b' k'"
    and "r = Inr () \<Longrightarrow> inj_on (\<lambda>k. TrimPrefix k old) (set ks) \<Longrightarrow> distinct ks \<Longrightarrow>
      \<forall>k \<in> set ks. objs w' b (new @ TrimPrefix k old) = objs w b k"
    by blast+
qed

lemma copyKeys_confined:
  "prefix pre new \<Longrightarrow> keeps (confined objs (bucket f) pre) (copyKeys api f old new ks)"
proof (induction ks)
  case Nil
  show ?case by (simp add: confined.keeps_ret)
next
  case (Cons k ks)
  have "keeps (confined objs (bucket f) pre) (copyKey api f k (new @ TrimPrefix k old))"
    using Cons.prems by (intro copyKey_confined) (simp add: prefix_order.trans)
  then show ?case using Cons by (simp add: confined.keeps_andThen)
qed

end

end
