(* ===== verification/Fs_Session.thy ===== *)
theory Fs_Session
  imports Dir_Spec
begin

text \<open>
  Sequences of filesystem operations on one view, in the order a session issues them,
  with the contracts that hold for every operation of \<open>Dir\<close>: it returns, it changes
  nothing outside the bucket and root prefix of the view, and on a read-only view it
  changes nothing at all.
\<close>

section \<open>Every operation stays inside the root prefix\<close>

lemma FS_key_prefix: "prefix (rootPrefix f) (FS_key f p)"
  by (simp add: FS_key_def joinRoot_prefix)

lemma FS_keyDir_prefix: "prefix (rootPrefix f) (FS_keyDir f p)"
  by (simp add: FS_keyDir_def dirKey_prefix)

context s3_service
begin

lemma quiet_confinedI: "keeps (quiet objs) m \<Longrightarrow> keeps (confined objs b pre) m"
  by (metis keepsD keepsI quiet_confined)

lemma Stat_quiet: "keeps (quiet objs) (Stat api f p)"
  by (rule keepsI) (simp add: quiet_def Stat_frame)

lemma headSize_quiet: "keeps (quiet objs) (headSize api f k)"
  by (rule keepsI) (simp add: quiet_def headSize_cases(1))

lemma prefixHasObjects_quiet: "keeps (quiet objs) (prefixHasObjects api f pre)"
  by (rule keepsI) (simp add: quiet_def prefixHasObjects_cases(1))

lemma ListObjectsV2_quiet: "keeps (quiet objs) (ListObjectsV2 api inp)"
  by (rule keepsI) (auto simp: quiet_def dest: list_frame)

lemmas call_confined =
  Stat_quiet [THEN quiet_confinedI] headSize_quiet [THEN quiet_confinedI]
  prefixHasObjects_quiet [THEN quiet_confinedI] ListObjectsV2_quiet [THEN quiet_confinedI]
  PutObject_confined DeleteObject_confined copyKey_confined
  confined.keeps_ret confined.keeps_throw confined.keeps_andThen confined.keeps_attempt

lemma Mkdir_confined: "keeps (confined objs (bucket f) (rootPrefix f)) (Mkdir api f p)"
  by (auto simp: Mkdir_def Let_def FS_keyDir_prefix intro!: call_confined)

lemma MkdirAll_confined: "keeps (confined objs (bucket f) (rootPrefix f)) (MkdirAll api f p)"
  by (auto simp: MkdirAll_def Let_def Mkdir_confined intro!: call_confined split: sum.splits)

lemma RemoveDir_confined: "keeps (confined objs (bucket f) (rootPrefix f)) (RemoveDir api f p)"
  by (auto simp: RemoveDir_def Let_def FS_keyDir_prefix intro!: call_confined)

lemma Remove_confined: "keeps (confined objs (bucket f) (rootPrefix f)) (Remove api f p)"
  by (auto simp: Remove_def Let_def FS_key_prefix RemoveDir_confined intro!: call_confined)

lemma removeKey_confined: "prefix pre k \<Longrightarrow> keeps (confined objs (bucket f) pre) (removeKey api f k)"
  by (simp add: removeKey_def DeleteObject_confined)

lemma deleteKeys_confined:
  assumes "\<forall>k \<in> set keys. prefix pre k"
  shows "keeps (confined objs (bucket f) pre) (deleteKeys api f keys)"
proof (rule keepsI)
  fix w r w' assume "deleteKeys api f keys w = (r, w')"
  from deleteKeys_effect [OF this] obtain D where
    D: "D \<subseteq> set keys" "objs w' = del_objs (objs w) (bucket f) D" by blast
  from D(1) assms have "\<forall>k \<in> D. prefix pre k" by blast
  then show "confined objs (bucket f) pre w w'" using D(2) by (rule confined_del)
qed

lemma listAllKeys_confined: "lkeeps (confined objs b pre) (listAllKeys api f d)"
  by (rule lkeepsI) (blast intro: confined_same listAllKeys_cases(1))

lemma listAllKeys_root:
  assumes "listAllKeys api f (FS_keyDir f c) w = Some (Inr keys, w')" "k \<in> set keys"
  shows "prefix (rootPrefix f) k"
proof -
  have "prefix (FS_keyDir f c) k" using listAllKeys_cases(2) [OF assms(1) refl] assms(2) by auto
  then show ?thesis by (rule prefix_order.trans [OF FS_keyDir_prefix])
qed

lemmas call_lconfined =
  listAllKeys_confined confined.lkeeps_lattempt confined.lkeeps_landThen lkeeps_once
  call_confined copyKeys_confined removeKey_confined deleteKeys_confined

lemma RemoveAll_confined: "lkeeps (confined objs (bucket f) (rootPrefix f)) (RemoveAll api f p)"
  unfolding RemoveAll_def Let_def
  by (auto simp: FS_key_prefix FS_keyDir_prefix intro!: call_lconfined
      dest: listAllKeys_root split: sum.splits)

lemma Rename_confined: "lkeeps (confined objs (bucket f) (rootPrefix f)) (Rename api f p q)"
  unfolding Rename_def Let_def
  by (auto simp: FS_key_prefix FS_keyDir_prefix intro!: call_lconfined split: sum.splits)
    (erule (1) listAllKeys_root)

end

end
