(* ===== verification/Fs_Refine.thy ===== *)
theory Fs_Refine
  imports Fs_Session
begin

text \<open>
  A specification of the directory operations on the object map of the bucket, and the
  proof that the operations of \<open>Dir\<close> implement it while the service is available. The
  paths are those whose cleaned form does not end in white space: on these, cleaning an
  already cleaned path changes nothing.
\<close>

section \<open>Specification\<close>

definition stable_name :: "string \<Rightarrow> bool" where
  "stable_name p \<longleftrightarrow> \<not> ends_space (CleanFTPPath p)"

definition lookup_node :: "FS \<Rightarrow> string \<Rightarrow> (string \<rightharpoonup> bytes) \<Rightarrow> node" where
  "lookup_node f p m =
     (let c = CleanFTPPath p
      in if c = [slash] then NDir else node_key m (FS_key f c) (FS_keyDir f c))"

text \<open>An operation's result and the object map after it.\<close>

type_synonym op_spec = "(string \<rightharpoonup> bytes) \<Rightarrow> (error + unit) \<times> (string \<rightharpoonup> bytes)"

definition spec_Mkdir :: "FS \<Rightarrow> string \<Rightarrow> op_spec" where
  "spec_Mkdir f p m =
     (let c = CleanFTPPath p
      in if readOnly f then (Inl (readOnlyErr ''mkdir'' p), m)
         else if c = [slash] then (Inr (), m)
         else (case lookup_node f p m of
                 NNone \<Rightarrow> (Inr (), if dirMarker f then m(FS_keyDir f c \<mapsto> []) else m)
               | _ \<Rightarrow> (Inl (errno ''mkdir'' c EEXIST), m)))"

definition spec_MkdirAll :: "FS \<Rightarrow> string \<Rightarrow> op_spec" where
  "spec_MkdirAll f p m =
     (let c = CleanFTPPath p
      in if readOnly f then (Inl (readOnlyErr ''mkdir'' p), m)
         else (case lookup_node f p m of
                 NNone \<Rightarrow> (Inr (), if dirMarker f then m(FS_keyDir f c \<mapsto> []) else m)
               | _ \<Rightarrow> (Inr (), m)))"

text \<open>A directory is empty when nothing but its marker lies below its prefix.\<close>

definition empty_dir :: "(string \<rightharpoonup> bytes) \<Rightarrow> string \<Rightarrow> bool" where
  "empty_dir m d \<longleftrightarrow> (\<forall>k \<in> dom m. prefix d k \<longrightarrow> k = d)"

definition spec_RemoveDir :: "FS \<Rightarrow> string \<Rightarrow> op_spec" where
  "spec_RemoveDir f p m =
     (let c = CleanFTPPath p; d = FS_keyDir f c
      in if readOnly f then (Inl (readOnlyErr ''rmdir'' p), m)
         else if c = [slash] then (Inl (errno ''rmdir'' c EACCES), m)
         else (case lookup_node f p m of
                 NNone \<Rightarrow> (Inl (notExist ''stat'' c), m)
               | NFile v \<Rightarrow> (Inl (errno ''rmdir'' c ENOTDIR), m)
               | NDir \<Rightarrow> if empty_dir m d then (Inr (), m(d := None))
                         else (Inl (errno ''rmdir'' c ENOTEMPTY), m)))"

text \<open>
  A directory with a marker and something else in it. A reply that ends after the marker makes
  it look empty; then the marker is all that goes.
\<close>

definition marked_nonempty :: "FS \<Rightarrow> string \<Rightarrow> (string \<rightharpoonup> bytes) \<Rightarrow> bool" where
  "marked_nonempty f p m \<longleftrightarrow>
     (let c = CleanFTPPath p; d = FS_keyDir f c
      in \<not> readOnly f \<and> c \<noteq> [slash] \<and> lookup_node f p m = NDir \<and> m d \<noteq> None \<and> \<not> empty_dir m d)"

definition drop_marker :: "FS \<Rightarrow> string \<Rightarrow> op_spec" where
  "drop_marker f p m = (Inr (), m(FS_keyDir f (CleanFTPPath p) := None))"

definition spec_Remove :: "FS \<Rightarrow> string \<Rightarrow> op_spec" where
  "spec_Remove f p m =
     (let c = CleanFTPPath p
      in if readOnly f then (Inl (readOnlyErr ''remove'' p), m)
         else if c = [slash] then (Inl (errno ''remove'' c EACCES), m)
         else (case lookup_node f p m of
                 NNone \<Rightarrow> (Inl (notExist ''stat'' c), m)
               | NFile v \<Rightarrow> (Inr (), m(FS_key f c := None))
               | NDir \<Rightarrow> spec_RemoveDir f c m))"

definition without_below :: "(string \<rightharpoonup> bytes) \<Rightarrow> string \<Rightarrow> (string \<rightharpoonup> bytes)" where
  "without_below m d = (\<lambda>k. if prefix d k then None else m k)"

lemma without_below_id: "\<not> below m d \<Longrightarrow> without_below m d = m"
  by (rule ext) (metis (full_types) below_def without_below_def domIff)

text \<open>The path and everything below it.\<close>

definition spec_RemoveAll :: "FS \<Rightarrow> string \<Rightarrow> op_spec" where
  "spec_RemoveAll f p m =
     (let c = CleanFTPPath p
      in if readOnly f then (Inl (readOnlyErr ''remove'' p), m)
         else if c = [slash] then (Inl (errno ''remove'' c EACCES), m)
         else (Inr (), (without_below m (FS_keyDir f c))(FS_key f c := None)))"

text \<open>A name that is both a file and the prefix of other keys.\<close>

definition shadowed :: "FS \<Rightarrow> string \<Rightarrow> (string \<rightharpoonup> bytes) \<Rightarrow> bool" where
  "shadowed f p m \<longleftrightarrow>
     (let c = CleanFTPPath p
      in c \<noteq> [slash] \<and> m (FS_key f c) \<noteq> None \<and> below m (FS_keyDir f c))"

text \<open>Moving everything below one prefix to below another.\<close>

definition move_below :: "(string \<rightharpoonup> bytes) \<Rightarrow> string \<Rightarrow> string \<Rightarrow> (string \<rightharpoonup> bytes)" where
  "move_below m old new =
     (\<lambda>k. if prefix new k then m (old @ drop (length new) k)
          else if prefix old k then None else m k)"

definition spec_Rename :: "FS \<Rightarrow> string \<Rightarrow> string \<Rightarrow> op_spec" where
  "spec_Rename f p q m =
     (let c = CleanFTPPath p; c' = CleanFTPPath q; d = FS_keyDir f c; d' = FS_keyDir f c'
      in if readOnly f then (Inl (readOnlyErr ''rename'' p), m)
         else if c = c' then (Inr (), m)
         else if c = [slash] \<or> c' = [slash] then (Inl (errno ''rename'' c EACCES), m)
         else (case lookup_node f p m of
                 NNone \<Rightarrow> (Inl (notExist ''stat'' c), m)
               | NFile v \<Rightarrow>
                   if below m d' then (Inl (errno ''rename'' c' EISDIR), m)
                   else (Inr (), m(FS_key f c' \<mapsto> v, FS_key f c := None))
               | NDir \<Rightarrow>
                   if prefix d d' then (Inl (errno ''rename'' c' EINVAL), m)
                   else if below m d' then (Inl (errno ''rename'' c' ENOTEMPTY), m)
                   else (Inr (), move_below m d d')))"

text \<open>What it means that an operation on a view implements a specification.\<close>

definition implements :: "('w \<Rightarrow> objects) \<Rightarrow> FS \<Rightarrow> op_spec \<Rightarrow> 'w \<Rightarrow> (error + unit) \<times> 'w \<Rightarrow> bool" where
  "implements obj f S w res \<longleftrightarrow>
     (fst res, obj (snd res) (bucket f)) = S (obj w (bucket f))
     \<and> (\<forall>b. b \<noteq> bucket f \<longrightarrow> obj (snd res) b = obj w b)"

section \<open>Facts about stable names\<close>

lemma stable_nameE:
  assumes "stable_name p"
  obtains es where "CleanFTPPath p = rooted es" "stable_path es"
  using assms CleanFTPPath_stable unfolding stable_name_def by blast

lemma stable_name_clean [simp]: "stable_name p \<Longrightarrow> CleanFTPPath (CleanFTPPath p) = CleanFTPPath p"
  by (simp add: stable_name_def CleanFTPPath_idem)

lemma stable_name_keys:
  assumes "stable_name p" "CleanFTPPath p \<noteq> [slash]"
  shows "FS_key f (CleanFTPPath p) \<noteq> []"
    and "FS_keyDir f (CleanFTPPath p) = FS_key f (CleanFTPPath p) @ [slash]"
    and "\<not> at_root f (CleanFTPPath p)"
proof -
  obtain es where es: "CleanFTPPath p = rooted es" "stable_path es"
    using assms(1) by (rule stable_nameE)
  with assms(2) have ne: "es \<noteq> []" by (auto simp: rooted_def)
  with es show "FS_key f (CleanFTPPath p) \<noteq> []" by (simp add: FS_key_def joinRoot_ne)
  then show "\<not> at_root f (CleanFTPPath p)" using assms(2) by (simp add: at_root_def)
  from es ne show "FS_keyDir f (CleanFTPPath p) = FS_key f (CleanFTPPath p) @ [slash]"
    by (simp add: FS_key_def FS_keyDir_def joinRoot_rooted dirKey_rooted)
qed

lemma stable_name_inject:
  assumes "stable_name p" "stable_name q" "CleanFTPPath p \<noteq> CleanFTPPath q"
  shows "FS_key f (CleanFTPPath p) \<noteq> FS_key f (CleanFTPPath q)"
proof -
  obtain es fs where "CleanFTPPath p = rooted es" "stable_path es" "CleanFTPPath q = rooted fs" "stable_path fs"
    using assms(1,2) by (metis stable_nameE)
  with assms(3) show ?thesis by (auto simp: FS_key_def joinRoot_inject)
qed

lemma lookup_node_clean [simp]: "stable_name p \<Longrightarrow> lookup_node f (CleanFTPPath p) m = lookup_node f p m"
  by (simp add: lookup_node_def)

lemma stable_name_Clean: "stable_name p \<Longrightarrow> stable_name (CleanFTPPath p)"
  by (simp add: stable_name_def CleanFTPPath_idem)

section \<open>Calls that do not fail\<close>

context s3_available
begin

lemma Stat_lookup:
  assumes "up w" "stable_name p" "CleanFTPPath p \<noteq> [slash]" "Stat api f (CleanFTPPath p) w = (r, w')"
  shows "up w'" and "objs w' = objs w"
    and "\<exists>t. r = (case lookup_node f p (objs w (bucket f)) of
         NFile v \<Rightarrow> Inr (NewFileInfo (path_Base (CleanFTPPath p)) (int (length v)) t)
       | NDir \<Rightarrow> Inr (NewDirInfo (path_Base (CleanFTPPath p)))
       | NNone \<Rightarrow> Inl (notExist ''stat'' (CleanFTPPath p)))"
proof -
  have nr: "\<not> at_root f (CleanFTPPath (CleanFTPPath p))"
    using assms(2,3) by (simp add: stable_name_keys)
  show "up w'" by (rule Stat_up(1) [OF assms(1,4) nr])
  show "objs w' = objs w" by (rule Stat_frame [OF assms(4)])
  show "\<exists>t. r = (case lookup_node f p (objs w (bucket f)) of
         NFile v \<Rightarrow> Inr (NewFileInfo (path_Base (CleanFTPPath p)) (int (length v)) t)
       | NDir \<Rightarrow> Inr (NewDirInfo (path_Base (CleanFTPPath p)))
       | NNone \<Rightarrow> Inl (notExist ''stat'' (CleanFTPPath p)))"
    using Stat_up(2) [OF assms(1,4) nr] assms(2,3)
    by (auto simp: lookup_node_def node_info_def Let_def split: node.splits)
qed

lemma PutObject_ok:
  assumes "up w" "PutObject api inp w = (r, w')"
  shows "up w' \<and> r = Inr () \<and>
    objs w' = upd_obj (objs w) (put_Bucket inp) (put_Key inp) (Some (put_Body inp))"
  using put_up [OF assms] assms(2) by (cases r) (auto dest: put_done)

lemma DeleteObject_ok:
  assumes "up w" "DeleteObject api b k w = (r, w')"
  shows "up w' \<and> r = Inr () \<and> objs w' = upd_obj (objs w) b k None"
  using delete_up [OF assms] assms(2) by (cases r) (auto dest: delete_done)

lemma copyKey_ok:
  assumes "up w" "copyKey api f k0 k w = (r, w')" "slash \<notin> set (bucket f)"
    and "objs w (bucket f) k0 \<noteq> None" "k0 \<noteq> k"
  shows "up w' \<and> r = Inr () \<and> objs w' = upd_obj (objs w) (bucket f) k (objs w (bucket f) k0)"
proof -
  have "up w' \<and> \<not> isl r"
    using copy_up [OF assms(1) assms(2) [unfolded copyKey_def]] copySource_decodes assms(3-5) by blast
  then have "up w'" "r = Inr ()" by (cases r; simp)+
  with copyKey_effect(1) [OF assms(2,3)] show ?thesis by blast
qed

lemma deleteKeys_ok:
  "up w \<Longrightarrow> deleteKeys api f ks w = (r, w') \<Longrightarrow>
     up w' \<and> r = Inr () \<and> objs w' = del_objs (objs w) (bucket f) (set ks)"
proof (induction "length ks" arbitrary: ks w rule: less_induct)
  case less
  show ?case
  proof (cases "ks = []")
    case True
    with less.prems show ?thesis by (auto simp: deleteKeys.simps io_simps fun_eq_iff)
  next
    case False
    obtain r1 w1 where d: "DeleteObjects api (bucket f) (take batchSize ks) w = (r1, w1)" by fastforce
    note u = deletes_up [OF less.prems(1) d]
    from u d have o1: "objs w1 = del_objs (objs w) (bucket f) (set (take batchSize ks))"
      using deletes_done by fastforce
    from d u False less.prems(2) have rest: "deleteKeys api f (drop batchSize ks) w1 = (r, w')"
      by (simp add: deleteKeys.simps [of api f ks] io_simps)
    have "length (drop batchSize ks) < length ks" using False by simp
    from less.hyps [OF this _ rest] u
    have IH: "up w' \<and> r = Inr () \<and> objs w' = del_objs (objs w1) (bucket f) (set (drop batchSize ks))" by blast
    have "set ks = set (take batchSize ks) \<union> set (drop batchSize ks)"
      by (metis append_take_drop_id set_append)
    with IH o1 show ?thesis by (auto simp: fun_eq_iff)
  qed
qed

lemma list_keys_loop_up:
  assumes "up w" "list_keys_loop api b pre tok acc w = Some (r, w')"
  shows "up w' \<and> \<not> isl r"
proof -
  have "api = api \<longrightarrow> up w \<longrightarrow> up (snd (r, w')) \<and> \<not> isl (fst (r, w'))"
    by (rule list_keys_loop.raw_induct
        [where P = "\<lambda>a b pre tok acc w x. a = api \<longrightarrow> up w \<longrightarrow> up (snd x) \<and> \<not> isl (fst x)", OF _ assms(2)])
      (fastforce dest: list_up split: prod.splits sum.splits if_splits)
  with assms(1) show ?thesis by simp
qed

lemma listAllKeys_up:
  assumes "up w"
  obtains keys w' where "listAllKeys api f pre w = Some (Inr keys, w')" "up w'" "objs w' = objs w"
    "set keys = {k \<in> dom (objs w (bucket f)). prefix pre k}" "distinct keys"
proof -
  obtain r w' where l: "listAllKeys api f pre w = Some (r, w')" using listAllKeys_ok by blast
  from list_keys_loop_up [OF assms l [unfolded listAllKeys_def]]
  obtain keys where "r = Inr keys" "up w'" by (cases r) auto
  with l listAllKeys_cases [OF l] that show ?thesis by blast
qed

lemma copyKeys_ok:
  assumes "up w" "copyKeys api f old new ks w = (r, w')" "slash \<notin> set (bucket f)"
    and "\<forall>k \<in> set ks. objs w (bucket f) k \<noteq> None"
    and "\<forall>k \<in> set ks. \<forall>k' \<in> set ks. new @ TrimPrefix k old \<noteq> k'"
  shows "up w' \<and> r = Inr ()"
  using assms
proof (induction ks arbitrary: w)
  case (Cons k ks)
  let ?t = "new @ TrimPrefix k old"
  obtain r1 w1 where c: "copyKey api f k ?t w = (r1, w1)" by fastforce
  have k: "objs w (bucket f) k \<noteq> None" using Cons.prems(4) by simp
  have "k \<noteq> ?t" using Cons.prems(5) by (metis list.set_intros(1))
  note e = copyKey_ok [OF Cons.prems(1) c Cons.prems(3) k this]
  from c e Cons.prems(2) have rest: "copyKeys api f old new ks w1 = (r, w')" by (simp add: io_simps)
  from e Cons.prems(4,5) have "\<forall>k \<in> set ks. objs w1 (bucket f) k \<noteq> None" by auto
  with Cons.IH [OF _ rest Cons.prems(3)] e Cons.prems(5) show ?case by simp
qed (simp add: io_simps)

end

section \<open>Each operation implements its specification\<close>

lemma implementsI:
  assumes "m w = (r, w')" "S (obj w (bucket f)) = (r, g (obj w (bucket f)))"
    and "obj w' (bucket f) = g (obj w (bucket f))" "\<And>b. b \<noteq> bucket f \<Longrightarrow> obj w' b = obj w b"
  shows "implements obj f S w (m w)"
  using assms by (simp add: implements_def)

lemma implements_same:
  "m w = (r, w') \<Longrightarrow> S (obj w (bucket f)) = (r, obj w (bucket f)) \<Longrightarrow> obj w' = obj w \<Longrightarrow>
     implements obj f S w (m w)"
  by (simp add: implements_def)

lemma implements_upd:
  "m w = (r, w') \<Longrightarrow> S (obj w (bucket f)) = (r, (obj w (bucket f))(k := v)) \<Longrightarrow>
     obj w' = upd_obj (obj w) (bucket f) k v \<Longrightarrow> implements obj f S w (m w)"
  by (simp add: implements_def upd_obj_def)

lemma implements_del:
  "m w = (r, w') \<Longrightarrow> S (obj w (bucket f)) = (r, \<lambda>k. if k \<in> D then None else obj w (bucket f) k) \<Longrightarrow>
     obj w' = del_objs (obj w) (bucket f) D \<Longrightarrow> implements obj f S w (m w)"
  by (simp add: implements_def del_objs_def)

context s3_available
begin

lemma Mkdir_implements:
  assumes "up w" "stable_name p"
  shows "implements objs f (spec_Mkdir f p) w (Mkdir api f p w) \<and> up (snd (Mkdir api f p w))"
proof (cases "readOnly f \<or> CleanFTPPath p = [slash]")
  case True
  with assms(1) show ?thesis
    by (auto simp: Mkdir_def spec_Mkdir_def Let_def io_simps implements_def)
next
  case False
  let ?c = "CleanFTPPath p" and ?m = "objs w (bucket f)"
  let ?d = "FS_keyDir f ?c"
  let ?inp = "\<lparr>put_Bucket = bucket f, put_Key = ?d, put_Body = [],
    put_ContentLength = Some 0, put_ContentType = None\<rparr>"
  obtain r1 w1 where h: "headSize api f (FS_key f ?c) w = (r1, w1)" by fastforce
  obtain r2 w2 where l: "prefixHasObjects api f ?d w1 = (r2, w2)" by fastforce
  obtain r3 w3 where pt: "PutObject api ?inp w2 = (r3, w3)" by fastforce
  note h' = headSize_up [OF assms(1) h] headSize_cases(1) [OF h]
  note l' = prefixHasObjects_up [OF h'(1) l] prefixHasObjects_cases(1) [OF l]
  note p' = PutObject_ok [OF l'(1) pt]
  have nd: "lookup_node f p ?m = node_key ?m (FS_key f ?c) ?d"
    using False by (simp add: lookup_node_def Let_def)
  show ?thesis
    using False h l pt h' l' p'
    by (auto simp: Mkdir_def spec_Mkdir_def Let_def io_simps nd node_key_def implements_def upd_obj_def
        split: option.splits)
qed

lemma MkdirAll_implements:
  assumes "up w" "stable_name p"
  shows "implements objs f (spec_MkdirAll f p) w (MkdirAll api f p w) \<and> up (snd (MkdirAll api f p w))"
proof (cases "readOnly f \<or> CleanFTPPath p = [slash]")
  case True
  with assms(1) show ?thesis
    by (auto simp: MkdirAll_def spec_MkdirAll_def lookup_node_def Let_def io_simps implements_def)
next
  case False
  let ?c = "CleanFTPPath p"
  obtain r1 w1 where st: "Stat api f ?c w = (r1, w1)" by fastforce
  from False have "?c \<noteq> [slash]" by simp
  note st' = Stat_lookup [OF assms this st]
  note mk = Mkdir_implements [OF st'(1) stable_name_Clean [OF assms(2)], of f]
  show ?thesis
    using False st st' mk assms(2)
    by (cases "lookup_node f p (objs w (bucket f))")
      (auto simp: MkdirAll_def spec_MkdirAll_def spec_Mkdir_def Let_def io_simps implements_def)
qed

text \<open>
  The first keys below a directory. A reply may be shorter than asked for, but it is not empty
  if something is there: only a marker in front can hide the other keys.
\<close>

lemma first_keys:
  assumes "ListObjectsV2 api (list_request b d None (Some 2) None) w = (Inr out, w')"
  defines "seen \<equiv> list_ex (\<lambda>obj. ToString (Key obj) \<noteq> d) (Contents out)"
  shows "seen \<Longrightarrow> \<not> empty_dir (objs w b) d"
    and "\<not> empty_dir (objs w b) d \<Longrightarrow> objs w b d = None \<Longrightarrow> seen"
proof -
  let ?ks = "filter (prefix d) (sorted_list_of_set (dom (objs w b)))"
  obtain n where n: "map (ToString \<circ> Key) (Contents out) = take n ?ks"
      "ToBool (IsTruncated out) \<longleftrightarrow> n < length ?ks" "ToBool (IsTruncated out) \<Longrightarrow> 0 < n"
    by (rule probe_page [OF assms(1)]) auto
  have ks: "set ?ks = {k \<in> dom (objs w b). prefix d k}" by (auto simp: finite_bucket)
  have seen: "seen \<longleftrightarrow> (\<exists>k \<in> set (take n ?ks). k \<noteq> d)"
    by (simp flip: n(1) add: seen_def list_ex_iff)
  then show "\<not> empty_dir (objs w b) d" if seen
    using that ks by (auto simp: empty_dir_def dest!: in_set_takeD)
  assume ne: "\<not> empty_dir (objs w b) d" and none: "objs w b d = None"
  from ne obtain k where "k \<in> set ?ks" unfolding ks empty_dir_def by blast
  then obtain k' where "k' \<in> set (take n ?ks)"
    using n(2,3) by (cases "?ks"; cases n) auto
  moreover from this have "k' \<noteq> d" using ks none by (metis (mono_tags, lifting) domIff in_set_takeD mem_Collect_eq)
  ultimately show seen unfolding seen by blast
qed

lemma RemoveDir_implements:
  assumes "up w" "stable_name p"
  shows "up (snd (RemoveDir api f p w))"
    and "implements objs f (spec_RemoveDir f p) w (RemoveDir api f p w)
      \<or> marked_nonempty f p (objs w (bucket f)) \<and> implements objs f (drop_marker f p) w (RemoveDir api f p w)"
proof -
  have "up (snd (RemoveDir api f p w)) \<and>
      (implements objs f (spec_RemoveDir f p) w (RemoveDir api f p w)
       \<or> marked_nonempty f p (objs w (bucket f)) \<and> implements objs f (drop_marker f p) w (RemoveDir api f p w))"
  proof (cases "readOnly f \<or> CleanFTPPath p = [slash]")
    case True
    with assms(1) show ?thesis
      by (auto simp: RemoveDir_def spec_RemoveDir_def Let_def io_simps implements_def)
  next
    case False
    let ?c = "CleanFTPPath p" and ?m = "objs w (bucket f)"
    let ?d = "FS_keyDir f ?c"
    obtain r1 w1 where st: "Stat api f ?c w = (r1, w1)" by fastforce
    obtain r2 w2 where l: "ListObjectsV2 api (list_request (bucket f) ?d None (Some 2) None) w1 = (r2, w2)"
      by fastforce
    obtain r3 w3 where d: "DeleteObject api (bucket f) ?d w2 = (r3, w3)" by fastforce
    from False have "?c \<noteq> [slash]" by simp
    note st' = Stat_lookup [OF assms this st]
    from list_up [OF st'(1) l] obtain out where out: "r2 = Inr out" and u2: "up w2" by (cases r2) auto
    note k = first_keys [OF l [unfolded out], unfolded st'(2)]
    note l' = list_frame [OF l]
    note d' = DeleteObject_ok [OF u2 d]
    show ?thesis
    proof (cases "lookup_node f p ?m")
      case NDir
      show ?thesis
      proof (cases "list_ex (\<lambda>obj. ToString (Key obj) \<noteq> ?d) (Contents out)")
        case True
        with False NDir st l out st' k(1) l' u2 show ?thesis
          by (auto simp: RemoveDir_def spec_RemoveDir_def Let_def io_simps implements_def)
      next
        case none: False
        have res: "RemoveDir api f p w = (Inr (), w3)"
          using False NDir st l d out st' none d' by (auto simp: RemoveDir_def Let_def io_simps)
        have o: "objs w3 = upd_obj (objs w) (bucket f) ?d None" using d' l' st'(2) by simp
        show ?thesis
        proof (cases "empty_dir ?m ?d")
          case True
          with False NDir res o d' show ?thesis
            by (auto simp: spec_RemoveDir_def Let_def implements_def upd_obj_def)
        next
          case ne: False
          then have "?m ?d \<noteq> None" using k(2) none by blast
          with ne False NDir res o d' show ?thesis
            by (auto simp: marked_nonempty_def drop_marker_def Let_def implements_def upd_obj_def)
        qed
      qed
    qed (use False st st' in \<open>auto simp: RemoveDir_def spec_RemoveDir_def Let_def io_simps implements_def\<close>)
  qed
  then show "up (snd (RemoveDir api f p w))"
    "implements objs f (spec_RemoveDir f p) w (RemoveDir api f p w)
      \<or> marked_nonempty f p (objs w (bucket f)) \<and> implements objs f (drop_marker f p) w (RemoveDir api f p w)"
    by blast+
qed

lemma Remove_implements:
  assumes "up w" "stable_name p"
  shows "up (snd (Remove api f p w))"
    and "implements objs f (spec_Remove f p) w (Remove api f p w)
      \<or> marked_nonempty f p (objs w (bucket f)) \<and> implements objs f (drop_marker f p) w (Remove api f p w)"
proof -
  have "up (snd (Remove api f p w)) \<and>
      (implements objs f (spec_Remove f p) w (Remove api f p w)
       \<or> marked_nonempty f p (objs w (bucket f)) \<and> implements objs f (drop_marker f p) w (Remove api f p w))"
  proof (cases "readOnly f \<or> CleanFTPPath p = [slash]")
    case True
    with assms(1) show ?thesis
      by (auto simp: Remove_def spec_Remove_def Let_def io_simps implements_def)
  next
    case False
    let ?c = "CleanFTPPath p" and ?m = "objs w (bucket f)"
    obtain r1 w1 where st: "Stat api f ?c w = (r1, w1)" by fastforce
    obtain r2 w2 where d: "DeleteObject api (bucket f) (FS_key f ?c) w1 = (r2, w2)" by fastforce
    from False have "?c \<noteq> [slash]" by simp
    note st' = Stat_lookup [OF assms this st]
    note d' = DeleteObject_ok [OF st'(1) d]
    note rd = RemoveDir_implements [OF st'(1) stable_name_Clean [OF assms(2)], of f]
    have clean: "marked_nonempty f ?c = marked_nonempty f p" "drop_marker f ?c = drop_marker f p"
      using assms(2) by (auto simp: marked_nonempty_def drop_marker_def lookup_node_def fun_eq_iff)
    show ?thesis
    proof (cases "lookup_node f p ?m")
      case NDir
      with False st st' have "Remove api f p w = RemoveDir api f ?c w1"
        by (auto simp: Remove_def Let_def io_simps)
      moreover have "spec_Remove f p ?m = spec_RemoveDir f ?c ?m"
        using False NDir by (simp add: spec_Remove_def Let_def)
      ultimately show ?thesis using rd st'(2) by (simp add: clean implements_def)
    qed (use False st d st' d' in \<open>auto simp: Remove_def spec_Remove_def Let_def io_simps implements_def upd_obj_def\<close>)
  qed
  then show "up (snd (Remove api f p w))"
    "implements objs f (spec_Remove f p) w (Remove api f p w)
      \<or> marked_nonempty f p (objs w (bucket f)) \<and> implements objs f (drop_marker f p) w (Remove api f p w)"
    by blast+
qed

text \<open>The operations that list and delete also return.\<close>

lemma delete_below_ok:
  assumes "up w"
  obtains w' where "landThen (listAllKeys api f d) (\<lambda>keys. once (deleteKeys api f keys)) w = Some (Inr (), w')"
    "up w'" "objs w' = (objs w)(bucket f := without_below (objs w (bucket f)) d)"
proof -
  obtain keys w1 where l: "listAllKeys api f d w = Some (Inr keys, w1)" "up w1" "objs w1 = objs w"
      "set keys = {k \<in> dom (objs w (bucket f)). prefix d k}"
    using assms by (rule listAllKeys_up)
  obtain r2 w2 where d: "deleteKeys api f keys w1 = (r2, w2)" by fastforce
  note d' = deleteKeys_ok [OF l(2) d]
  have "objs w2 = (objs w)(bucket f := without_below (objs w (bucket f)) d)"
    using d' l(3,4) by (auto simp: fun_eq_iff without_below_def)
  with d d' l(1) that show ?thesis by (simp add: io_simps)
qed

lemma RemoveAll_implements:
  assumes "up w" "stable_name p"
  obtains res where "RemoveAll api f p w = Some res" "up (snd res)"
    "implements objs f (if shadowed f p (objs w (bucket f)) then spec_Remove f p else spec_RemoveAll f p) w res"
proof (cases "readOnly f \<or> CleanFTPPath p = [slash]")
  case True
  with assms(1) show ?thesis
    by (intro that [of "(fst (spec_RemoveAll f p (objs w (bucket f))), w)"])
      (auto simp: RemoveAll_def spec_RemoveAll_def spec_Remove_def Let_def io_simps implements_def)
next
  case False
  let ?c = "CleanFTPPath p" and ?m = "objs w (bucket f)"
  let ?d = "FS_keyDir f ?c"
  obtain r1 w1 where st: "Stat api f ?c w = (r1, w1)" by fastforce
  obtain r2 w2 where rk: "removeKey api f (FS_key f ?c) w1 = (r2, w2)" by fastforce
  from False have "?c \<noteq> [slash]" by simp
  note st' = Stat_lookup [OF assms this st]
  note rk' = DeleteObject_ok [OF st'(1) rk [unfolded removeKey_def]]
  obtain w3 where del: "landThen (listAllKeys api f ?d) (\<lambda>keys. once (deleteKeys api f keys)) w1 = Some (Inr (), w3)"
      "up w3" "objs w3 = (objs w1)(bucket f := without_below (objs w1 (bucket f)) ?d)"
    using st'(1) by (rule delete_below_ok)
  obtain r4 w4 where rd: "removeKey api f ?d w3 = (r4, w4)" by fastforce
  note rd' = DeleteObject_ok [OF del(2) rd [unfolded removeKey_def]]
  have two: "landThen (listAllKeys api f ?d) (\<lambda>keys. landThen (once (deleteKeys api f keys)) (\<lambda>u.
      once (removeKey api f ?d))) w1 = Some (r4, w4)"
    using del(1) rd
    by (auto simp: landThen_def lattempt_def once_def throw_def split: option.splits prod.splits sum.splits)
  show ?thesis
  proof (cases "lookup_node f p ?m")
    case (NFile v)
    then have "?m (FS_key f ?c) \<noteq> None"
      using False by (auto simp: lookup_node_def node_key_def Let_def split: option.splits if_splits)
    then have "without_below ?m ?d = ?m" if "\<not> shadowed f p ?m"
      using that False without_below_id [of ?m ?d] by (auto simp: shadowed_def Let_def)
    with NFile False st st'(2,3) rk rk' show ?thesis
      by (intro that [of "(r2, w2)"])
        (auto simp: RemoveAll_def spec_RemoveAll_def spec_Remove_def Let_def io_simps implements_def upd_obj_def)
  next
    case NNone
    then have key: "?m (FS_key f ?c) = None"
      using False by (auto simp: lookup_node_def node_key_def Let_def split: option.splits if_splits)
    then have "(without_below ?m ?d)(FS_key f ?c := None) = without_below ?m ?d"
      by (auto simp: without_below_def fun_eq_iff)
    with key NNone False st st'(2,3) del show ?thesis
      by (intro that [of "(Inr (), w3)"])
        (auto simp: RemoveAll_def spec_RemoveAll_def shadowed_def Let_def io_simps implements_def)
  next
    case NDir
    then have key: "?m (FS_key f ?c) = None"
      using False by (auto simp: lookup_node_def node_key_def Let_def split: option.splits if_splits)
    then have "(without_below ?m ?d)(FS_key f ?c := None) = without_below ?m ?d"
      "(without_below ?m ?d)(?d := None) = without_below ?m ?d"
      by (auto simp: without_below_def fun_eq_iff)
    with key NDir False st st'(2,3) two del(3) rd' show ?thesis
      by (intro that [of "(r4, w4)"])
        (auto simp: RemoveAll_def spec_RemoveAll_def shadowed_def Let_def io_simps implements_def upd_obj_def)
  qed
qed

end

text \<open>The copies of a directory rename land outside the source and on distinct keys.\<close>

lemma stable_dir_slash: "stable_name p \<Longrightarrow> CleanFTPPath p \<noteq> [slash] \<Longrightarrow> suffix [slash] (FS_keyDir f (CleanFTPPath p))"
  by (simp add: stable_name_keys suffix_def)

lemma move_targets:
  assumes "set keys \<subseteq> {k. prefix old k}" "\<not> below m new" "set keys \<subseteq> dom m"
  shows "\<forall>k \<in> set keys. \<forall>k' \<in> set keys. new @ TrimPrefix k old \<noteq> k'"
    and "inj_on (\<lambda>k. TrimPrefix k old) (set keys)"
proof -
  show "\<forall>k \<in> set keys. \<forall>k' \<in> set keys. new @ TrimPrefix k old \<noteq> k'"
    using assms(2,3) by (metis below_def prefixI subsetD)
  show "inj_on (\<lambda>k. TrimPrefix k old) (set keys)"
    using assms(1) by (intro inj_onI) (metis TrimPrefix_def mem_Collect_eq subsetD suffix_drop_prefix)
qed

lemma move_below_effect:
  assumes K: "K = {k \<in> dom m. prefix old k}" and nb: "\<not> below m new"
    and moved: "\<forall>k \<in> K. m' (new @ TrimPrefix k old) = m k"
    and kept: "\<And>k'. (\<forall>k \<in> K. k' \<noteq> new @ TrimPrefix k old) \<Longrightarrow> m' k' = m k'"
    and np: "\<not> prefix old new"
  shows "(\<lambda>k. if k \<in> K then None else m' k) = move_below m old new"
proof
  fix k
  have tgt: "new @ TrimPrefix (old @ x) old = new @ x" for x by simp
  show "(if k \<in> K then None else m' k) = move_below m old new k"
  proof (cases "prefix new k")
    case True
    then obtain x where x: "k = new @ x" by (auto simp: prefix_def)
    have mk: "m k = None" using nb True by (auto simp: below_def)
    then have nK: "k \<notin> K" by (auto simp: K)
    have "m' k = m (old @ x)"
    proof (cases "m (old @ x)")
      case (Some v)
      then have "old @ x \<in> K" by (auto simp: K)
      with moved have "m' (new @ TrimPrefix (old @ x) old) = m (old @ x)" by blast
      then show ?thesis by (simp add: x)
    next
      case None
      have "k \<noteq> new @ TrimPrefix j old" if "j \<in> K" for j
        using that None by (auto simp: K x prefix_def)
      with kept mk None show ?thesis by simp
    qed
    with nK True x show ?thesis by (simp add: move_below_def)
  next
    case False
    then have "\<forall>j \<in> K. k \<noteq> new @ TrimPrefix j old" by auto
    with kept have "m' k = m k" by blast
    with False show ?thesis by (auto simp: move_below_def K)
  qed
qed

context s3_available
begin

lemma move_tree_ok:
  assumes "up w" "slash \<notin> set (bucket f)" "\<not> below (objs w (bucket f)) new" "\<not> prefix old new"
  obtains w' where "landThen (listAllKeys api f old) (\<lambda>keys. once (andThen (copyKeys api f old new keys)
      (\<lambda>u. deleteKeys api f keys))) w = Some (Inr (), w')"
    "up w'" "objs w' = (objs w)(bucket f := move_below (objs w (bucket f)) old new)"
proof -
  let ?m = "objs w (bucket f)"
  obtain keys w1 where l: "listAllKeys api f old w = Some (Inr keys, w1)" "up w1" "objs w1 = objs w"
      "set keys = {k \<in> dom ?m. prefix old k}" "distinct keys"
    using assms(1) by (rule listAllKeys_up)
  obtain r2 w2 where c: "copyKeys api f old new keys w1 = (r2, w2)" by fastforce
  obtain r3 w3 where d: "deleteKeys api f keys w2 = (r3, w3)" by fastforce
  have sub: "set keys \<subseteq> {k. prefix old k}" "set keys \<subseteq> dom ?m" using l(4) by auto
  note t = move_targets [OF sub(1) assms(3) sub(2)]
  have dom1: "\<forall>k \<in> set keys. objs w1 (bucket f) k \<noteq> None" using l(3,4) by auto
  note c1 = copyKeys_ok [OF l(2) c assms(2) dom1 t(1)]
  note c2 = copyKeys_effect [OF c assms(2) t(1)]
  from c1 have "r2 = Inr ()" by blast
  note c3 = c2(2) [OF this t(2) l(5)]
  have u2: "up w2" using c1 by blast
  note d' = deleteKeys_ok [OF u2 d]
  have "(\<lambda>k. if k \<in> set keys then None else objs w2 (bucket f) k) = move_below ?m old new"
  proof (rule move_below_effect [OF l(4) assms(3) _ _ assms(4)])
    show "\<forall>k \<in> set keys. objs w2 (bucket f) (new @ TrimPrefix k old) = ?m k"
      using c3 l(3) by simp
    show "objs w2 (bucket f) k' = ?m k'" if "\<forall>k \<in> set keys. k' \<noteq> new @ TrimPrefix k old" for k'
      using c2(1) that l(3) by simp
  qed
  moreover have "objs w2 b = objs w b" if "b \<noteq> bucket f" for b
    using c2(1) that l(3) by (auto simp: fun_eq_iff)
  ultimately have "objs w3 = (objs w)(bucket f := move_below ?m old new)"
    using d' by (auto simp: fun_eq_iff)
  with that show ?thesis using l(1) c c1 d d' by (simp add: io_simps)
qed

text \<open>Renaming a file and renaming a directory, past the checks on the paths.\<close>

lemma Rename_file_implements:
  assumes "up w" "slash \<notin> set (bucket f)" "objs w (bucket f) k = Some v" "k \<noteq> k'"
  shows "\<exists>r w'. andThen (prefixHasObjects api f d') (\<lambda>exists.
       if exists then throw e
       else andThen (copyKey api f k k') (\<lambda>u. removeKey api f k)) w = (r, w') \<and> up w'
    \<and> (r, objs w') = (if below (objs w (bucket f)) d' then (Inl e, objs w)
         else (Inr (), upd_obj (upd_obj (objs w) (bucket f) k' (Some v)) (bucket f) k None))"
proof -
  obtain r2 w2 where ph: "prefixHasObjects api f d' w = (r2, w2)" by fastforce
  note ph' = prefixHasObjects_up [OF assms(1) ph] prefixHasObjects_cases(1) [OF ph]
  obtain r3 w3 where cp: "copyKey api f k k' w2 = (r3, w3)" by fastforce
  have "objs w2 (bucket f) k \<noteq> None" using assms(3) ph'(3) by simp
  note cp' = copyKey_ok [OF ph'(1) cp assms(2) this assms(4)]
  obtain r4 w4 where rk: "removeKey api f k w3 = (r4, w4)" by fastforce
  have "up w3" using cp' by blast
  note rk' = DeleteObject_ok [OF this rk [unfolded removeKey_def]]
  show ?thesis
    using ph ph' cp cp' rk rk' assms(3)
    by (cases "below (objs w (bucket f)) d'") (simp_all add: io_simps)
qed

lemma Rename_dir_implements:
  assumes "up w" "slash \<notin> set (bucket f)" "\<not> prefix d d'"
  shows "\<exists>r w'. landThen (once (prefixHasObjects api f d')) (\<lambda>exists.
       if exists then once (throw e)
       else landThen (listAllKeys api f d) (\<lambda>keys.
              once (andThen (copyKeys api f d d' keys) (\<lambda>u. deleteKeys api f keys)))) w = Some (r, w')
    \<and> up w'
    \<and> (r, objs w') = (if below (objs w (bucket f)) d' then (Inl e, objs w)
         else (Inr (), (objs w)(bucket f := move_below (objs w (bucket f)) d d')))"
proof -
  obtain r2 w2 where ph: "prefixHasObjects api f d' w = (r2, w2)" by fastforce
  note ph' = prefixHasObjects_up [OF assms(1) ph] prefixHasObjects_cases(1) [OF ph]
  show ?thesis
  proof (cases "below (objs w (bucket f)) d'")
    case True
    with ph ph' show ?thesis by (simp add: io_simps)
  next
    case False
    obtain w3 where "landThen (listAllKeys api f d) (\<lambda>keys. once (andThen (copyKeys api f d d' keys)
        (\<lambda>u. deleteKeys api f keys))) w2 = Some (Inr (), w3)"
      "up w3" "objs w3 = (objs w2)(bucket f := move_below (objs w2 (bucket f)) d d')"
      by (rule move_tree_ok [OF ph'(1) assms(2), of d' d]) (use False ph' assms(3) in auto)
    with False ph ph' show ?thesis by (simp add: io_simps)
  qed
qed

lemma Rename_implements:
  assumes "up w" "stable_name p" "stable_name q" "slash \<notin> set (bucket f)"
  obtains res where "Rename api f p q w = Some res" "implements objs f (spec_Rename f p q) w res" "up (snd res)"
proof (cases "readOnly f \<or> CleanFTPPath p = CleanFTPPath q \<or> CleanFTPPath p = [slash] \<or> CleanFTPPath q = [slash]")
  case True
  with assms(1) show ?thesis
    by (intro that [of "(fst (spec_Rename f p q (objs w (bucket f))), w)"])
      (auto simp: Rename_def spec_Rename_def Let_def io_simps implements_def)
next
  case False
  let ?c = "CleanFTPPath p" and ?c' = "CleanFTPPath q" and ?m = "objs w (bucket f)"
  let ?d = "FS_keyDir f ?c" and ?d' = "FS_keyDir f ?c'"
  from False have ns: "?c \<noteq> [slash]" by simp
  obtain r1 w1 where st: "Stat api f ?c w = (r1, w1)" by fastforce
  note st' = Stat_lookup [OF assms(1,2) ns st]
  show ?thesis
  proof (cases "lookup_node f p ?m")
    case NNone
    with False st st' show ?thesis
      by (intro that [of "(Inl (notExist ''stat'' ?c), w1)"])
        (auto simp: Rename_def spec_Rename_def Let_def io_simps implements_def)
  next
    case (NFile v)
    then have "objs w1 (bucket f) (FS_key f ?c) = Some v"
      using ns st'(2) by (auto simp: lookup_node_def node_key_def Let_def split: option.splits if_splits)
    moreover have "FS_key f ?c \<noteq> FS_key f ?c'" using stable_name_inject [OF assms(2,3)] False by simp
    note Rename_file_implements [OF st'(1) assms(4) _ this, of v ?d' "errno ''rename'' ?c' EISDIR"]
    ultimately
    obtain res where "Rename api f p q w = Some res" "up (snd res)"
        "(fst res, objs (snd res)) = (if below ?m ?d' then (Inl (errno ''rename'' ?c' EISDIR), objs w)
          else (Inr (), upd_obj (upd_obj (objs w) (bucket f) (FS_key f ?c') (Some v)) (bucket f) (FS_key f ?c) None))"
      using False NFile st st'(2,3) by (auto simp: Rename_def Let_def io_simps)
    with False NFile that show ?thesis
      by (auto simp: spec_Rename_def Let_def implements_def upd_obj_def split: if_splits)
  next
    case NDir
    have ne: "?d \<noteq> []" using stable_name_keys [OF assms(2) ns] by simp
    show ?thesis
    proof (cases "prefix ?d ?d'")
      case True
      with False NDir st st' ne show ?thesis
        by (intro that [of "(Inl (errno ''rename'' ?c' EINVAL), w1)"])
          (auto simp: Rename_def spec_Rename_def Let_def io_simps implements_def)
    next
      case no: False
      from Rename_dir_implements [OF st'(1) assms(4) no, of "errno ''rename'' ?c' ENOTEMPTY"]
      obtain res where "Rename api f p q w = Some res" "up (snd res)"
          "(fst res, objs (snd res)) = (if below ?m ?d' then (Inl (errno ''rename'' ?c' ENOTEMPTY), objs w)
            else (Inr (), (objs w)(bucket f := move_below ?m ?d ?d')))"
        using False NDir st st'(2,3) ne no by (auto simp: Rename_def Let_def io_simps)
      with False NDir no that show ?thesis
        by (auto simp: spec_Rename_def Let_def implements_def split: if_splits)
    qed
  qed
qed

end

end
