(* ===== verification/Fs_Safety.thy ===== *)
theory Fs_Safety
  imports Fs_Refine
begin

text \<open>
  What holds of the directory operations when calls to the store fail at any point: they
  return, a rename never loses an object it was to move, and removing a directory deletes
  nothing but the directory's own marker.
\<close>

section \<open>The operations return\<close>

definition returns :: "('w, 'a) lio \<Rightarrow> bool" where
  "returns m \<longleftrightarrow> (\<forall>w. \<exists>r w'. m w = Some (r, w'))"

lemma returns_once: "returns (once m)"
  by (simp add: returns_def once_def)

lemma returns_lattempt: "returns m \<Longrightarrow> (\<And>r. returns (h r)) \<Longrightarrow> returns (lattempt m h)"
  unfolding returns_def lattempt_def by (metis (no_types, lifting) case_prod_conv option.simps(5))

lemma returns_landThen: "returns m \<Longrightarrow> (\<And>x. returns (f x)) \<Longrightarrow> returns (landThen m f)"
  unfolding landThen_def by (intro returns_lattempt) (auto simp: returns_once split: sum.splits)

context s3_service
begin

lemma listAllKeys_returns: "returns (listAllKeys api f pre)"
  unfolding returns_def using listAllKeys_ok by blast

lemma ReadDir_total: "returns (ReadDir api f p)"
  unfolding returns_def using ReadDir_returns by blast

lemma RemoveAll_total: "returns (RemoveAll api f p)"
  unfolding RemoveAll_def Let_def
  by (auto intro!: returns_once returns_lattempt returns_landThen listAllKeys_returns split: sum.splits)

lemma Rename_total: "returns (Rename api f p q)"
  unfolding Rename_def Let_def
  by (auto intro!: returns_once returns_landThen listAllKeys_returns)

end

section \<open>A rename loses nothing\<close>

text \<open>Where a rename moves a key to.\<close>

definition renamed_key :: "FS \<Rightarrow> string \<Rightarrow> string \<Rightarrow> string \<Rightarrow> string" where
  "renamed_key f c c' k =
     (if k = FS_key f c then FS_key f c'
      else if prefix (FS_keyDir f c) k then FS_keyDir f c' @ drop (length (FS_keyDir f c)) k
      else k)"

definition survives :: "('w \<Rightarrow> objects) \<Rightarrow> string \<Rightarrow> (string \<Rightarrow> string) \<Rightarrow> string set \<Rightarrow> 'w \<Rightarrow> 'w \<Rightarrow> bool" where
  "survives obj b mv lost w w' \<longleftrightarrow>
     (\<forall>k v. obj w b k = Some v \<longrightarrow> k \<in> lost \<or> obj w' b k = Some v \<or> obj w' b (mv k) = Some v)"

lemma survives_same: "obj w' = obj w \<Longrightarrow> survives obj b mv lost w w'"
  by (simp add: survives_def)

context s3_service
begin

lemma rename_file_survives:
  assumes "slash \<notin> set (bucket f)" "k \<noteq> k'" "mv k = k'"
    and "andThen (copyKey api f k k') (\<lambda>u. removeKey api f k) w = (r, w')"
  shows "survives objs (bucket f) mv {k'} w w'"
proof -
  obtain r1 w1 where cp: "copyKey api f k k' w = (r1, w1)" by fastforce
  note e = copyKey_effect [OF cp assms(1)]
  show ?thesis
  proof (cases r1)
    case (Inl x)
    with assms(4) cp have "w' = w1" by (simp add: io_simps)
    with e(2) show ?thesis by (auto simp: survives_def)
  next
    case (Inr u)
    then have "r1 = Inr ()" by simp
    note e1 = e(1) [OF this]
    from Inr assms(4) cp have d: "DeleteObject api (bucket f) k w1 = (r, w')"
      by (simp add: io_simps removeKey_def)
    have "objs w' = objs w1 \<or> objs w' = upd_obj (objs w1) (bucket f) k None"
      using d by (cases r) (auto dest: delete_done delete_failed)
    with e1 assms(2,3) show ?thesis by (auto simp: survives_def)
  qed
qed

lemma rename_dir_survives:
  assumes "slash \<notin> set (bucket f)" "\<not> below (objs w (bucket f)) new"
    and keys: "set keys = {k \<in> dom (objs w (bucket f)). prefix old k}" "distinct keys"
    and mv: "\<And>k. prefix old k \<Longrightarrow> k \<in> dom (objs w (bucket f)) \<Longrightarrow> mv k = new @ drop (length old) k"
    and run: "andThen (copyKeys api f old new keys) (\<lambda>u. deleteKeys api f keys) w = (r, w')"
  shows "survives objs (bucket f) mv {} w w'"
proof -
  let ?b = "bucket f"
  obtain r1 w1 where cp: "copyKeys api f old new keys w = (r1, w1)" by fastforce
  have sub: "set keys \<subseteq> {k. prefix old k}" "set keys \<subseteq> dom (objs w ?b)" using keys(1) by auto
  note t = move_targets [OF sub(1) assms(2) sub(2)]
  note e = copyKeys_effect [OF cp assms(1) t(1)]
  have old: "objs w1 ?b k = Some v" if "objs w ?b k = Some v" for k v
  proof -
    have "\<not> prefix new k" using assms(2) that by (auto simp: below_def)
    with e(1) that show ?thesis by (metis prefixI)
  qed
  show ?thesis
  proof (cases r1)
    case (Inl x)
    with run cp have "w' = w1" by (simp add: io_simps)
    with old show ?thesis by (simp add: survives_def)
  next
    case (Inr u)
    then have "r1 = Inr ()" by simp
    note e2 = e(2) [OF this t(2) keys(2)]
    from Inr run cp have "deleteKeys api f keys w1 = (r, w')" by (simp add: io_simps)
    from deleteKeys_effect [OF this] obtain D where
      D: "D \<subseteq> set keys" "objs w' = del_objs (objs w1) ?b D" by blast
    have "objs w' ?b k = Some v \<or> objs w' ?b (mv k) = Some v" if k: "objs w ?b k = Some v" for k v
    proof (cases "k \<in> D")
      case False
      with old [OF k] D(2) show ?thesis by simp
    next
      case True
      with D(1) keys(1) have kk: "k \<in> set keys" "prefix old k" by auto
      have "mv k = new @ TrimPrefix k old" using mv [OF kk(2)] k kk(2) by (auto simp: TrimPrefix_def)
      moreover have "new @ TrimPrefix k old \<notin> D" using t(1) kk(1) D(1) by blast
      ultimately have "objs w' ?b (mv k) = Some v" using e2 kk(1) k D(2) by simp
      then show ?thesis ..
    qed
    then show ?thesis by (simp add: survives_def)
  qed
qed

text \<open>The three ways through a rename: it stops before any write, it moves one object, or a tree.\<close>

lemma Rename_cases:
  assumes "stable_name p" and run: "Rename api f p q w = Some (r, w')"
  defines "c \<equiv> CleanFTPPath p" and "c' \<equiv> CleanFTPPath q"
  obtains (stop) "objs w' = objs w"
  | (one) w2 where "objs w2 = objs w" "c \<noteq> c'" "objs w (bucket f) (FS_key f c) \<noteq> None"
      "andThen (copyKey api f (FS_key f c) (FS_key f c')) (\<lambda>u. removeKey api f (FS_key f c)) w2 = (r, w')"
  | (tree) keys w2 where "objs w2 = objs w" "objs w (bucket f) (FS_key f c) = None"
      "\<not> below (objs w (bucket f)) (FS_keyDir f c')" "distinct keys"
      "set keys = {k \<in> dom (objs w (bucket f)). prefix (FS_keyDir f c) k}"
      "andThen (copyKeys api f (FS_keyDir f c) (FS_keyDir f c') keys) (\<lambda>u. deleteKeys api f keys) w2 = (r, w')"
proof (cases "readOnly f \<or> c = c' \<or> c = [slash] \<or> c' = [slash]")
  case True
  with run have "w' = w" by (auto simp: Rename_def c_def c'_def Let_def io_simps split: if_splits)
  with stop show ?thesis by simp
next
  case False
  let ?d = "FS_keyDir f c" and ?d' = "FS_keyDir f c'"
  note run' = run [unfolded Rename_def Let_def, folded c_def c'_def]
  have cc: "CleanFTPPath c = c" using assms(1) by (simp add: c_def)
  have nr: "\<not> at_root f (CleanFTPPath c)"
    using stable_name_keys(3) [OF assms(1), folded c_def] False by (simp add: cc)
  obtain r1 w1 where st: "Stat api f c w = (r1, w1)" by fastforce
  have o1: "objs w1 = objs w" by (rule Stat_frame [OF st])
  obtain r2 w2 where ph: "prefixHasObjects api f ?d' w1 = (r2, w2)" by fastforce
  note ph' = prefixHasObjects_cases [OF ph]
  show ?thesis
  proof (cases "\<exists>info. r1 = Inr info \<and> r2 = Inr False \<and> (IsDir info \<longrightarrow> ?d \<noteq> [] \<and> \<not> prefix ?d ?d')")
    case no: False
    have "objs w' = objs w"
      using no run' False st ph ph'(1) o1
      by (cases r1; cases r2) (auto simp: io_simps split: if_splits)
    then show ?thesis by (rule stop)
  next
    case True
    then obtain info where info: "r1 = Inr info" and go: "r2 = Inr False" "IsDir info \<longrightarrow> ?d \<noteq> [] \<and> \<not> prefix ?d ?d'"
      by blast
    note isdir = Stat_isdir(1) [OF st [unfolded info] nr, unfolded cc]
    have o2: "objs w2 = objs w" and nb: "\<not> below (objs w (bucket f)) ?d'" using ph' o1 go by auto
    from ph go have ph1: "prefixHasObjects api f ?d' w1 = (Inr False, w2)" by simp
    then have ph2: "once (prefixHasObjects api f ?d') w1 = Some (Inr False, w2)" by (simp add: once_def)
    show ?thesis
    proof (cases "IsDir info")
      case True
      with run' False st info ph go
      have "landThen (listAllKeys api f ?d) (\<lambda>keys. once (andThen (copyKeys api f ?d ?d' keys)
          (\<lambda>u. deleteKeys api f keys))) w2 = Some (r, w')"
        by (simp add: io_simps landThen_apply(1) [of "once (prefixHasObjects api f ?d')" w1, OF ph2])
      then show ?thesis
      proof (cases rule: landThenE)
        case (err e)
        with listAllKeys_cases(1) o2 stop show ?thesis by metis
      next
        case (val keys w3)
        note l' = listAllKeys_cases [OF val(1)]
        from val(2) l' nb isdir True o2 show ?thesis by (intro tree [of w3 keys]) (auto simp: once_def)
      qed
    next
      case one': False
      with run' False st info ph go isdir o2 show ?thesis
        by (intro one [of w2]) (auto simp: io_simps andThen_apply(1) [of "prefixHasObjects api f ?d'" w1, OF ph1])
    qed
  qed
qed

lemma Rename_survives:
  assumes "stable_name p" "stable_name q" "slash \<notin> set (bucket f)"
    and "Rename api f p q w = Some (r, w')"
  defines "c \<equiv> CleanFTPPath p" and "c' \<equiv> CleanFTPPath q"
  shows "survives objs (bucket f) (renamed_key f c c')
    (if objs w (bucket f) (FS_key f c) = None then {} else {FS_key f c'}) w w'"
  using assms(1,4)
proof (cases rule: Rename_cases)
  case stop
  then show ?thesis by (simp add: survives_same)
next
  case (one w2)
  note one = one [folded c_def c'_def]
  have "FS_key f c \<noteq> FS_key f c'"
    using stable_name_inject [OF assms(1,2)] one(2) by (simp add: c_def c'_def)
  from rename_file_survives [OF assms(3) this _ one(4), of "renamed_key f c c'"] one(1,3)
  have "survives objs (bucket f) (renamed_key f c c') {FS_key f c'} w w'"
    by (simp add: renamed_key_def survives_def)
  with one(3) show ?thesis by (simp only: if_False)
next
  case (tree keys w2)
  note tree = tree [folded c_def c'_def]
  have "survives objs (bucket f) (renamed_key f c c') {} w2 w'"
    by (rule rename_dir_survives [OF assms(3) _ _ tree(4) _ tree(6), unfolded tree(1)])
      (use tree(2,3,5) in \<open>auto simp: renamed_key_def\<close>)
  with tree(1,2) show ?thesis by (simp add: survives_def)
qed

end

section \<open>Removing a directory\<close>

context s3_service
begin

lemma RemoveDir_only_marker:
  assumes "RemoveDir api f p w = (r, w')"
  shows "objs w' = objs w
    \<or> objs w' = upd_obj (objs w) (bucket f) (FS_keyDir f (CleanFTPPath p)) None"
proof (cases "readOnly f \<or> CleanFTPPath p = [slash]")
  case True
  with assms have "w' = w" by (auto simp: RemoveDir_def Let_def io_simps split: if_splits)
  then show ?thesis by simp
next
  case False
  let ?c = "CleanFTPPath p"
  let ?d = "FS_keyDir f ?c"
  obtain r1 w1 where st: "Stat api f ?c w = (r1, w1)" by fastforce
  obtain r2 w2 where l: "ListObjectsV2 api (list_request (bucket f) ?d None (Some 2) None) w1 = (r2, w2)"
    by fastforce
  obtain r3 w3 where d: "DeleteObject api (bucket f) ?d w2 = (r3, w3)" by fastforce
  have o: "objs w1 = objs w" "objs w2 = objs w"
    using Stat_frame [OF st] list_frame [OF l] by simp_all
  have "w' = w1 \<or> w' = w2 \<or> w' = w3"
    using assms False st l d
    by (cases r1; cases r2) (auto simp: RemoveDir_def Let_def io_simps split: if_splits)
  moreover have "objs w3 = objs w \<or> objs w3 = upd_obj (objs w) (bucket f) ?d None"
    using d o by (cases r3) (auto dest: delete_done delete_failed)
  ultimately show ?thesis using o by metis
qed

end

end
