(* ===== verification/Config.thy ===== *)
theory Config
  imports Go_Errors
begin

text \<open>
  \<^verbatim>\<open>src/internal/config/config.go\<close>: the configuration document, its defaults, the overrides
  from the environment, normalisation, validation, and the account lookups the driver
  uses. The file system, the YAML decoder, the environment, the Unicode case mapping and
  bcrypt are parameters; a Go \<^verbatim>\<open>int\<close> is a 64-bit integer.
\<close>

section \<open>The document\<close>

abbreviation (input) TLSModeOff :: string where "TLSModeOff \<equiv> ''off''"
abbreviation (input) TLSModeExplicit :: string where "TLSModeExplicit \<equiv> ''explicit''"
abbreviation (input) TLSModeRequired :: string where "TLSModeRequired \<equiv> ''required''"
abbreviation (input) TLSModeImplicit :: string where "TLSModeImplicit \<equiv> ''implicit''"

record FTPTLS =
  Mode :: string
  CertFile :: string
  KeyFile :: string
  MinVersion :: string

record FTPUser =
  Username :: string
  Password :: string
  PasswordHash :: string
  UserReadOnly :: bool
  UserBucket :: string
  UserRootPrefix :: string

record FTPConfig =
  ListenIP :: string
  Port :: int
  Banner :: string
  IdleTimeoutSeconds :: int
  ConnectionTimeoutSeconds :: int
  PublicHost :: string
  PassivePortRange :: string
  DisableActiveMode :: bool
  DisableIPMatch :: bool
  MaxClients :: int
  TLS :: FTPTLS
  Users :: "FTPUser list"

record S3Config =
  EndpointURL :: string
  Region :: string
  AccessKeyID :: string
  SecretAccessKey :: string
  SessionToken :: string
  Bucket :: string
  RootPrefix :: string
  ForcePathStyle :: bool
  InsecureSkipVerify :: bool
  CABundle :: string
  PartSizeMB :: int
  UploadConcurrency :: int
  CreateBucketIfMissing :: bool
  DirMarker :: bool

record LoggingConfig =
  Level :: string
  Format :: string
  Output :: string

record Config =
  FTP :: FTPConfig
  S3 :: S3Config
  Logging :: LoggingConfig

definition Default :: Config where
  "Default =
     \<lparr>FTP = \<lparr>ListenIP = ''0.0.0.0'', Port = 2121, Banner = ''s32ftp FTP-to-S3 gateway'',
             IdleTimeoutSeconds = 900, ConnectionTimeoutSeconds = 30, PublicHost = [],
             PassivePortRange = [], DisableActiveMode = False, DisableIPMatch = False,
             MaxClients = 0,
             TLS = \<lparr>Mode = TLSModeOff, CertFile = [], KeyFile = [], MinVersion = ''1.2''\<rparr>,
             Users = []\<rparr>,
      S3 = \<lparr>EndpointURL = [], Region = ''us-east-1'', AccessKeyID = [], SecretAccessKey = [],
            SessionToken = [], Bucket = [], RootPrefix = [], ForcePathStyle = True,
            InsecureSkipVerify = False, CABundle = [], PartSizeMB = 8, UploadConcurrency = 4,
            CreateBucketIfMissing = False, DirMarker = True\<rparr>,
      Logging = \<lparr>Level = ''info'', Format = ''text'', Output = ''stdout''\<rparr>\<rparr>"

section \<open>Normalisation\<close>

definition NormalizePrefix :: "string \<Rightarrow> string" where
  "NormalizePrefix p0 =
     (let p = Trim_char slash (TrimSpace p0) in if p = [] then [] else p @ [slash])"

definition normalize_user :: "FTPUser \<Rightarrow> FTPUser" where
  "normalize_user u =
     u\<lparr>Username := TrimSpace (Username u), UserRootPrefix := NormalizePrefix (UserRootPrefix u)\<rparr>"

definition normalize_ftp :: "(string \<Rightarrow> string) \<Rightarrow> FTPConfig \<Rightarrow> FTPConfig" where
  "normalize_ftp ulower c =
     (let m = ToLower ulower (TrimSpace (Mode (TLS c)))
      in c\<lparr>TLS := (TLS c)\<lparr>Mode := (if m = [] then TLSModeOff else m)\<rparr>,
           Users := map normalize_user (Users c)\<rparr>)"

definition normalize_s3 :: "S3Config \<Rightarrow> S3Config" where
  "normalize_s3 c =
     c\<lparr>PartSizeMB := (if PartSizeMB c = 0 then 8 else PartSizeMB c),
       UploadConcurrency := (if UploadConcurrency c = 0 then 4 else UploadConcurrency c),
       Region := (if Region c = [] then ''us-east-1'' else Region c),
       RootPrefix := NormalizePrefix (RootPrefix c)\<rparr>"

definition normalize_logging :: "(string \<Rightarrow> string) \<Rightarrow> LoggingConfig \<Rightarrow> LoggingConfig" where
  "normalize_logging ulower c =
     c\<lparr>Level := ToLower ulower (TrimSpace (Level c)),
       Format := ToLower ulower (TrimSpace (Format c)),
       Output := TrimSpace (Output c)\<rparr>"

definition normalize :: "(string \<Rightarrow> string) \<Rightarrow> Config \<Rightarrow> Config" where
  "normalize ulower c =
     \<lparr>FTP = normalize_ftp ulower (FTP c), S3 = normalize_s3 (S3 c),
      Logging = normalize_logging ulower (Logging c)\<rparr>"

section \<open>Environment overrides\<close>

type_synonym env = "string \<Rightarrow> string option"

definition setString :: "env \<Rightarrow> string \<Rightarrow> string \<Rightarrow> string" where
  "setString env key dst = (case env key of Some v \<Rightarrow> v | None \<Rightarrow> dst)"

definition setInt :: "env \<Rightarrow> string \<Rightarrow> int \<Rightarrow> int" where
  "setInt env key dst =
     (case env key of
        Some v \<Rightarrow> (case Atoi (TrimSpace v) of Some n \<Rightarrow> n | None \<Rightarrow> dst)
      | None \<Rightarrow> dst)"

definition setBool :: "env \<Rightarrow> string \<Rightarrow> bool \<Rightarrow> error + bool" where
  "setBool env key dst =
     (case env key of
        None \<Rightarrow> Inr dst
      | Some v \<Rightarrow>
          (case ParseBool (TrimSpace v) of
             None \<Rightarrow> Inl (Wrapped ''env %s: %w'' [key]
                       (Message ''strconv.ParseBool: parsing %q: invalid syntax'' [TrimSpace v]))
           | Some b \<Rightarrow> Inr b))"

definition bind_err :: "error + 'a \<Rightarrow> ('a \<Rightarrow> error + 'b) \<Rightarrow> error + 'b" where
  "bind_err r f = (case r of Inl e \<Rightarrow> Inl e | Inr x \<Rightarrow> f x)"

definition applyEnv_ftp :: "env \<Rightarrow> FTPConfig \<Rightarrow> FTPConfig" where
  "applyEnv_ftp env c =
     c\<lparr>ListenIP := setString env ''S32FTP_FTP_LISTEN_IP'' (ListenIP c),
       Port := setInt env ''S32FTP_FTP_PORT'' (Port c),
       Banner := setString env ''S32FTP_FTP_BANNER'' (Banner c),
       PublicHost := setString env ''S32FTP_FTP_PUBLIC_HOST'' (PublicHost c),
       PassivePortRange := setString env ''S32FTP_FTP_PASSIVE_PORT_RANGE'' (PassivePortRange c),
       MaxClients := setInt env ''S32FTP_FTP_MAX_CLIENTS'' (MaxClients c),
       TLS := (TLS c)
         \<lparr>Mode := setString env ''S32FTP_FTP_TLS_MODE'' (Mode (TLS c)),
          CertFile := setString env ''S32FTP_FTP_TLS_CERT_FILE'' (CertFile (TLS c)),
          KeyFile := setString env ''S32FTP_FTP_TLS_KEY_FILE'' (KeyFile (TLS c))\<rparr>\<rparr>"

definition applyEnv_s3 :: "env \<Rightarrow> S3Config \<Rightarrow> error + S3Config" where
  "applyEnv_s3 env c =
     bind_err (setBool env ''S32FTP_S3_FORCE_PATH_STYLE'' (ForcePathStyle c)) (\<lambda>fps.
     bind_err (setBool env ''S32FTP_S3_INSECURE_SKIP_VERIFY'' (InsecureSkipVerify c)) (\<lambda>isv.
     bind_err (setBool env ''S32FTP_S3_CREATE_BUCKET_IF_MISSING'' (CreateBucketIfMissing c)) (\<lambda>cbm.
     bind_err (setBool env ''S32FTP_S3_DIR_MARKER'' (DirMarker c)) (\<lambda>dm.
       Inr (c\<lparr>EndpointURL := setString env ''S32FTP_S3_ENDPOINT_URL'' (EndpointURL c),
              Region := setString env ''S32FTP_S3_REGION'' (Region c),
              AccessKeyID := setString env ''S32FTP_S3_ACCESS_KEY_ID'' (AccessKeyID c),
              SecretAccessKey := setString env ''S32FTP_S3_SECRET_ACCESS_KEY'' (SecretAccessKey c),
              SessionToken := setString env ''S32FTP_S3_SESSION_TOKEN'' (SessionToken c),
              Bucket := setString env ''S32FTP_S3_BUCKET'' (Bucket c),
              RootPrefix := setString env ''S32FTP_S3_ROOT_PREFIX'' (RootPrefix c),
              ForcePathStyle := fps, InsecureSkipVerify := isv,
              CABundle := setString env ''S32FTP_S3_CA_BUNDLE'' (CABundle c),
              PartSizeMB := setInt env ''S32FTP_S3_PART_SIZE_MB'' (PartSizeMB c),
              UploadConcurrency := setInt env ''S32FTP_S3_UPLOAD_CONCURRENCY'' (UploadConcurrency c),
              CreateBucketIfMissing := cbm, DirMarker := dm\<rparr>)))))"

definition applyEnv_logging :: "env \<Rightarrow> LoggingConfig \<Rightarrow> LoggingConfig" where
  "applyEnv_logging env c =
     c\<lparr>Level := setString env ''S32FTP_LOG_LEVEL'' (Level c),
       Format := setString env ''S32FTP_LOG_FORMAT'' (Format c),
       Output := setString env ''S32FTP_LOG_OUTPUT'' (Output c)\<rparr>"

text \<open>The first failing flag ends it; the document is then dropped by the caller.\<close>

definition applyEnv :: "env \<Rightarrow> Config \<Rightarrow> error + Config" where
  "applyEnv env c =
     bind_err (applyEnv_s3 env (S3 c)) (\<lambda>s3.
       Inr \<lparr>FTP = applyEnv_ftp env (FTP c), S3 = s3, Logging = applyEnv_logging env (Logging c)\<rparr>)"

section \<open>Validation\<close>

definition TLSEnabled :: "FTPConfig \<Rightarrow> bool" where
  "TLSEnabled c =
     (if Mode (TLS c) = [] \<or> Mode (TLS c) = TLSModeOff
      then CertFile (TLS c) \<noteq> [] \<and> KeyFile (TLS c) \<noteq> []
      else True)"

definition ParsePassivePortRange :: "FTPConfig \<Rightarrow> error + (int \<times> int) option" where
  "ParsePassivePortRange c =
     (let raw = TrimSpace (PassivePortRange c)
      in if raw = [] then Inr None
         else (case SplitN2 CHR ''-'' raw of
                 [a, b] \<Rightarrow>
                   (case Atoi (TrimSpace a) of
                      None \<Rightarrow> Inl (Message ''invalid start port in %q'' [raw])
                    | Some start \<Rightarrow>
                        (case Atoi (TrimSpace b) of
                           None \<Rightarrow> Inl (Message ''invalid end port in %q'' [raw])
                         | Some fin \<Rightarrow>
                             if start < 1 \<or> fin > 65535 \<or> start > fin
                             then Inl (Message ''invalid port range %q'' [raw])
                             else Inr (Some (start, fin))))
               | _ \<Rightarrow> Inl (Message ''expected format start-end, got %q'' [raw])))"

fun validate_users :: "nat \<Rightarrow> string list \<Rightarrow> FTPUser list \<Rightarrow> error option" where
  "validate_users i seen [] = None"
| "validate_users i seen (u # us) =
     (if Username u = [] then Some (Message ''ftp.users[%d].username is empty'' [Itoa (int i)])
      else if Username u \<in> set seen
      then Some (Message ''ftp.users[%d].username %q is duplicated'' [Itoa (int i), Username u])
      else if Password u = [] \<and> PasswordHash u = []
      then Some (Message ''ftp.users[%d] (%s): password or password_hash is required''
                  [Itoa (int i), Username u])
      else validate_users (Suc i) (Username u # seen) us)"

definition Validate :: "Config \<Rightarrow> error option" where
  "Validate c =
     (let f = FTP c; s = S3 c; l = Logging c
      in if Port f < 0 \<or> Port f > 65535 then Some (Message ''ftp.port %d out of range'' [Itoa (Port f)])
         else if ListenIP f \<noteq> [] \<and> CHR '':'' \<in> set (ListenIP f)
         then Some (Message ''ftp.listen_ip must not contain a port: %q'' [ListenIP f])
         else if TLSEnabled f \<and> (CertFile (TLS f) = [] \<or> KeyFile (TLS f) = [])
         then Some (Message ''ftp.tls.mode %q requires cert_file and key_file'' [Mode (TLS f)])
         else if Mode (TLS f) \<notin> set [TLSModeOff, TLSModeExplicit, TLSModeRequired, TLSModeImplicit]
         then Some (Message ''ftp.tls.mode %q is invalid (off|explicit|required|implicit)'' [Mode (TLS f)])
         else (case ParsePassivePortRange f of
                 Inl e \<Rightarrow> Some (Wrapped ''ftp.passive_port_range: %w'' [] e)
               | Inr r \<Rightarrow>
                   if Bucket s = [] then Some (Message ''s3.bucket is required'' [])
                   else if (AccessKeyID s = []) \<noteq> (SecretAccessKey s = [])
                   then Some (Message ''s3.access_key_id and s3.secret_access_key must both be set or both empty'' [])
                   else if PartSizeMB s < 5
                   then Some (Message ''s3.part_size_mb must be >= 5, got %d'' [Itoa (PartSizeMB s)])
                   else if UploadConcurrency s < 1
                   then Some (Message ''s3.upload_concurrency must be >= 1'' [])
                   else if Users f = []
                   then Some (Message ''ftp.users must contain at least one account'' [])
                   else (case validate_users 0 [] (Users f) of
                           Some e \<Rightarrow> Some e
                         | None \<Rightarrow>
                             if Level l \<notin> set [[], ''debug'', ''info'', ''warn'', ''warning'', ''error'']
                             then Some (Message ''logging.level %q is invalid'' [Level l])
                             else if Format l \<notin> set [[], ''text'', ''json'']
                             then Some (Message ''logging.format %q is invalid'' [Format l])
                             else None)))"

section \<open>Loading\<close>

definition Load ::
  "(string \<Rightarrow> error + bytes) \<Rightarrow> (bytes \<Rightarrow> Config \<Rightarrow> error + Config) \<Rightarrow> env \<Rightarrow> (string \<Rightarrow> string) \<Rightarrow>
     string \<Rightarrow> error + Config" where
  "Load readFile yaml env ulower path =
     bind_err
       (if path \<noteq> [] then
          (case readFile path of
             Inl e \<Rightarrow> Inl (Wrapped ''read config %q: %w'' [path] e)
           | Inr data \<Rightarrow>
               (case yaml data Default of
                  Inl e \<Rightarrow> Inl (Wrapped ''parse config %q: %w'' [path] e)
                | Inr c \<Rightarrow> Inr c))
        else Inr Default) (\<lambda>c.
     bind_err (applyEnv env (normalize ulower c)) (\<lambda>c'.
       let c'' = normalize ulower c'
       in case Validate c'' of Some e \<Rightarrow> Inl e | None \<Rightarrow> Inr c''))"

section \<open>Lookups\<close>

definition second_ns :: int where
  "second_ns = 1000000000"

definition IdleTimeout :: "FTPConfig \<Rightarrow> int" where
  "IdleTimeout c = wrap64 (IdleTimeoutSeconds c * second_ns)"

definition ConnectionTimeout :: "FTPConfig \<Rightarrow> int" where
  "ConnectionTimeout c = wrap64 (ConnectionTimeoutSeconds c * second_ns)"

definition LookupUser :: "Config \<Rightarrow> string \<Rightarrow> FTPUser option" where
  "LookupUser c username = find (\<lambda>u. Username u = username) (Users (FTP c))"

text \<open>\<^verbatim>\<open>bcrypt\<close> is a parameter: comparing a hash with a password, and hashing.\<close>

definition CheckPassword :: "(string \<Rightarrow> string \<Rightarrow> bool) \<Rightarrow> FTPUser \<Rightarrow> string \<Rightarrow> bool" where
  "CheckPassword bcryptOk u password =
     (if PasswordHash u \<noteq> [] then bcryptOk (PasswordHash u) password else Password u = password)"

definition HashPassword :: "(string \<Rightarrow> error + string) \<Rightarrow> string \<Rightarrow> error + string" where
  "HashPassword bcryptGen password = bcryptGen password"

section \<open>Normalised prefixes\<close>

text \<open>A prefix that stands for a directory: empty, or slash-terminated and not rooted.\<close>

definition dir_prefix :: "string \<Rightarrow> bool" where
  "dir_prefix p \<longleftrightarrow> p = [] \<or> (\<exists>q. p = q @ [slash] \<and> q \<noteq> [] \<and> hd q \<noteq> slash \<and> last q \<noteq> slash)"

lemma NormalizePrefix_dir: "dir_prefix (NormalizePrefix p)"
proof -
  let ?q = "Trim_char slash (TrimSpace p)"
  have "?q \<noteq> [] \<Longrightarrow> hd ?q \<noteq> slash \<and> last ?q \<noteq> slash"
    using Trim_char_hd Trim_char_last by blast
  then show ?thesis by (auto simp: NormalizePrefix_def dir_prefix_def Let_def)
qed

lemma Trim_char_snoc: "q \<noteq> [] \<Longrightarrow> hd q \<noteq> c \<Longrightarrow> last q \<noteq> c \<Longrightarrow> Trim_char c (q @ [c]) = q"
proof -
  assume q: "q \<noteq> []" "hd q \<noteq> c" "last q \<noteq> c"
  then have "dropWhile (\<lambda>x. x = c) (q @ [c]) = q @ [c]" by (intro dropWhile_hd_id) simp
  moreover have "dropWhile (\<lambda>x. x = c) (rev q) = rev q" using q by (intro dropWhile_hd_id) (simp add: hd_rev)
  ultimately show ?thesis by (simp add: Trim_char_def)
qed

lemma NormalizePrefix_id:
  assumes "dir_prefix p" "\<not> starts_space p"
  shows "NormalizePrefix p = p"
proof (cases "p = []")
  case True
  then show ?thesis by (simp add: NormalizePrefix_def TrimSpace_id Trim_char_def)
next
  case False
  with assms(1) obtain q where q: "p = q @ [slash]" "q \<noteq> []" "hd q \<noteq> slash" "last q \<noteq> slash"
    by (auto simp: dir_prefix_def)
  then have "TrimSpace p = p" using assms(2) by (intro TrimSpace_id) simp_all
  with q show ?thesis by (simp add: NormalizePrefix_def Trim_char_snoc Let_def)
qed

section \<open>What a validated document guarantees\<close>

definition user_ok :: "FTPUser \<Rightarrow> bool" where
  "user_ok u \<longleftrightarrow> Username u \<noteq> [] \<and> (Password u \<noteq> [] \<or> PasswordHash u \<noteq> [])"

lemma validate_users_None:
  "validate_users i seen us = None \<longleftrightarrow>
     list_all user_ok us \<and> distinct (map Username us) \<and> set (map Username us) \<inter> set seen = {}"
  by (induction i seen us rule: validate_users.induct) (auto simp: user_ok_def)

lemma ParsePassivePortRange_range:
  "ParsePassivePortRange c = Inr (Some (a, b)) \<Longrightarrow> 1 \<le> a \<and> a \<le> b \<and> b \<le> 65535"
  by (auto simp: ParsePassivePortRange_def Let_def SplitN2_def split: if_splits option.splits)

definition config_ok :: "Config \<Rightarrow> bool" where
  "config_ok c \<longleftrightarrow>
     0 \<le> Port (FTP c) \<and> Port (FTP c) \<le> 65535 \<and> CHR '':'' \<notin> set (ListenIP (FTP c))
     \<and> Mode (TLS (FTP c)) \<in> set [TLSModeOff, TLSModeExplicit, TLSModeRequired, TLSModeImplicit]
     \<and> (Mode (TLS (FTP c)) \<noteq> TLSModeOff \<longrightarrow> CertFile (TLS (FTP c)) \<noteq> [] \<and> KeyFile (TLS (FTP c)) \<noteq> [])
     \<and> (\<exists>r. ParsePassivePortRange (FTP c) = Inr r)
     \<and> Bucket (S3 c) \<noteq> [] \<and> (AccessKeyID (S3 c) = [] \<longleftrightarrow> SecretAccessKey (S3 c) = [])
     \<and> 5 \<le> PartSizeMB (S3 c) \<and> 1 \<le> UploadConcurrency (S3 c)
     \<and> Users (FTP c) \<noteq> [] \<and> list_all user_ok (Users (FTP c)) \<and> distinct (map Username (Users (FTP c)))
     \<and> Level (Logging c) \<in> set [[], ''debug'', ''info'', ''warn'', ''warning'', ''error'']
     \<and> Format (Logging c) \<in> set [[], ''text'', ''json'']"

lemma Validate_iff: "Validate c = None \<longleftrightarrow> config_ok c"
proof (cases "ParsePassivePortRange (FTP c)")
  case (Inl e)
  then show ?thesis by (auto simp: Validate_def config_ok_def Let_def)
next
  case (Inr r)
  have u: "validate_users 0 [] (Users (FTP c)) = None \<longleftrightarrow>
      list_all user_ok (Users (FTP c)) \<and> distinct (map Username (Users (FTP c)))"
    by (simp add: validate_users_None)
  have t: "(TLSEnabled (FTP c) \<and> (CertFile (TLS (FTP c)) = [] \<or> KeyFile (TLS (FTP c)) = [])) \<longleftrightarrow>
      Mode (TLS (FTP c)) \<noteq> [] \<and> Mode (TLS (FTP c)) \<noteq> TLSModeOff
        \<and> (CertFile (TLS (FTP c)) = [] \<or> KeyFile (TLS (FTP c)) = [])"
    by (auto simp: TLSEnabled_def)
  show ?thesis
    unfolding Validate_def config_ok_def Let_def t Inr
    by (cases "validate_users 0 [] (Users (FTP c))") (use u in \<open>auto split: if_splits\<close>)
qed

text \<open>What normalisation leaves.\<close>

definition normal_form :: "Config \<Rightarrow> bool" where
  "normal_form c \<longleftrightarrow> dir_prefix (RootPrefix (S3 c)) \<and> Region (S3 c) \<noteq> []
     \<and> (\<forall>u \<in> set (Users (FTP c)). dir_prefix (UserRootPrefix u) \<and> TrimSpace (Username u) = Username u)"

lemma normalize_normal: "normal_form (normalize ulower c)"
  by (auto simp: normal_form_def normalize_def normalize_s3_def normalize_ftp_def Let_def
      normalize_user_def NormalizePrefix_dir)

lemma bind_err_Inr: "bind_err r f = Inr y \<longleftrightarrow> (\<exists>x. r = Inr x \<and> f x = Inr y)"
  by (auto simp: bind_err_def split: sum.splits)

lemma Load_steps:
  assumes "Load readFile yaml env ulower path = Inr c"
  obtains c0 c1 where "path = [] \<and> c0 = Default \<or> (\<exists>data. readFile path = Inr data \<and> yaml data Default = Inr c0)"
    "applyEnv env (normalize ulower c0) = Inr c1" "c = normalize ulower c1" "Validate c = None"
  using assms by (auto simp: Load_def bind_err_Inr Let_def split: if_splits sum.splits option.splits)

lemma Load_good: "Load readFile yaml env ulower path = Inr c \<Longrightarrow> config_ok c \<and> normal_form c"
  by (elim Load_steps) (simp add: Validate_iff normalize_normal)

text \<open>An environment variable overrides the file for the bucket and the credentials.\<close>

lemma applyEnv_s3_fields:
  assumes "applyEnv env c = Inr c'"
  shows "Bucket (S3 c') = setString env ''S32FTP_S3_BUCKET'' (Bucket (S3 c))"
    "AccessKeyID (S3 c') = setString env ''S32FTP_S3_ACCESS_KEY_ID'' (AccessKeyID (S3 c))"
    "SecretAccessKey (S3 c') = setString env ''S32FTP_S3_SECRET_ACCESS_KEY'' (SecretAccessKey (S3 c))"
    "Port (FTP c') = setInt env ''S32FTP_FTP_PORT'' (Port (FTP c))"
    "Users (FTP c') = Users (FTP c)"
  using assms
  by (auto simp: applyEnv_def applyEnv_s3_def applyEnv_ftp_def bind_err_Inr)

section \<open>Accounts\<close>

lemma LookupUser_map_of:
  "LookupUser c n = map_of (map (\<lambda>u. (Username u, u)) (Users (FTP c))) n"
proof -
  have "find (\<lambda>u. Username u = n) us = map_of (map (\<lambda>u. (Username u, u)) us) n" for us
    by (induction us) auto
  then show ?thesis by (simp add: LookupUser_def)
qed

lemma LookupUser_Some:
  assumes "distinct (map Username (Users (FTP c)))"
  shows "LookupUser c n = Some u \<longleftrightarrow> u \<in> set (Users (FTP c)) \<and> Username u = n"
proof -
  have "find (\<lambda>u. Username u = n) us = Some u \<longleftrightarrow> u \<in> set us \<and> Username u = n"
    if "distinct (map Username us)" for us
    using that by (induction us) auto
  with assms show ?thesis by (simp add: LookupUser_def)
qed

section \<open>Port ranges\<close>

lemma show_nat_digits: "c \<in> set (show_nat n) \<Longrightarrow> digit_val c \<noteq> None"
proof (induction n rule: show_nat.induct)
  case (1 n)
  have "digit_val (digit_char k) \<noteq> None" if "k < 10" for k using that by simp
  with 1 show ?case by (cases "n < 10") (auto simp: show_nat.simps [of n])
qed

lemma no_digit_space: "\<forall>e \<in> set go_spaces. digit_val (hd e) = None \<and> digit_val (last e) = None"
  by (simp add: go_spaces_def digit_val_def)

lemma digit_not_space:
  assumes "s \<noteq> []"
  shows "digit_val (hd s) \<noteq> None \<Longrightarrow> \<not> starts_space s" and "digit_val (last s) \<noteq> None \<Longrightarrow> \<not> ends_space s"
proof -
  show "\<not> starts_space s" if "digit_val (hd s) \<noteq> None"
  proof
    assume "starts_space s"
    then obtain e where "e \<in> set go_spaces" "e \<noteq> []" "prefix e s"
      by (auto simp: starts_space_def dest: match_at_SomeD)
    then have "hd e = hd s" by (metis hd_append2 prefix_def)
    with \<open>e \<in> set go_spaces\<close> that no_digit_space show False by metis
  qed
  show "\<not> ends_space s" if "digit_val (last s) \<noteq> None"
  proof
    assume "ends_space s"
    then obtain e where e: "e \<in> set (map rev go_spaces)" "e \<noteq> []" "prefix e (rev s)"
      unfolding ends_space_def by (metis match_at_SomeD not_None_eq)
    then obtain g where g: "g \<in> set go_spaces" "e = rev g" by auto
    from e(2,3) have "hd e = hd (rev s)" by (metis hd_append2 prefix_def)
    then have "last g = last s" using e(2) g(2) assms by (simp add: hd_rev)
    with g(1) that no_digit_space show False by metis
  qed
qed

lemma TrimSpace_digits: "s \<noteq> [] \<Longrightarrow> digit_val (hd s) \<noteq> None \<Longrightarrow> digit_val (last s) \<noteq> None \<Longrightarrow> TrimSpace s = s"
  by (simp add: TrimSpace_id digit_not_space)

lemma dash_not_digit: "digit_val CHR ''-'' = None"
  by (simp add: digit_val_def)

text \<open>Every admissible range, printed, is read back.\<close>

lemma ParsePassivePortRange_print:
  assumes "1 \<le> a" "a \<le> b" "b \<le> 65535"
  shows "ParsePassivePortRange (c\<lparr>PassivePortRange := Itoa a @ CHR ''-'' # Itoa b\<rparr>) = Inr (Some (a, b))"
proof -
  have ab: "Itoa a = show_nat (nat a)" "Itoa b = show_nat (nat b)" using assms by (simp_all add: Itoa_def)
  have d: "digit_val (hd (show_nat n)) \<noteq> None" "digit_val (last (show_nat n)) \<noteq> None" for n
    using show_nat_digits [of "hd (show_nat n)" n] show_nat_digits [of "last (show_nat n)" n] by simp_all
  have t: "TrimSpace (Itoa a) = Itoa a" "TrimSpace (Itoa b) = Itoa b"
      "TrimSpace (Itoa a @ CHR ''-'' # Itoa b) = Itoa a @ CHR ''-'' # Itoa b"
    using d by (simp_all add: ab TrimSpace_digits)
  have nd: "CHR ''-'' \<notin> set (Itoa a)"
    using show_nat_digits [of "CHR ''-''" "nat a"] dash_not_digit by (auto simp: ab)
  then have sp: "SplitN2 CHR ''-'' (Itoa a @ CHR ''-'' # Itoa b) = [Itoa a, Itoa b]"
    by (simp add: SplitN2_def takeWhile_append dropWhile_append)
  have at: "Atoi (Itoa a) = Some a" "Atoi (Itoa b) = Some b"
    using assms by (simp_all add: Atoi_Itoa in_int64_def)
  show ?thesis using assms t sp at by (simp add: ParsePassivePortRange_def Let_def)
qed

section \<open>Durations\<close>

lemma seconds_in_range: "\<bar>n\<bar> \<le> 9223372036 \<Longrightarrow> in_int64 (n * second_ns)"
  by (simp add: in_int64_def second_ns_def abs_le_iff)

lemma timeout_exact:
  "\<bar>IdleTimeoutSeconds c\<bar> \<le> 9223372036 \<Longrightarrow> IdleTimeout c = IdleTimeoutSeconds c * second_ns"
  "\<bar>ConnectionTimeoutSeconds c\<bar> \<le> 9223372036 \<Longrightarrow> ConnectionTimeout c = ConnectionTimeoutSeconds c * second_ns"
  by (simp_all add: IdleTimeout_def ConnectionTimeout_def seconds_in_range)

end
