(* ===== verification/Logging.thy ===== *)
theory Logging
  imports Config
begin

text \<open>
  \<^verbatim>\<open>src/internal/logging/logging.go\<close>: building the logger from its section of the
  configuration. Opening a log file is a parameter.
\<close>

abbreviation (input) LevelDebug :: int where "LevelDebug \<equiv> -4"
abbreviation (input) LevelInfo :: int where "LevelInfo \<equiv> 0"
abbreviation (input) LevelWarn :: int where "LevelWarn \<equiv> 4"
abbreviation (input) LevelError :: int where "LevelError \<equiv> 8"

definition parseLevel :: "(string \<Rightarrow> string) \<Rightarrow> string \<Rightarrow> error + int" where
  "parseLevel ulower level =
     (let l = ToLower ulower (TrimSpace level)
      in if l \<in> set [[], ''info''] then Inr LevelInfo
         else if l = ''debug'' then Inr LevelDebug
         else if l \<in> set [''warn'', ''warning''] then Inr LevelWarn
         else if l = ''error'' then Inr LevelError
         else Inl (Message ''invalid log level %q'' [level]))"

datatype 'f log_writer = Stdout | Stderr | LogFile 'f

record 'f logger =
  lg_writer :: "'f log_writer"
  lg_level :: int
  lg_json :: bool

text \<open>The logger and the file to close at the end, if one was opened.\<close>

definition New_logger ::
  "(string \<Rightarrow> error + 'f) \<Rightarrow> (string \<Rightarrow> string) \<Rightarrow> LoggingConfig \<Rightarrow> error + 'f logger \<times> 'f option" where
  "New_logger openFile ulower cfg =
     (case parseLevel ulower (Level cfg) of
        Inl e \<Rightarrow> Inl e
      | Inr level \<Rightarrow>
          (let out = ToLower ulower (TrimSpace (Output cfg));
               json = EqualFold (Format cfg) ''json'';
               build = (\<lambda>w closer. Inr (\<lparr>lg_writer = w, lg_level = level, lg_json = json\<rparr>, closer))
           in if out \<in> set [[], ''stdout''] then build Stdout None
              else if out = ''stderr'' then build Stderr None
              else (case openFile (Output cfg) of
                      Inl e \<Rightarrow> Inl (Wrapped ''open log file %q: %w'' [Output cfg] e)
                    | Inr f \<Rightarrow> build (LogFile f) (Some f))))"

section \<open>Agreement with the validation of the configuration\<close>

lemma levels_plain:
  "list_all (\<lambda>l. TrimSpace l = l \<and> list_all ascii l \<and> map lower_char l = l)
     [[], ''debug'', ''info'', ''warn'', ''warning'', ''error'']"
  by code_simp

lemma lower_valid:
  assumes "l \<in> set [[], ''debug'', ''info'', ''warn'', ''warning'', ''error'']"
  shows "ToLower ulower (TrimSpace l) = l"
proof -
  from levels_plain [unfolded list_all_iff] assms
  have "TrimSpace l = l \<and> list_all ascii l \<and> map lower_char l = l"
    unfolding list_all_iff by blast
  then show ?thesis by (simp add: ToLower_def)
qed

text \<open>A level the validation accepts is a level the logger accepts, and only those.\<close>

lemma parseLevel_accepts:
  "(\<exists>n. parseLevel ulower l = Inr n) \<longleftrightarrow>
     ToLower ulower (TrimSpace l) \<in> set [[], ''debug'', ''info'', ''warn'', ''warning'', ''error'']"
  by (auto simp: parseLevel_def Let_def)

end
