(* ===== verification/Backend.thy ===== *)
theory Backend
  imports S3_Api "HOL-Library.Word"
begin

text \<open>
  \<^verbatim>\<open>src/internal/s3fs/backend.go\<close>: the options of the shared S3 client, the checks its
  constructor makes, and the creation of a missing bucket. (The error classification of
  that file is in \<open>Go_Errors\<close>.) Files, certificates and the SDK's configuration loader
  are parameters.
\<close>

record ClientOptions =
  opt_EndpointURL :: string
  opt_Region :: string
  opt_AccessKeyID :: string
  opt_SecretAccessKey :: string
  opt_SessionToken :: string
  opt_ForcePathStyle :: bool
  opt_InsecureSkipVerify :: bool
  opt_CABundle :: string
  opt_PartSizeBytes :: int
  opt_UploadConcurrency :: int

text \<open>
  \<^verbatim>\<open>tls.Config\<close> of the transport: the minimum version, whether verification is skipped, and the
  certificate pool if one is set; \<^verbatim>\<open>None\<close> in \<open>hc_tls\<close> leaves the default transport's settings.
\<close>

record 'p http_tls =
  tls_MinVersion :: "16 word"
  tls_SkipVerify :: bool
  tls_RootCAs :: "'p option"

record 'p http_client =
  hc_tls :: "'p http_tls option"

text \<open>What the constructor reads from outside: files, certificate pools, the SDK.\<close>

record ('cfg, 'p) sdk =
  sdk_ReadFile :: "string \<Rightarrow> error + bytes"
  sdk_HasTransport :: bool                  \<comment> \<open>the default transport is a \<^verbatim>\<open>*http.Transport\<close>\<close>
  sdk_SystemCertPool :: "error + 'p option"
  sdk_NewCertPool :: 'p
  sdk_AppendCerts :: "'p \<Rightarrow> bytes \<Rightarrow> bool \<times> 'p"
  sdk_LoadDefaultConfig ::
    "string \<Rightarrow> 'p http_client \<Rightarrow> (string \<times> string \<times> string) option \<Rightarrow> error + 'cfg"
  sdk_MinUploadPartSize :: int

definition newHTTPClient :: "('cfg, 'p) sdk \<Rightarrow> ClientOptions \<Rightarrow> error + 'p http_client" where
  "newHTTPClient sdk opts =
     (if \<not> sdk_HasTransport sdk then Inr \<lparr>hc_tls = None\<rparr>
      else if opt_InsecureSkipVerify opts \<or> opt_CABundle opts \<noteq> [] then
        (let cfg = \<lparr>tls_MinVersion = 0x0303, tls_SkipVerify = opt_InsecureSkipVerify opts, tls_RootCAs = None\<rparr>
         in if opt_CABundle opts \<noteq> [] then
              (case sdk_ReadFile sdk (opt_CABundle opts) of
                 Inl e \<Rightarrow> Inl (Wrapped ''read ca_bundle %q: %w'' [opt_CABundle opts] e)
               | Inr pem \<Rightarrow>
                   (let pool = (case sdk_SystemCertPool sdk of Inr (Some p) \<Rightarrow> p | _ \<Rightarrow> sdk_NewCertPool sdk)
                    in case sdk_AppendCerts sdk pool pem of
                         (ok, pool') \<Rightarrow>
                           if \<not> ok
                           then Inl (Message ''ca_bundle %q contains no usable certificates'' [opt_CABundle opts])
                           else Inr \<lparr>hc_tls = Some (cfg\<lparr>tls_RootCAs := Some pool'\<rparr>)\<rparr>))
            else Inr \<lparr>hc_tls = Some cfg\<rparr>)
      else Inr \<lparr>hc_tls = None\<rparr>)"

record 'cfg Client =
  cl_config :: 'cfg
  cl_UsePathStyle :: bool
  cl_BaseEndpoint :: "string option"
  cl_PartSize :: int
  cl_Concurrency :: int
  cl_LeavePartsOnError :: bool

definition credentials_of :: "ClientOptions \<Rightarrow> error + (string \<times> string \<times> string) option" where
  "credentials_of opts =
     (if opt_AccessKeyID opts \<noteq> [] \<and> opt_SecretAccessKey opts \<noteq> []
      then Inr (Some (opt_AccessKeyID opts, opt_SecretAccessKey opts, opt_SessionToken opts))
      else if opt_SessionToken opts \<noteq> []
      then Inl (Message ''s3.session_token requires access_key_id and secret_access_key'' [])
      else Inr None)"

definition NewClient :: "('cfg, 'p) sdk \<Rightarrow> ClientOptions \<Rightarrow> error + 'cfg Client" where
  "NewClient sdk opts =
     (case newHTTPClient sdk opts of
        Inl e \<Rightarrow> Inl e
      | Inr http \<Rightarrow>
          (case credentials_of opts of
             Inl e \<Rightarrow> Inl e
           | Inr creds \<Rightarrow>
               (case sdk_LoadDefaultConfig sdk (opt_Region opts) http creds of
                  Inl e \<Rightarrow> Inl (Wrapped ''load aws config: %w'' [] e)
                | Inr cfg \<Rightarrow>
                    (let partSize = (if opt_PartSizeBytes opts \<le> 0 then 8 * 1024 * 1024 else opt_PartSizeBytes opts);
                         concurrency = (if opt_UploadConcurrency opts < 1 then 4 else opt_UploadConcurrency opts)
                     in if partSize < sdk_MinUploadPartSize sdk
                        then Inl (Message ''part size %d is below the S3 minimum of %d bytes''
                               [Itoa partSize, Itoa (sdk_MinUploadPartSize sdk)])
                        else Inr \<lparr>cl_config = cfg, cl_UsePathStyle = opt_ForcePathStyle opts,
                                  cl_BaseEndpoint = (if opt_EndpointURL opts \<noteq> [] then Some (opt_EndpointURL opts) else None),
                                  cl_PartSize = partSize, cl_Concurrency = concurrency,
                                  cl_LeavePartsOnError = False\<rparr>))))"

definition EnsureBucket :: "('w, 'b) s3api \<Rightarrow> string \<Rightarrow> ('w, unit) io" where
  "EnsureBucket api b =
     attempt (HeadBucket api b) (\<lambda>r.
       case r of
         Inr u \<Rightarrow> ret ()
       | Inl err \<Rightarrow>
           if \<not> isNotFound (Some err) then throw (Wrapped ''head bucket %q: %w'' [b] err)
           else attempt (CreateBucket api b) (\<lambda>r2.
             case r2 of
               Inl err2 \<Rightarrow> throw (Wrapped ''create bucket %q: %w'' [b] err2)
             | Inr u \<Rightarrow> ret ()))"

section \<open>What a client is built with\<close>

lemma NewClient_settings:
  assumes "NewClient sdk opts = Inr c"
  shows "sdk_MinUploadPartSize sdk \<le> cl_PartSize c" "1 \<le> cl_Concurrency c" "\<not> cl_LeavePartsOnError c"
    and "0 < opt_PartSizeBytes opts \<Longrightarrow> cl_PartSize c = opt_PartSizeBytes opts"
    and "1 \<le> opt_UploadConcurrency opts \<Longrightarrow> cl_Concurrency c = opt_UploadConcurrency opts"
  using assms by (auto simp: NewClient_def Let_def split: sum.splits if_splits)

text \<open>With a CA bundle or with verification on, the transport never skips verification.\<close>

lemma newHTTPClient_verifies:
  assumes "newHTTPClient sdk opts = Inr h" "\<not> opt_InsecureSkipVerify opts"
  shows "\<forall>t. hc_tls h = Some t \<longrightarrow> \<not> tls_SkipVerify t"
  using assms by (auto simp: newHTTPClient_def Let_def split: if_splits sum.splits prod.splits)

context s3_service
begin

lemma EnsureBucket_quiet: "EnsureBucket api b w = (r, w') \<Longrightarrow> objs w' = objs w"
  by (auto simp: EnsureBucket_def attempt_def ret_def throw_def
      dest!: headb_frame createb_frame split: prod.splits sum.splits if_splits)

end

end
