(* ===== verification/Dir_Handle.thy ===== *)
theory Dir_Handle
  imports Fs_Safety
begin

text \<open>
  \<^verbatim>\<open>src/internal/s3fs/file.go\<close>: the read-only handle of a directory. It loads the listing
  once and hands it out in slices. A slice expression whose bounds are out of order is a
  panic of the program and is kept as such.
\<close>

record File =
  file_fs :: FS
  file_name :: string
  file_info :: FileInfo
  entries :: "FileInfo list"     \<comment> \<open>\<^verbatim>\<open>nil\<close> is the empty list: \<^verbatim>\<open>ReadDir\<close> returns \<^verbatim>\<open>nil\<close> for no entries\<close>
  file_offset :: int

definition NewFile :: "FS \<Rightarrow> string \<Rightarrow> FileInfo \<Rightarrow> File" where
  "NewFile f name info =
     \<lparr>file_fs = f, file_name = name, file_info = info, entries = [], file_offset = 0\<rparr>"

definition File_Name :: "File \<Rightarrow> string" where
  "File_Name d = (if file_name d = [slash] then [slash] else path_Base (file_name d))"

text \<open>Reads, writes and truncation are refused: \<^verbatim>\<open>(0, err)\<close> is the error.\<close>

definition File_Read :: "File \<Rightarrow> nat \<Rightarrow> error + bytes" where
  "File_Read d n = Inl (errno ''read'' (file_name d) EISDIR)"

definition File_ReadAt :: "File \<Rightarrow> nat \<Rightarrow> int \<Rightarrow> error + bytes" where
  "File_ReadAt d n off = Inl (errno ''read'' (file_name d) EISDIR)"

definition File_Write :: "File \<Rightarrow> bytes \<Rightarrow> error + int" where
  "File_Write d p = Inl (errno ''write'' (file_name d) EISDIR)"

definition File_WriteAt :: "File \<Rightarrow> bytes \<Rightarrow> int \<Rightarrow> error + int" where
  "File_WriteAt d p off = Inl (errno ''write'' (file_name d) EISDIR)"

definition File_WriteString :: "File \<Rightarrow> string \<Rightarrow> error + int" where
  "File_WriteString d s = Inl (errno ''write'' (file_name d) EISDIR)"

definition File_Truncate :: "File \<Rightarrow> int \<Rightarrow> error + unit" where
  "File_Truncate d n = Inl (errno ''truncate'' (file_name d) EISDIR)"

definition File_Stat :: "File \<Rightarrow> error + FileInfo" where
  "File_Stat d = Inr (file_info d)"

definition File_Sync :: "File \<Rightarrow> error + unit" where
  "File_Sync d = Inr ()"

definition File_Close :: "File \<Rightarrow> error + unit" where
  "File_Close d = Inr ()"

abbreviation (input) SeekStart :: int where "SeekStart \<equiv> 0"
abbreviation (input) SeekCurrent :: int where "SeekCurrent \<equiv> 1"
abbreviation (input) SeekEnd :: int where "SeekEnd \<equiv> 2"

definition File_Seek :: "File \<Rightarrow> int \<Rightarrow> int \<Rightarrow> (error + int) \<times> File" where
  "File_Seek d offset whence =
     (if offset = 0 \<and> (whence = SeekStart \<or> whence = SeekCurrent)
      then (Inr 0, d\<lparr>file_offset := 0\<rparr>)
      else (Inl (errno ''seek'' (file_name d) EINVAL), d))"

text \<open>The methods that change the handle take and return it with the result.\<close>

definition File_load :: "('w, 'b) s3api \<Rightarrow> File \<Rightarrow> ('w, File) lio" where
  "File_load api d =
     (if entries d \<noteq> [] then once (ret d)
      else landThen (ReadDir api (file_fs d) (file_name d)) (\<lambda>es. once (ret (d\<lparr>entries := es\<rparr>))))"

text \<open>\<^verbatim>\<open>xs[lo:hi]\<close>, with the run-time check on its bounds.\<close>

definition go_slice :: "'a list \<Rightarrow> int \<Rightarrow> int \<Rightarrow> error + 'a list" where
  "go_slice xs lo hi =
     (if 0 \<le> lo \<and> lo \<le> hi \<and> hi \<le> int (length xs) then Inr (take (nat (hi - lo)) (drop (nat lo) xs))
      else Inl (RuntimePanic ''slice bounds out of range''))"

text \<open>What \<^verbatim>\<open>Readdir\<close> does once the entries are loaded.\<close>

definition readdir_slice :: "File \<Rightarrow> int \<Rightarrow> (error + FileInfo list) \<times> File" where
  "readdir_slice d count =
     (let len = int (length (entries d))
      in if count \<le> 0 then
           (case go_slice (entries d) (file_offset d) len of
              Inl e \<Rightarrow> (Inl e, d)
            | Inr out \<Rightarrow> (Inr out, d\<lparr>file_offset := len\<rparr>))
         else if file_offset d \<ge> len then (Inl EOF, d)
         else (let fin = min (wrap64 (file_offset d + count)) len
               in case go_slice (entries d) (file_offset d) fin of
                    Inl e \<Rightarrow> (Inl e, d)
                  | Inr out \<Rightarrow> (Inr out, d\<lparr>file_offset := fin\<rparr>)))"

definition Readdir :: "('w, 'b) s3api \<Rightarrow> File \<Rightarrow> int \<Rightarrow> ('w, (error + FileInfo list) \<times> File) lio" where
  "Readdir api d count =
     lattempt (File_load api d) (\<lambda>r.
       case r of
         Inl err \<Rightarrow> once (ret (Inl err, d))
       | Inr d' \<Rightarrow> once (ret (readdir_slice d' count)))"

definition Readdirnames :: "('w, 'b) s3api \<Rightarrow> File \<Rightarrow> int \<Rightarrow> ('w, (error + string list) \<times> File) lio" where
  "Readdirnames api d count =
     landThen (Readdir api d count) (\<lambda>(r, d').
       once (ret (case r of
                    Inl err \<Rightarrow> (Inl err, d')
                  | Inr infos \<Rightarrow> (Inr (map FileInfo_Name infos), d'))))"

text \<open>\<^verbatim>\<open>mime.TypeByExtension\<close> reads the system's tables: a parameter.\<close>

definition objectContentType :: "(string \<Rightarrow> string) \<Rightarrow> string \<Rightarrow> string" where
  "objectContentType mime k =
     (let ct = mime (path_Ext (TrimSuffix k [slash]))
      in if ct = [] then ''application/octet-stream'' else ct)"

section \<open>Handing out a listing\<close>

definition file_ok :: "File \<Rightarrow> bool" where
  "file_ok d \<longleftrightarrow> 0 \<le> file_offset d \<and> file_offset d \<le> int (length (entries d))
     \<and> in_int64 (int (length (entries d)))"

lemma readdir_slice_ok:
  assumes "file_ok d" "in_int64 (file_offset d + count)"
  shows "file_ok (snd (readdir_slice d count))"
    and "entries (snd (readdir_slice d count)) = entries d"
    and "fst (readdir_slice d count) =
      (if 0 < count \<and> file_offset d = int (length (entries d)) then Inl EOF
       else Inr (let rest = drop (nat (file_offset d)) (entries d)
                 in if count \<le> 0 then rest else take (nat count) rest))"
    and "file_offset (snd (readdir_slice d count)) =
      (if count \<le> 0 then int (length (entries d))
       else min (file_offset d + count) (int (length (entries d))))"
proof -
  let ?o = "file_offset d" and ?n = "int (length (entries d))"
  have o: "0 \<le> ?o" "?o \<le> ?n" "in_int64 ?n" using assms(1) by (auto simp: file_ok_def)
  have w: "wrap64 (?o + count) = ?o + count" using assms(2) by simp
  have tk: "take (nat (min (?o + count) ?n - ?o)) (drop (nat ?o) (entries d))
      = take (nat count) (drop (nat ?o) (entries d))" if "0 < count"
    using o that by (cases "?o + count \<le> ?n") (simp_all add: min_def nat_diff_distrib)
  show "fst (readdir_slice d count) =
      (if 0 < count \<and> ?o = ?n then Inl EOF
       else Inr (let rest = drop (nat ?o) (entries d)
                 in if count \<le> 0 then rest else take (nat count) rest))"
    using o w tk by (auto simp: readdir_slice_def go_slice_def Let_def)
  show off: "file_offset (snd (readdir_slice d count)) =
      (if count \<le> 0 then ?n else min (?o + count) ?n)"
    using o w by (auto simp: readdir_slice_def go_slice_def Let_def)
  show ent: "entries (snd (readdir_slice d count)) = entries d"
    by (auto simp: readdir_slice_def Let_def split: sum.splits)
  show "file_ok (snd (readdir_slice d count))"
    using o off ent unfolding file_ok_def by (auto simp: min_def)
qed

text \<open>Reading a loaded handle in slices of the given sizes until the end.\<close>

fun read_slices :: "File \<Rightarrow> int list \<Rightarrow> FileInfo list list \<times> File" where
  "read_slices d [] = ([], d)"
| "read_slices d (c # cs) =
     (case readdir_slice d c of
        (Inl e, d') \<Rightarrow> ([], d')
      | (Inr out, d') \<Rightarrow> (case read_slices d' cs of (outs, d'') \<Rightarrow> (out # outs, d'')))"

lemma read_slices_concat:
  assumes "file_ok d" "\<forall>c \<in> set cs. 0 < c \<and> in_int64 (int (length (entries d)) + c)"
  shows "concat (fst (read_slices d cs))
    = take (nat (sum_list cs)) (drop (nat (file_offset d)) (entries d))"
  using assms
proof (induction cs arbitrary: d)
  case (Cons c cs)
  let ?o = "file_offset d" and ?n = "int (length (entries d))"
  have o: "0 \<le> ?o" "?o \<le> ?n" using Cons.prems(1) by (auto simp: file_ok_def)
  have c: "0 < c" and rng: "in_int64 (?o + c)"
    using Cons.prems(2) o by (auto simp: in_int64_def)
  note s = readdir_slice_ok [OF Cons.prems(1) rng]
  obtain r d' where rd: "readdir_slice d c = (r, d')" by fastforce
  have nn: "0 \<le> sum_list cs" using Cons.prems(2) by (intro sum_list_nonneg) auto
  show ?case
  proof (cases "?o = ?n")
    case True
    with s(3) c rd have "r = Inl EOF" by simp
    with True rd show ?thesis by simp
  next
    case False
    with s(3) c rd have r: "r = Inr (take (nat c) (drop (nat ?o) (entries d)))" by simp
    have "concat (fst (read_slices d' cs)) = take (nat (sum_list cs)) (drop (nat (file_offset d')) (entries d'))"
      using Cons.IH [of d'] s(1,2) rd Cons.prems(2) by simp
    also have "\<dots> = take (nat (sum_list cs)) (drop (nat c) (drop (nat ?o) (entries d)))"
      using s(2,4) rd c o by (auto simp: min_def nat_add_distrib add.commute)
    finally show ?thesis
      using rd r c nn
      by (cases "read_slices d' cs") (simp add: nat_add_distrib take_add add.commute)
  qed
qed simp

section \<open>The handle over the store\<close>

context s3_service
begin

lemma File_load_cases:
  assumes "File_load api d w = Some (Inr d', w')"
  shows "objs w' = objs w"
    and "entries d = [] \<Longrightarrow> \<exists>w0. objs w0 = objs w \<and> d' = d\<lparr>entries := entries d'\<rparr> \<and>
      listing_ok (objs w (bucket (file_fs d))) (mtime w0 (bucket (file_fs d)))
        (FS_keyDir (file_fs d) (CleanFTPPath (file_name d))) (entries d')"
proof -
  show "objs w' = objs w"
  proof (cases "entries d = []")
    case True
    with assms show ?thesis
      using ReadDir_returns [of "file_fs d" "file_name d" w]
      by (auto simp: File_load_def once_def ret_def elim!: landThenE)
  qed (use assms in \<open>simp add: File_load_def once_def ret_def\<close>)
  show "\<exists>w0. objs w0 = objs w \<and> d' = d\<lparr>entries := entries d'\<rparr> \<and>
      listing_ok (objs w (bucket (file_fs d))) (mtime w0 (bucket (file_fs d)))
        (FS_keyDir (file_fs d) (CleanFTPPath (file_name d))) (entries d')" if "entries d = []"
  proof -
    from assms that obtain es w1 where r: "ReadDir api (file_fs d) (file_name d) w = Some (Inr es, w1)"
      and d': "d' = d\<lparr>entries := es\<rparr>"
      by (auto simp: File_load_def once_def ret_def elim!: landThenE)
    from ReadDir_listing [OF r] d' show ?thesis by auto
  qed
qed

lemma Readdir_returns: "\<exists>r d' w'. Readdir api d count w = Some (Inr (r, d'), w') \<and> objs w' = objs w"
proof -
  have "\<exists>r w'. File_load api d w = Some (r, w') \<and> objs w' = objs w"
  proof (cases "entries d = []")
    case True
    obtain r w' where "ReadDir api (file_fs d) (file_name d) w = Some (r, w')" "objs w' = objs w"
      using ReadDir_returns by blast
    with True show ?thesis by (cases r) (simp_all add: File_load_def io_simps)
  qed (simp add: File_load_def io_simps)
  then obtain r w' where "File_load api d w = Some (r, w')" "objs w' = objs w" by blast
  then show ?thesis
    by (cases r) (auto simp: Readdir_def io_simps intro: prod.collapse [symmetric])
qed

end

text \<open>Successive calls of \<^verbatim>\<open>Readdir\<close>, until one of them reports an error.\<close>

fun read_listing ::
  "('w, 'b) s3api \<Rightarrow> File \<Rightarrow> int list \<Rightarrow> 'w \<Rightarrow> (FileInfo list list \<times> File \<times> 'w) option" where
  "read_listing api d [] w = Some ([], d, w)"
| "read_listing api d (c # cs) w =
     (case Readdir api d c w of
        Some (Inr (Inr out, d'), w') \<Rightarrow>
          (case read_listing api d' cs w' of
             None \<Rightarrow> None
           | Some (outs, d'', w'') \<Rightarrow> Some (out # outs, d'', w''))
      | Some (Inr (Inl e, d'), w') \<Rightarrow> Some ([], d', w')
      | Some (Inl e, w') \<Rightarrow> Some ([], d, w')
      | None \<Rightarrow> None)"

lemma Readdir_loaded: "entries d \<noteq> [] \<Longrightarrow> Readdir api d c w = Some (Inr (readdir_slice d c), w)"
  by (simp add: Readdir_def File_load_def io_simps)

lemma readdir_slice_entries: "entries (snd (readdir_slice d c)) = entries d"
  by (auto simp: readdir_slice_def Let_def split: sum.splits)

lemma read_listing_loaded:
  "entries d \<noteq> [] \<Longrightarrow> read_listing api d cs w = Some (fst (read_slices d cs), snd (read_slices d cs), w)"
proof (induction cs arbitrary: d)
  case (Cons c cs)
  obtain r d' where rd: "readdir_slice d c = (r, d')" by fastforce
  with Cons.prems readdir_slice_entries [of d c] have "entries d' \<noteq> []" by simp
  with Cons.IH [of d'] Cons.prems rd show ?case
    by (cases r) (auto simp: Readdir_loaded split: prod.splits)
qed simp

text \<open>A listing has no more entries than the bucket has objects.\<close>

lemma listing_length:
  assumes "listing_ok m mt pre infos" "finite (dom m)"
  shows "length infos \<le> card (dom m)"
proof -
  let ?g = "\<lambda>k. takeWhile (\<lambda>x. x \<noteq> slash) (drop (length pre) k)"
  have "child_names m pre \<subseteq> ?g ` dom m"
  proof
    fix n assume "n \<in> child_names m pre"
    then consider "slash \<notin> set n" "m (pre @ n) \<noteq> None" | z where "slash \<notin> set n" "m (pre @ n @ slash # z) \<noteq> None"
      by (auto simp: child_names_def child_file_def child_dir_def below_def prefix_def)
    then show "n \<in> ?g ` dom m"
    proof cases
      case 1
      then show ?thesis by (intro image_eqI [of _ _ "pre @ n"]) auto
    next
      case 2
      then show ?thesis
        by (intro image_eqI [of _ _ "pre @ n @ slash # z"]) (auto simp: takeWhile_append)
    qed
  qed
  then have "card (child_names m pre) \<le> card (dom m)"
    using assms(2) by (meson card_image_le card_mono finite_imageI le_trans)
  moreover have "length infos = card (child_names m pre)"
    using assms(1) unfolding listing_ok_def
    by (metis distinct_card length_map set_map)
  ultimately show ?thesis by simp
qed

context s3_service
begin

lemma read_listing_slices:
  assumes run: "read_listing api (NewFile f name info) (c # cs) w = Some (out # outs, d, w')"
    and pos: "\<forall>c \<in> set (c # cs). 0 < c \<and> c < 2 ^ 62"
    and small: "int (card (dom (objs w (bucket f)))) < 2 ^ 62"
  shows "\<exists>infos w0. objs w0 = objs w
    \<and> listing_ok (objs w (bucket f)) (mtime w0 (bucket f)) (FS_keyDir f (CleanFTPPath name)) infos
    \<and> concat (out # outs) = take (nat (sum_list (c # cs))) infos"
proof -
  let ?d = "NewFile f name info" and ?m = "objs w (bucket f)"
  obtain r w1 where ld: "File_load api ?d w = Some (r, w1)"
    using run by (auto simp: Readdir_def lattempt_def split: option.splits)
  with run obtain d1 where d1: "r = Inr d1"
    by (cases r) (auto simp: Readdir_def io_simps)
  from File_load_cases(2) [OF ld [unfolded d1]] obtain w0 where w0: "objs w0 = objs w"
      "listing_ok ?m (mtime w0 (bucket f)) (FS_keyDir f (CleanFTPPath name)) (entries d1)"
      and dd: "d1 = ?d\<lparr>entries := entries d1\<rparr>"
    by (auto simp: NewFile_def)
  have off: "file_offset d1 = 0" by (subst dd) (simp add: NewFile_def)
  have "int (length (entries d1)) < 2 ^ 62"
    using listing_length [OF w0(2) finite_bucket] small by linarith
  then have ok: "file_ok d1" and rng: "\<forall>c \<in> set (c # cs). 0 < c \<and> in_int64 (int (length (entries d1)) + c)"
    using off pos by (auto simp: file_ok_def in_int64_def)
  have rd: "Readdir api ?d c w = Some (Inr (readdir_slice d1 c), w1)"
    using ld d1 by (simp add: Readdir_def io_simps)
  have ne: "entries d1 \<noteq> []"
  proof
    assume "entries d1 = []"
    with off pos have "readdir_slice d1 c = (Inl EOF, d1)" by (simp add: readdir_slice_def)
    with run rd show False by simp
  qed
  have "out # outs = fst (read_slices d1 (c # cs))"
    using run rd ne readdir_slice_entries [of d1 c]
    by (auto simp: read_listing_loaded split: prod.splits sum.splits option.splits)
  with read_slices_concat [OF ok rng] w0 off show ?thesis by fastforce
qed

end

end
