(* ===== verification/Download.thy ===== *)
theory Download
  imports Dir_Handle
begin

text \<open>
  \<^verbatim>\<open>src/internal/s3fs/download.go\<close>: the handle that streams one object to the client. A
  body is opened on the first read, at the handle's position, and dropped on a seek. The
  central invariant (\<open>dl_ok\<close>) is that an open body holds exactly the rest of the
  object from the position on.
\<close>

text \<open>\<^verbatim>\<open>d.body\<close>: a response body, or \<^verbatim>\<open>io.NopCloser(emptyReader{})\<close>.\<close>

datatype 'b dl_body = NetBody 'b | EmptyBody

record 'b downloadFile =
  dl_fs :: FS
  dl_name :: string
  dl_key :: string
  dl_size :: int
  dl_mod :: gotime
  dl_pos :: int
  dl_body :: "'b dl_body option"
  dl_closed :: bool

definition openDownload :: "('w, 'b) s3api \<Rightarrow> FS \<Rightarrow> string \<Rightarrow> int \<Rightarrow> ('w, 'b downloadFile) io" where
  "openDownload api f clean offset =
     andThen (headObject api f (FS_key f clean)) (\<lambda>found.
       case found of
         None \<Rightarrow> throw (notExist ''open'' clean)
       | Some head \<Rightarrow>
           (let sz = sizeOf (ContentLength head)
            in if offset < 0 \<or> offset > sz then throw (errno ''open'' clean EINVAL)
               else ret \<lparr>dl_fs = f, dl_name = clean, dl_key = FS_key f clean, dl_size = sz,
                         dl_mod = timeOf (head_LastModified head), dl_pos = offset,
                         dl_body = None, dl_closed = False\<rparr>))"

definition ensureBody :: "('w, 'b) s3api \<Rightarrow> 'b downloadFile \<Rightarrow> ('w, 'b downloadFile) io" where
  "ensureBody api d =
     (if dl_body d \<noteq> None then ret d
      else if dl_pos d \<ge> dl_size d then ret (d\<lparr>dl_body := Some EmptyBody\<rparr>)
      else andThen (getObject api (dl_fs d) (dl_key d) (dl_pos d)) (\<lambda>bd.
             ret (d\<lparr>dl_body := Some (NetBody bd)\<rparr>)))"

text \<open>Reading from and closing either kind of body.\<close>

definition emptyReader_Read :: "nat \<Rightarrow> bytes \<times> error option" where
  "emptyReader_Read n = ([], Some EOF)"

fun body_Read ::
  "('w, 'b) s3api \<Rightarrow> 'b dl_body \<Rightarrow> nat \<Rightarrow> 'w \<Rightarrow> (bytes \<times> error option \<times> 'b dl_body) \<times> 'w" where
  "body_Read api EmptyBody n w = (case emptyReader_Read n of (bs, e) \<Rightarrow> ((bs, e, EmptyBody), w))"
| "body_Read api (NetBody bd) n w =
     (case ReadBody api bd n w of ((bs, e, bd'), w') \<Rightarrow> ((bs, e, NetBody bd'), w'))"

fun body_Close :: "('w, 'b) s3api \<Rightarrow> 'b dl_body \<Rightarrow> ('w, unit) io" where
  "body_Close api EmptyBody = ret ()"
| "body_Close api (NetBody bd) = CloseBody api bd"

text \<open>
  \<open>Read api d n\<close>: a read into a buffer of \<open>n\<close> bytes. The result is the bytes read, the
  error (Go returns both) and the handle after it.
\<close>

definition Read ::
  "('w, 'b) s3api \<Rightarrow> 'b downloadFile \<Rightarrow> nat \<Rightarrow> 'w \<Rightarrow> (bytes \<times> error option \<times> 'b downloadFile) \<times> 'w" where
  "Read api d n w =
     (if dl_closed d then (([], Some ErrClosed, d), w)
      else (case ensureBody api d w of
              (Inl err, w') \<Rightarrow> (([], Some err, d), w')
            | (Inr d', w') \<Rightarrow>
                (case body_Read api (the (dl_body d')) n w' of
                   ((bs, err, bd'), w'') \<Rightarrow>
                     (let d'' = d'\<lparr>dl_pos := wrap64 (dl_pos d' + int (length bs)), dl_body := Some bd'\<rparr>
                      in if (case err of None \<Rightarrow> False | Some e \<Rightarrow> errors_Is e EOF)
                         then (case body_Close api bd' w'' of
                                 (r, w3) \<Rightarrow> ((bs, err, d''\<lparr>dl_body := None\<rparr>), w3))
                         else ((bs, err, d''), w'')))))"

text \<open>
  \<^verbatim>\<open>io.ReadFull\<close>: read until the buffer of \<open>want\<close> bytes is full or an error ends it. The
  result is the bytes read and the final error.
\<close>

partial_function (option) readfull_loop ::
  "('w, 'b) s3api \<Rightarrow> 'b \<Rightarrow> nat \<Rightarrow> bytes \<Rightarrow> 'w \<Rightarrow> ((bytes \<times> error option \<times> 'b) \<times> 'w) option" where
  "readfull_loop api bd want acc w =
     (if length acc \<ge> want then Some ((acc, None, bd), w)
      else (case ReadBody api bd (want - length acc) w of
              ((bs, err, bd'), w') \<Rightarrow>
                (case err of
                   None \<Rightarrow> readfull_loop api bd' want (acc @ bs) w'
                 | Some e \<Rightarrow>
                     Some ((acc @ bs,
                       if length (acc @ bs) \<ge> want then None
                       else if acc @ bs \<noteq> [] \<and> e = EOF then Some ErrUnexpectedEOF else Some e, bd'), w'))))"

declare readfull_loop.simps [code]

definition ReadFull ::
  "('w, 'b) s3api \<Rightarrow> 'b \<Rightarrow> nat \<Rightarrow> 'w \<Rightarrow> ((bytes \<times> error option \<times> 'b) \<times> 'w) option" where
  "ReadFull api bd want = readfull_loop api bd want []"

definition ReadAt ::
  "('w, 'b) s3api \<Rightarrow> 'b downloadFile \<Rightarrow> nat \<Rightarrow> int \<Rightarrow> 'w \<Rightarrow> ((bytes \<times> error option) \<times> 'w) option" where
  "ReadAt api d n off w =
     (if dl_closed d then Some (([], Some ErrClosed), w)
      else if off < 0 then Some (([], Some (Errno EINVAL)), w)
      else if off \<ge> dl_size d then Some (([], Some EOF), w)
      else (case getObject api (dl_fs d) (dl_key d) off w of
              (Inl err, w') \<Rightarrow> Some (([], Some err), w')
            | (Inr bd, w') \<Rightarrow>
                (case ReadFull api bd n w' of
                   None \<Rightarrow> None
                 | Some ((bs, err, bd'), w'') \<Rightarrow>
                     (case CloseBody api bd' w'' of (r, w3) \<Rightarrow> Some ((bs, err), w3)))))"

definition dl_Write :: "'b downloadFile \<Rightarrow> bytes \<Rightarrow> error + int" where
  "dl_Write d p = Inl (Errno EBADF)"

definition dl_WriteAt :: "'b downloadFile \<Rightarrow> bytes \<Rightarrow> int \<Rightarrow> error + int" where
  "dl_WriteAt d p off = Inl (Errno EBADF)"

definition dl_WriteString :: "'b downloadFile \<Rightarrow> string \<Rightarrow> error + int" where
  "dl_WriteString d s = Inl (Errno EBADF)"

definition dl_Truncate :: "'b downloadFile \<Rightarrow> int \<Rightarrow> error + unit" where
  "dl_Truncate d n = Inl (Errno EBADF)"

definition seek_target :: "'b downloadFile \<Rightarrow> int \<Rightarrow> int \<Rightarrow> int option" where
  "seek_target d offset whence =
     (if whence = SeekStart then Some offset
      else if whence = SeekCurrent then Some (wrap64 (dl_pos d + offset))
      else if whence = SeekEnd then Some (wrap64 (dl_size d + offset))
      else None)"

definition dl_Seek ::
  "('w, 'b) s3api \<Rightarrow> 'b downloadFile \<Rightarrow> int \<Rightarrow> int \<Rightarrow> 'w \<Rightarrow> ((error + int) \<times> 'b downloadFile) \<times> 'w" where
  "dl_Seek api d offset whence w =
     (if dl_closed d then ((Inl ErrClosed, d), w)
      else (case seek_target d offset whence of
              None \<Rightarrow> ((Inl (errno ''seek'' (dl_name d) EINVAL), d), w)
            | Some target \<Rightarrow>
                if target < 0 then ((Inl (errno ''seek'' (dl_name d) EINVAL), d), w)
                else if target \<noteq> dl_pos d then
                  (case dl_body d of
                     None \<Rightarrow> ((Inr target, d\<lparr>dl_pos := target\<rparr>), w)
                   | Some bd \<Rightarrow>
                       (case body_Close api bd w of
                          (r, w') \<Rightarrow> ((Inr target, d\<lparr>dl_body := None, dl_pos := target\<rparr>), w')))
                else ((Inr (dl_pos d), d), w)))"

definition dl_Name :: "'b downloadFile \<Rightarrow> string" where
  "dl_Name d = (if dl_name d = [slash] then [slash] else path_Base (dl_name d))"

definition dl_Readdir :: "'b downloadFile \<Rightarrow> int \<Rightarrow> error + FileInfo list" where
  "dl_Readdir d n = Inl (errno ''readdir'' (dl_name d) ENOTDIR)"

definition dl_Readdirnames :: "'b downloadFile \<Rightarrow> int \<Rightarrow> error + string list" where
  "dl_Readdirnames d n = Inl (errno ''readdir'' (dl_name d) ENOTDIR)"

definition dl_Stat :: "'b downloadFile \<Rightarrow> error + FileInfo" where
  "dl_Stat d = Inr (NewFileInfo (path_Base (dl_name d)) (dl_size d) (dl_mod d))"

definition dl_Sync :: "'b downloadFile \<Rightarrow> error + unit" where
  "dl_Sync d = Inr ()"

definition dl_Close ::
  "('w, 'b) s3api \<Rightarrow> 'b downloadFile \<Rightarrow> 'w \<Rightarrow> ((error + unit) \<times> 'b downloadFile) \<times> 'w" where
  "dl_Close api d w =
     (if dl_closed d then ((Inr (), d), w)
      else (case dl_body d of
              None \<Rightarrow> ((Inr (), d\<lparr>dl_closed := True\<rparr>), w)
            | Some bd \<Rightarrow>
                (case body_Close api bd w of
                   (r, w') \<Rightarrow> ((r, d\<lparr>dl_closed := True, dl_body := None\<rparr>), w'))))"

section \<open>The handle's invariant\<close>

text \<open>The handle reads the object \<open>v\<close>: an open body is what is left from the position on.\<close>

definition dl_ok :: "('b \<Rightarrow> bytes) \<Rightarrow> bytes \<Rightarrow> 'b downloadFile \<Rightarrow> bool" where
  "dl_ok rm v d \<longleftrightarrow>
     dl_size d = int (length v) \<and> in_int64 (int (length v)) \<and> 0 \<le> dl_pos d \<and> in_int64 (dl_pos d)
     \<and> (case dl_body d of
          None \<Rightarrow> True
        | Some EmptyBody \<Rightarrow> dl_size d \<le> dl_pos d
        | Some (NetBody bd) \<Rightarrow> dl_pos d \<le> dl_size d \<and> rm bd = drop (nat (dl_pos d)) v)"

definition same_file :: "'b downloadFile \<Rightarrow> 'b downloadFile \<Rightarrow> bool" where
  "same_file d d' \<longleftrightarrow> dl_fs d' = dl_fs d \<and> dl_key d' = dl_key d \<and> dl_name d' = dl_name d
     \<and> dl_size d' = dl_size d \<and> dl_mod d' = dl_mod d"

context s3_service
begin

lemma getObject_body:
  assumes "getObject api f k off w = (r, w')" "objs w (bucket f) k = Some v" "0 \<le> off"
  shows "objs w' = objs w" and "r = Inr bd \<Longrightarrow> rem bd = drop (nat off) v"
proof -
  show "objs w' = objs w" using assms(1) unfolding getObject_def by (rule get_frame)
  show "rem bd = drop (nat off) v" if "r = Inr bd"
  proof (cases "off > 0")
    case True
    from assms(1) that True
    have "GetObject api \<lparr>get_Bucket = bucket f, get_Key = k, get_Range = Some (range_from off)\<rparr> w = (Inr bd, w')"
      by (simp add: getObject_def range_from_def)
    from get_range [OF this assms(3)] assms(2) show ?thesis by auto
  next
    case False
    with assms(1,3) that
    have "GetObject api \<lparr>get_Bucket = bucket f, get_Key = k, get_Range = None\<rparr> w = (Inr bd, w')"
      by (simp add: getObject_def)
    from get_whole [OF this] assms(2,3) False show ?thesis by simp
  qed
qed

lemma openDownload_ok:
  assumes "openDownload api f clean off w = (Inr d, w')" "in_int64 off"
    and "\<forall>v. objs w (bucket f) (FS_key f clean) = Some v \<longrightarrow> in_int64 (int (length v))"
  obtains v where "objs w (bucket f) (FS_key f clean) = Some v" "dl_ok rem v d" "dl_pos d = off"
    "objs w' = objs w" "dl_fs d = f" "dl_key d = FS_key f clean" "\<not> dl_closed d" "off \<le> int (length v)"
proof -
  from assms(1) obtain found w1 where h: "headObject api f (FS_key f clean) w = (Inr found, w1)"
    and rest: "(case found of
         None \<Rightarrow> throw (notExist ''open'' clean)
       | Some head \<Rightarrow>
           (let sz = sizeOf (ContentLength head)
            in if off < 0 \<or> off > sz then throw (errno ''open'' clean EINVAL)
               else ret \<lparr>dl_fs = f, dl_name = clean, dl_key = FS_key f clean, dl_size = sz,
                         dl_mod = timeOf (head_LastModified head), dl_pos = off,
                         dl_body = None, dl_closed = False\<rparr>)) w1 = (Inr d, w')"
    unfolding openDownload_def by (rule andThen_InrE)
  from rest obtain head where head: "found = Some head"
    by (auto simp: throw_def split: option.splits)
  from headObject_cases(3) [OF h] head obtain v where
    v: "objs w (bucket f) (FS_key f clean) = Some v" "ContentLength head = Some (int (length v))" by auto
  with rest head that headObject_cases(1) [OF h] assms(2,3) show ?thesis
    by (auto simp: Let_def sizeOf_def throw_def ret_def dl_ok_def split: if_splits)
qed

lemma body_Close_frame: "body_Close api bd w = (r, w') \<Longrightarrow> objs w' = objs w"
  by (cases bd) (auto simp: ret_def dest: close_frame)

lemma ensureBody_ok:
  assumes "ensureBody api d w = (r, w')" "dl_ok rem v d" "objs w (bucket (dl_fs d)) (dl_key d) = Some v"
  shows "objs w' = objs w"
    and "r = Inr d' \<Longrightarrow> dl_ok rem v d' \<and> dl_body d' \<noteq> None \<and> dl_pos d' = dl_pos d
      \<and> dl_closed d' = dl_closed d \<and> same_file d d'"
proof -
  obtain r1 w1 where g: "getObject api (dl_fs d) (dl_key d) (dl_pos d) w = (r1, w1)" by fastforce
  have pos: "0 \<le> dl_pos d" using assms(2) by (simp add: dl_ok_def)
  note gb = getObject_body [OF g assms(3) pos]
  show "objs w' = objs w"
    using assms(1) g gb(1) by (cases r1) (auto simp: ensureBody_def io_simps split: if_splits)
  show "dl_ok rem v d' \<and> dl_body d' \<noteq> None \<and> dl_pos d' = dl_pos d
      \<and> dl_closed d' = dl_closed d \<and> same_file d d'" if "r = Inr d'"
    using assms(1,2) that g gb(2)
    by (cases r1) (auto simp: ensureBody_def io_simps dl_ok_def same_file_def split: if_splits)
qed

text \<open>One read delivers the object's bytes at the handle's position.\<close>

lemma body_Read_ok:
  assumes "body_Read api bd n w = ((bs, e, bd'), w')" "dl_ok rem v d" "dl_body d = Some bd"
  shows "objs w' = objs w" "length bs \<le> n" "bs = take (length bs) (drop (nat (dl_pos d)) v)"
    and "dl_ok rem v (d\<lparr>dl_pos := wrap64 (dl_pos d + int (length bs)), dl_body := Some bd'\<rparr>)"
    and "wrap64 (dl_pos d + int (length bs)) = dl_pos d + int (length bs)"
    and "e = Some EOF \<Longrightarrow> dl_size d \<le> dl_pos d + int (length bs)"
    and "e = None \<Longrightarrow> 0 < n \<Longrightarrow> bs \<noteq> []"
proof -
  have "objs w' = objs w \<and> length bs \<le> n \<and> bs = take (length bs) (drop (nat (dl_pos d)) v)
    \<and> wrap64 (dl_pos d + int (length bs)) = dl_pos d + int (length bs)
    \<and> dl_ok rem v (d\<lparr>dl_pos := wrap64 (dl_pos d + int (length bs)), dl_body := Some bd'\<rparr>)
    \<and> (e = Some EOF \<longrightarrow> dl_size d \<le> dl_pos d + int (length bs))
    \<and> (e = None \<longrightarrow> 0 < n \<longrightarrow> bs \<noteq> [])"
  proof (cases bd)
    case EmptyBody
    with assms show ?thesis by (auto simp: emptyReader_Read_def dl_ok_def)
  next
    case (NetBody nb)
    with assms(1) obtain nb' where rd: "ReadBody api nb n w = ((bs, e, nb'), w')" and b': "bd' = NetBody nb'"
      by (auto split: prod.splits)
    from assms(2,3) NetBody have inv: "dl_size d = int (length v)" "in_int64 (int (length v))"
        "0 \<le> dl_pos d" "dl_pos d \<le> dl_size d" "rem nb = drop (nat (dl_pos d)) v"
      by (auto simp: dl_ok_def)
    note sp = rd_split [OF rd]
    have len: "length bs \<le> length v - nat (dl_pos d)"
      using sp inv(5) by (metis le_add1 length_append length_drop)
    then have rng: "dl_pos d + int (length bs) \<le> int (length v)" using inv(1,3,4) by linarith
    then have w64: "wrap64 (dl_pos d + int (length bs)) = dl_pos d + int (length bs)"
      using inv(2,3) by (intro wrap64_id) (simp add: in_int64_def)
    have rem': "rem nb' = drop (nat (dl_pos d + int (length bs))) v"
      using rd_drop [OF rd] inv(3,5) by (simp add: nat_add_distrib add.commute)
    have "dl_ok rem v (d\<lparr>dl_pos := wrap64 (dl_pos d + int (length bs)), dl_body := Some bd'\<rparr>)"
      using inv rng rem' b' w64 by (simp add: dl_ok_def in_int64_def)
    moreover have "dl_size d \<le> dl_pos d + int (length bs)" if "e = Some EOF"
      using rd_eof [of nb n w bs nb' w'] rd that rem' inv by simp
    moreover have "bs = take (length bs) (drop (nat (dl_pos d)) v)"
      using rd_take [OF rd] inv(5) by simp
    ultimately show ?thesis
      using read_frame [OF rd] sp rd_progress [of nb n w bs nb' w'] rd w64 by blast
  qed
  then show "objs w' = objs w" "length bs \<le> n" "bs = take (length bs) (drop (nat (dl_pos d)) v)"
    "dl_ok rem v (d\<lparr>dl_pos := wrap64 (dl_pos d + int (length bs)), dl_body := Some bd'\<rparr>)"
    "wrap64 (dl_pos d + int (length bs)) = dl_pos d + int (length bs)"
    "e = Some EOF \<Longrightarrow> dl_size d \<le> dl_pos d + int (length bs)"
    "e = None \<Longrightarrow> 0 < n \<Longrightarrow> bs \<noteq> []"
    by blast+
qed

end

text \<open>What a read of the object \<open>v\<close> promises, whatever the calls to the store do.\<close>

definition good_read :: "bytes \<Rightarrow> int \<Rightarrow> nat \<Rightarrow> bytes \<Rightarrow> error option \<Rightarrow> int \<Rightarrow> bool" where
  "good_read v pos n bs e pos' \<longleftrightarrow>
     length bs \<le> n \<and> bs = take (length bs) (drop (nat pos) v) \<and> pos' = pos + int (length bs)
     \<and> (e = Some EOF \<longrightarrow> int (length v) \<le> pos') \<and> (e = None \<and> 0 < n \<longrightarrow> bs \<noteq> [])"

context s3_service
begin

lemma ensureBody_not_eof: "ensureBody api d w = (Inl e, w') \<Longrightarrow> e \<noteq> EOF"
  by (auto simp: ensureBody_def getObject_def ret_def throw_def elim!: andThen_InlE
      dest: get_wrapped split: if_splits)

lemma dl_ok_drop_body: "dl_ok rem v d \<Longrightarrow> dl_ok rem v (d\<lparr>dl_body := None\<rparr>)"
  by (simp add: dl_ok_def)

lemma Read_ok:
  assumes rd: "Read api d n w = ((bs, e, d'), w')" and ok: "dl_ok rem v d"
    and v: "objs w (bucket (dl_fs d)) (dl_key d) = Some v"
  shows "objs w' = objs w" "dl_ok rem v d'" "same_file d d'" "dl_closed d' = dl_closed d"
    and "good_read v (dl_pos d) n bs e (dl_pos d')"
proof -
  have "objs w' = objs w \<and> dl_ok rem v d' \<and> same_file d d' \<and> dl_closed d' = dl_closed d
    \<and> good_read v (dl_pos d) n bs e (dl_pos d')"
  proof (cases "dl_closed d")
    case True
    with rd ok show ?thesis by (auto simp: Read_def good_read_def same_file_def)
  next
    case False
    obtain r1 w1 where eb: "ensureBody api d w = (r1, w1)" by fastforce
    note eb' = ensureBody_ok [OF eb ok v]
    show ?thesis
    proof (cases r1)
      case (Inl err)
      with rd False eb eb'(1) ok ensureBody_not_eof [of d w err w1] show ?thesis
        by (auto simp: Read_def good_read_def same_file_def)
    next
      case (Inr d1)
      note d1 = eb'(2) [OF Inr]
      then obtain bd where bd: "dl_body d1 = Some bd" by blast
      obtain bs1 e1 bd' w2 where br: "body_Read api bd n w1 = ((bs1, e1, bd'), w2)" by (metis surj_pair)
      have ok1: "dl_ok rem v d1" using d1 by blast
      note b = body_Read_ok [OF br ok1 bd]
      obtain r3 w3 where bc: "body_Close api bd' w2 = (r3, w3)" by fastforce
      have sz: "dl_size d1 = int (length v)" using ok1 by (simp add: dl_ok_def)
      have gr: "good_read v (dl_pos d) n bs1 e1 (dl_pos d1 + int (length bs1))"
        using b(2,3,6,7) d1 sz by (simp add: good_read_def)
      show ?thesis
        using rd False eb Inr bd br bc b(1,4,5) dl_ok_drop_body [OF b(4)] gr d1 eb'(1) body_Close_frame [OF bc]
        by (auto simp: Read_def Let_def same_file_def split: if_splits)
    qed
  qed
  then show "objs w' = objs w" "dl_ok rem v d'" "same_file d d'" "dl_closed d' = dl_closed d"
    "good_read v (dl_pos d) n bs e (dl_pos d')" by blast+
qed

lemma seek_target_range: "in_int64 offset \<Longrightarrow> seek_target d offset whence = Some t \<Longrightarrow> in_int64 t"
  by (auto simp: seek_target_def wrap64_in_range split: if_splits)

lemma dl_Seek_ok:
  assumes "dl_Seek api d offset whence w = ((r, d'), w')" "dl_ok rem v d" "in_int64 offset"
  shows "objs w' = objs w" "dl_ok rem v d'" "same_file d d'" "dl_closed d' = dl_closed d"
    and "dl_pos d' = (case r of Inl e \<Rightarrow> dl_pos d | Inr p \<Rightarrow> p)"
proof -
  have "objs w' = objs w \<and> dl_ok rem v d' \<and> same_file d d' \<and> dl_closed d' = dl_closed d
    \<and> dl_pos d' = (case r of Inl e \<Rightarrow> dl_pos d | Inr p \<Rightarrow> p)"
    using assms seek_target_range [OF assms(3), of d whence]
    by (auto simp: dl_Seek_def same_file_def dl_ok_def dest: body_Close_frame
        split: if_splits option.splits prod.splits)
  then show "objs w' = objs w" "dl_ok rem v d'" "same_file d d'" "dl_closed d' = dl_closed d"
    "dl_pos d' = (case r of Inl e \<Rightarrow> dl_pos d | Inr p \<Rightarrow> p)" by blast+
qed

lemma dl_Close_ok:
  assumes "dl_Close api d w = ((r, d'), w')" "dl_ok rem v d"
  shows "objs w' = objs w" "dl_ok rem v d'" "same_file d d'" "dl_closed d'" "dl_pos d' = dl_pos d"
  using assms
  by (auto simp: dl_Close_def same_file_def dl_ok_def dest: body_Close_frame
      split: if_splits option.splits prod.splits)

end

section \<open>Whole transfers\<close>

text \<open>A client of the handle: any sequence of reads, seeks and closes.\<close>

datatype dl_op = OpRead nat | OpSeek int int | OpClose

datatype dl_result = GotRead int nat bytes "error option" int | GotSeek "error + int" | GotClose "error + unit"

fun run_dl :: "('w, 'b) s3api \<Rightarrow> 'b downloadFile \<Rightarrow> dl_op list \<Rightarrow> 'w \<Rightarrow> dl_result list \<times> 'b downloadFile \<times> 'w" where
  "run_dl api d [] w = ([], d, w)"
| "run_dl api d (OpRead n # ops) w =
     (case Read api d n w of ((bs, e, d'), w') \<Rightarrow>
        (case run_dl api d' ops w' of (rs, d'', w'') \<Rightarrow>
           (GotRead (dl_pos d) n bs e (dl_pos d') # rs, d'', w'')))"
| "run_dl api d (OpSeek off wh # ops) w =
     (case dl_Seek api d off wh w of ((r, d'), w') \<Rightarrow>
        (case run_dl api d' ops w' of (rs, d'', w'') \<Rightarrow> (GotSeek r # rs, d'', w'')))"
| "run_dl api d (OpClose # ops) w =
     (case dl_Close api d w of ((r, d'), w') \<Rightarrow>
        (case run_dl api d' ops w' of (rs, d'', w'') \<Rightarrow> (GotClose r # rs, d'', w'')))"

fun good_result :: "bytes \<Rightarrow> dl_result \<Rightarrow> bool" where
  "good_result v (GotRead pos n bs e pos') = good_read v pos n bs e pos'"
| "good_result v (GotSeek r) = (case r of Inl e \<Rightarrow> True | Inr p \<Rightarrow> 0 \<le> p)"
| "good_result v (GotClose r) = True"

fun op_in_range :: "dl_op \<Rightarrow> bool" where
  "op_in_range (OpSeek off wh) = in_int64 off"
| "op_in_range op = True"

context s3_service
begin

lemma run_dl_ok:
  assumes "run_dl api d ops w = (rs, d', w')" "dl_ok rem v d" "list_all op_in_range ops"
    and "objs w (bucket (dl_fs d)) (dl_key d) = Some v"
  shows "objs w' = objs w \<and> dl_ok rem v d' \<and> list_all (good_result v) rs"
  using assms
proof (induction ops arbitrary: d w rs d' w')
  case (Cons op ops)
  show ?case
  proof (cases op)
    case (OpRead n)
    obtain bs e d1 w1 where r: "Read api d n w = ((bs, e, d1), w1)" by (metis surj_pair)
    obtain rs1 d2 w2 where run: "run_dl api d1 ops w1 = (rs1, d2, w2)" by (metis surj_pair)
    note ok = Read_ok [OF r Cons.prems(2,4)]
    have "objs w1 (bucket (dl_fs d1)) (dl_key d1) = Some v"
      using ok(1,3) Cons.prems(4) by (simp add: same_file_def)
    with Cons.IH [OF run ok(2)] Cons.prems OpRead r run ok(1,5) show ?thesis by auto
  next
    case (OpSeek off wh)
    obtain r d1 w1 where s: "dl_Seek api d off wh w = ((r, d1), w1)" by (metis surj_pair)
    obtain rs1 d2 w2 where run: "run_dl api d1 ops w1 = (rs1, d2, w2)" by (metis surj_pair)
    have rng: "in_int64 off" using Cons.prems(3) OpSeek by simp
    note ok = dl_Seek_ok [OF s Cons.prems(2) rng]
    have "objs w1 (bucket (dl_fs d1)) (dl_key d1) = Some v"
      using ok(1,3) Cons.prems(4) by (simp add: same_file_def)
    moreover have "0 \<le> dl_pos d1" using ok(2) by (simp add: dl_ok_def)
    ultimately show ?thesis
      using Cons.IH [OF run ok(2)] Cons.prems OpSeek s run ok(1,5) by (auto split: sum.splits)
  next
    case OpClose
    obtain r d1 w1 where s: "dl_Close api d w = ((r, d1), w1)" by (metis surj_pair)
    obtain rs1 d2 w2 where run: "run_dl api d1 ops w1 = (rs1, d2, w2)" by (metis surj_pair)
    note ok = dl_Close_ok [OF s Cons.prems(2)]
    have "objs w1 (bucket (dl_fs d1)) (dl_key d1) = Some v"
      using ok(1,3) Cons.prems(4) by (simp add: same_file_def)
    with Cons.IH [OF run ok(2)] Cons.prems OpClose s run ok(1) show ?thesis by auto
  qed
qed simp

end

text \<open>
  The loop a transfer runs: read until an error. The sizes are those of the buffers; the
  result is what was read and the error that ended it, \<^term>\<open>None\<close> if the sizes ran out.
\<close>

fun read_stream :: "('w, 'b) s3api \<Rightarrow> 'b downloadFile \<Rightarrow> nat list \<Rightarrow> 'w \<Rightarrow> (bytes \<times> error option) \<times> 'w" where
  "read_stream api d [] w = (([], None), w)"
| "read_stream api d (n # ns) w =
     (case Read api d n w of
        ((bs, Some e, d'), w') \<Rightarrow> ((bs, Some e), w')
      | ((bs, None, d'), w') \<Rightarrow>
          (case read_stream api d' ns w' of ((rest, e), w'') \<Rightarrow> ((bs @ rest, e), w'')))"

context s3_service
begin

lemma read_stream_ok:
  assumes "read_stream api d ns w = ((out, e), w')" "dl_ok rem v d"
    and "objs w (bucket (dl_fs d)) (dl_key d) = Some v"
  shows "objs w' = objs w \<and> out = take (length out) (drop (nat (dl_pos d)) v)
    \<and> (e = Some EOF \<longrightarrow> out = drop (nat (dl_pos d)) v)
    \<and> (e = None \<longrightarrow> (\<forall>n \<in> set ns. 0 < n) \<longrightarrow> length ns \<le> length out)"
  using assms
proof (induction ns arbitrary: d w out e w')
  case (Cons n ns)
  obtain bs e1 d1 w1 where r: "Read api d n w = ((bs, e1, d1), w1)" by (metis surj_pair)
  note ok = Read_ok [OF r Cons.prems(2,3)]
  have pos: "0 \<le> dl_pos d" using Cons.prems(2) by (simp add: dl_ok_def)
  have bs: "bs = take (length bs) (drop (nat (dl_pos d)) v)" and p1: "dl_pos d1 = dl_pos d + int (length bs)"
    using ok(5) by (auto simp: good_read_def)
  show ?case
  proof (cases e1)
    case (Some x)
    with Cons.prems(1) r have out: "out = bs" "e = Some x" "w' = w1" by auto
    have "bs = drop (nat (dl_pos d)) v" if "x = EOF"
    proof -
      from ok(5) Some that p1 have "int (length v) \<le> dl_pos d + int (length bs)" by (simp add: good_read_def)
      then have "length (drop (nat (dl_pos d)) v) \<le> length bs" using pos by simp
      with bs show ?thesis by (metis take_all)
    qed
    with out bs ok(1) show ?thesis by auto
  next
    case None
    obtain rest e2 w2 where run: "read_stream api d1 ns w1 = ((rest, e2), w2)" by (metis surj_pair)
    with Cons.prems(1) r None have out: "out = bs @ rest" "e = e2" "w' = w2" by auto
    have v1: "objs w1 (bucket (dl_fs d1)) (dl_key d1) = Some v"
      using ok(1,3) Cons.prems(3) by (simp add: same_file_def)
    note IH = Cons.IH [OF run ok(2) v1]
    have dr: "drop (nat (dl_pos d1)) v = drop (length bs) (drop (nat (dl_pos d)) v)"
      using p1 pos by (simp add: nat_add_distrib add.commute)
    have rest: "rest = take (length rest) (drop (length bs) (drop (nat (dl_pos d)) v))"
        "e2 = Some EOF \<Longrightarrow> rest = drop (length bs) (drop (nat (dl_pos d)) v)"
      using IH unfolding dr by blast+
    have "bs @ rest = take (length (bs @ rest)) (drop (nat (dl_pos d)) v)"
      by (subst (1) bs, subst (1) rest(1)) (simp add: take_add)
    moreover have "bs @ rest = drop (nat (dl_pos d)) v" if "e2 = Some EOF"
      by (subst bs, subst rest(2) [OF that]) (rule append_take_drop_id)
    moreover have "length (n # ns) \<le> length (bs @ rest)" if "e2 = None" "\<forall>m \<in> set (n # ns). 0 < m"
    proof -
      have "bs \<noteq> []" using ok(5) None that(2) by (auto simp: good_read_def)
      moreover have "length ns \<le> length rest" using IH that by simp
      ultimately show ?thesis by (cases bs) simp_all
    qed
    moreover have "objs w2 = objs w" using IH ok(1) by simp
    ultimately show ?thesis unfolding out by blast
  qed
qed simp

end

context s3_available
begin

lemma getObject_up:
  assumes "up w" "getObject api f k off w = (r, w')" "objs w (bucket f) k = Some v" "0 \<le> off"
    and "off < int (length v) \<or> off = 0"
  shows "up w'" "\<not> isl r"
proof -
  note g = get_up [OF assms(1) assms(2) [unfolded getObject_def]]
  show "up w'" using g by blast
  show "\<not> isl r" using g assms(3-5) by (cases "off > 0") (auto simp: range_from_def)
qed

lemma Read_up:
  assumes "up w" "Read api d n w = ((bs, e, d'), w')" "dl_ok rem v d" "\<not> dl_closed d"
    and "objs w (bucket (dl_fs d)) (dl_key d) = Some v"
  shows "up w'" "e = None \<or> e = Some EOF"
proof -
  obtain r1 w1 where g: "getObject api (dl_fs d) (dl_key d) (dl_pos d) w = (r1, w1)" by fastforce
  obtain r0 w0 where eb: "ensureBody api d w = (r0, w0)" by fastforce
  have "up w0 \<and> \<not> isl r0"
  proof (cases "dl_body d = None \<and> dl_pos d < dl_size d")
    case True
    with assms(3) have "up w1" "\<not> isl r1" using getObject_up [OF assms(1) g assms(5)] by (auto simp: dl_ok_def)
    with True eb g show ?thesis by (cases r1) (auto simp: ensureBody_def io_simps)
  next
    case False
    with eb assms(1) show ?thesis by (auto simp: ensureBody_def io_simps split: if_splits)
  qed
  then obtain d0 where d0: "r0 = Inr d0" and u0: "up w0" by (cases r0) auto
  from ensureBody_ok(2) [OF eb assms(3,5) d0] obtain bd where bd: "dl_body d0 = Some bd" by blast
  obtain bs1 e1 bd' w2 where br: "body_Read api bd n w0 = ((bs1, e1, bd'), w2)" by (metis surj_pair)
  obtain r3 w3 where bc: "body_Close api bd' w2 = (r3, w3)" by fastforce
  have u2: "up w2 \<and> (e1 = None \<or> e1 = Some EOF)"
    using br u0 by (cases bd) (auto simp: emptyReader_Read_def dest: read_up split: prod.splits)
  have u3: "up w3" using bc u2 by (cases bd') (auto simp: ret_def dest: close_up)
  have "up w' \<and> (e = None \<or> e = Some EOF)"
    using assms(2,4) eb d0 bd br bc u2 u3 by (auto simp: Read_def Let_def split: if_splits)
  then show "up w'" "e = None \<or> e = Some EOF" by blast+
qed

text \<open>Enough buffers of at least one byte: the transfer ends with the whole rest of the object.\<close>

lemma read_stream_complete:
  assumes "up w" "dl_ok rem v d" "\<not> dl_closed d"
    and "objs w (bucket (dl_fs d)) (dl_key d) = Some v"
    and "\<forall>n \<in> set ns. 0 < n" "length (drop (nat (dl_pos d)) v) < length ns"
  shows "fst (read_stream api d ns w) = (drop (nat (dl_pos d)) v, Some EOF)"
proof -
  have ends: "e = None \<or> e = Some EOF" if "read_stream api d ns w = ((out, e), w')" for out e w'
    using that assms(1-4)
  proof (induction ns arbitrary: d w out e w')
    case (Cons n ns)
    obtain bs e1 d1 w1 where r: "Read api d n w = ((bs, e1, d1), w1)" by (metis surj_pair)
    note ok = Read_ok [OF r Cons.prems(3,5)]
    note u = Read_up [OF Cons.prems(2) r Cons.prems(3,4,5)]
    show ?case
    proof (cases e1)
      case (Some x)
      with Cons.prems(1) r u(2) show ?thesis by auto
    next
      case None
      obtain rest e2 w2 where run: "read_stream api d1 ns w1 = ((rest, e2), w2)" by (metis surj_pair)
      have "objs w1 (bucket (dl_fs d1)) (dl_key d1) = Some v"
        using ok(1,3) Cons.prems(5) by (simp add: same_file_def)
      with Cons.IH [OF run u(1) ok(2)] ok(4) Cons.prems(1,4) r None run show ?thesis by simp
    qed
  qed simp
  obtain out e w' where run: "read_stream api d ns w = ((out, e), w')" by (metis surj_pair)
  note ok = read_stream_ok [OF run assms(2,4)]
  have "e \<noteq> None"
  proof
    assume "e = None"
    with ok assms(5) have "length ns \<le> length out" by blast
    moreover have "length out \<le> length (drop (nat (dl_pos d)) v)"
      using ok by (metis length_take min.cobounded1 min.commute)
    ultimately show False using assms(6) by simp
  qed
  with ends [OF run] ok run show ?thesis by simp
qed

end

section \<open>Positioned reads\<close>

context s3_service
begin

lemma readfull_loop_ok:
  "\<exists>bs e bd' w'. readfull_loop api bd want acc w = Some ((acc @ bs, e, bd'), w')
     \<and> objs w' = objs w \<and> bs = take (length bs) (rem bd)
     \<and> (e = None \<longrightarrow> want \<le> length (acc @ bs)) \<and> (length acc \<le> want \<longrightarrow> length (acc @ bs) \<le> want)
     \<and> (e = Some EOF \<longrightarrow> acc @ bs = [] \<and> rem bd = []) \<and> (e = Some ErrUnexpectedEOF \<longrightarrow> length (acc @ bs) < want)"
proof (induction "want - length acc" arbitrary: acc bd w rule: less_induct)
  case less
  show ?case
  proof (cases "length acc \<ge> want")
    case True
    then show ?thesis by (subst readfull_loop.simps) (intro exI [of _ "[]"], auto)
  next
    case False
    obtain bs e bd1 w1 where rd: "ReadBody api bd (want - length acc) w = ((bs, e, bd1), w1)"
      by (metis surj_pair)
    note sp = rd_split [OF rd]
    have fr: "objs w1 = objs w" by (rule read_frame [OF rd])
    show ?thesis
    proof (cases e)
      case (Some x)
      have "x = EOF \<Longrightarrow> rem bd = bs" using rd_eof_all rd Some by blast
      with False rd Some sp fr rd_take [OF rd] show ?thesis
        by (subst readfull_loop.simps) (auto intro!: exI [of _ bs])
    next
      case None
      have ne: "bs \<noteq> []" using rd_progress rd None False by simp
      then have "want - length (acc @ bs) < want - length acc" using False by (cases bs) auto
      from less.hyps [OF this, of bd1 w1] obtain bs2 e2 bd2 w2 where
        r2: "readfull_loop api bd1 want (acc @ bs) w1 = Some (((acc @ bs) @ bs2, e2, bd2), w2)"
        and p2: "objs w2 = objs w1" "bs2 = take (length bs2) (rem bd1)"
          "e2 = None \<longrightarrow> want \<le> length ((acc @ bs) @ bs2)"
          "length (acc @ bs) \<le> want \<longrightarrow> length ((acc @ bs) @ bs2) \<le> want"
          "e2 = Some EOF \<longrightarrow> (acc @ bs) @ bs2 = [] \<and> rem bd1 = []"
          "e2 = Some ErrUnexpectedEOF \<longrightarrow> length ((acc @ bs) @ bs2) < want"
        by blast
      have "bs @ bs2 = take (length (bs @ bs2)) (rem bd)" using sp p2(2) by simp
      moreover have "readfull_loop api bd want acc w = Some ((acc @ bs @ bs2, e2, bd2), w2)"
        using False rd None r2 by (subst readfull_loop.simps) simp
      moreover have "e2 \<noteq> Some EOF" using p2(5) ne by auto
      ultimately show ?thesis
        using p2 fr sp False by (intro exI [of _ "bs @ bs2"] exI [of _ e2] exI [of _ bd2] exI [of _ w2]) auto
    qed
  qed
qed

lemma ReadAt_ok:
  assumes "dl_ok rem v d" "objs w (bucket (dl_fs d)) (dl_key d) = Some v"
  shows "\<exists>bs e w'. ReadAt api d n off w = Some ((bs, e), w') \<and> objs w' = objs w
    \<and> length bs \<le> n \<and> bs = take (length bs) (drop (nat off) v)
    \<and> (e = None \<longrightarrow> bs = take n (drop (nat off) v) \<and> length bs = n)"
proof (cases "dl_closed d \<or> off < 0 \<or> off \<ge> dl_size d")
  case True
  then show ?thesis by (auto simp: ReadAt_def)
next
  case False
  then have off: "0 \<le> off" by simp
  obtain r1 w1 where g: "getObject api (dl_fs d) (dl_key d) off w = (r1, w1)" by fastforce
  note gb = getObject_body [OF g assms(2) off]
  show ?thesis
  proof (cases r1)
    case (Inl e)
    with False g gb(1) show ?thesis by (simp add: ReadAt_def)
  next
    case (Inr bd)
    note rem = gb(2) [OF Inr]
    obtain bs e bd' w2 where f: "readfull_loop api bd n [] w1 = Some (([] @ bs, e, bd'), w2)"
        "objs w2 = objs w1" "bs = take (length bs) (rem bd)" "e = None \<longrightarrow> n \<le> length ([] @ bs)"
        "length ([] :: bytes) \<le> n \<longrightarrow> length ([] @ bs) \<le> n"
      using readfull_loop_ok [of bd n "[]" w1] by blast
    obtain r3 w3 where c: "CloseBody api bd' w2 = (r3, w3)" by fastforce
    have "ReadAt api d n off w = Some ((bs, e), w3)"
      using False g Inr f(1) c by (simp add: ReadAt_def ReadFull_def)
    moreover have "length bs \<le> n" using f(5) by simp
    moreover have "bs = take (length bs) (drop (nat off) v)" using f(3) rem by simp
    moreover have "length bs = n" if "e = None" using f(4,5) that by simp
    ultimately show ?thesis
      using f(2) gb(1) close_frame [OF c] by (intro exI [of _ bs] exI [of _ e] exI [of _ w3]) auto
  qed
qed

end

end
