(* ===== verification/Upload.thy ===== *)
theory Upload
  imports Dir_Handle
begin

text \<open>
  \<^verbatim>\<open>src/internal/s3fs/upload.go\<close>: the handle that streams a client's data into an object.
  Two goroutines share it: the one that calls the handle's methods and the one that runs
  the SDK's uploader (\<^verbatim>\<open>run\<close>), joined by an \<^verbatim>\<open>io.Pipe\<close>. The model is a state machine whose
  events are the atomic steps of either: a call, a lock-protected assignment, a close of a
  pipe end, a transfer of bytes through the pipe, a call to the store. An event that is not
  enabled gives \<^term>\<open>None\<close>, so blocking is visible.

  The handle's methods are called one after the other, as the FTP server does. The
  uploader reads its body with buffers of at least one byte, and may give up at any time.
\<close>

section \<open>Opening\<close>

record uploadFile =
  u_fs :: FS
  u_name :: string
  u_key :: string
  u_contentType :: string
  u_prefixLen :: int
  u_err :: "error option"
  u_closed :: bool
  u_pos :: int
  u_written :: int

text \<open>The open flags of the target platform.\<close>

type_synonym flags = "64 word"

abbreviation (input) O_WRONLY :: flags where "O_WRONLY \<equiv> 0x1"
abbreviation (input) O_RDWR :: flags where "O_RDWR \<equiv> 0x2"
abbreviation (input) O_CREATE :: flags where "O_CREATE \<equiv> 0x40"
abbreviation (input) O_TRUNC :: flags where "O_TRUNC \<equiv> 0x200"
abbreviation (input) O_APPEND :: flags where "O_APPEND \<equiv> 0x400"

definition upload_prefix :: "('w, 'b) s3api \<Rightarrow> FS \<Rightarrow> string \<Rightarrow> flags \<Rightarrow> int \<Rightarrow> ('w, int) io" where
  "upload_prefix api f clean fl offset =
     (if fl AND O_TRUNC = 0 then
        (if fl AND O_APPEND \<noteq> 0 then
           andThen (headSize api f (FS_key f clean)) (\<lambda>found.
             case found of None \<Rightarrow> ret 0 | Some sz \<Rightarrow> ret sz)
         else if offset > 0 then
           andThen (headSize api f (FS_key f clean)) (\<lambda>found.
             case found of None \<Rightarrow> throw (notExist ''open'' clean) | Some sz \<Rightarrow> ret (min offset sz))
         else ret 0)
      else ret 0)"

definition openUpload ::
  "('w, 'b) s3api \<Rightarrow> (string \<Rightarrow> string) \<Rightarrow> FS \<Rightarrow> string \<Rightarrow> flags \<Rightarrow> int \<Rightarrow> ('w, uploadFile) io" where
  "openUpload api mime f clean fl offset =
     andThen (upload_prefix api f clean fl offset) (\<lambda>prefixLen.
       ret \<lparr>u_fs = f, u_name = clean, u_key = FS_key f clean,
            u_contentType = objectContentType mime (FS_key f clean), u_prefixLen = prefixLen,
            u_err = None, u_closed = False, u_pos = prefixLen, u_written = 0\<rparr>)"

section \<open>The pipe\<close>

record pipe =
  rerr :: "error option"
  werr :: "error option"

definition pipe_done :: "pipe \<Rightarrow> bool" where
  "pipe_done p \<longleftrightarrow> rerr p \<noteq> None \<or> werr p \<noteq> None"

definition store_once :: "error option \<Rightarrow> error \<Rightarrow> error option" where
  "store_once cell e = (case cell of None \<Rightarrow> Some e | Some e' \<Rightarrow> Some e')"

definition closeRead :: "error \<Rightarrow> pipe \<Rightarrow> pipe" where
  "closeRead e p = p\<lparr>rerr := store_once (rerr p) e\<rparr>"

definition closeWrite :: "error option \<Rightarrow> pipe \<Rightarrow> pipe" where
  "closeWrite e p = p\<lparr>werr := store_once (werr p) (case e of None \<Rightarrow> EOF | Some x \<Rightarrow> x)\<rparr>"

definition readCloseError :: "pipe \<Rightarrow> error" where
  "readCloseError p = (case (rerr p, werr p) of (None, Some e) \<Rightarrow> e | _ \<Rightarrow> ErrClosedPipe)"

definition writeCloseError :: "pipe \<Rightarrow> error" where
  "writeCloseError p = (case (werr p, rerr p) of (None, Some e) \<Rightarrow> e | _ \<Rightarrow> ErrClosedPipe)"

section \<open>The two goroutines\<close>

datatype client_pc =
    CIdle                        \<comment> \<open>between calls\<close>
  | COffer bytes nat bool        \<comment> \<open>in \<^verbatim>\<open>pw.Write(p)\<close>: \<open>p\<close>, bytes taken, \<^verbatim>\<open>once\<close>\<close>
  | CFail1 error nat             \<comment> \<open>in \<^verbatim>\<open>u.fail(err)\<close> after a failed write, before the assignment\<close>
  | CFail2 error nat             \<comment> \<open>and before \<^verbatim>\<open>pr.CloseWithError\<close>\<close>
  | CTransfer1 error | CTransfer2 error | CTransfer3 error
  | CClose1 | CClose2 "error option" | CCloseWait

datatype 'b runner_pc =
    RStart
  | RPrefix 'b int               \<comment> \<open>reading the kept prefix: the body and the limit left\<close>
  | RPipe
  | RUpload body_end             \<comment> \<open>the uploader has seen its body end\<close>
  | RFail1 error | RFail2 error
  | RFin                         \<comment> \<open>deferred calls\<close>
  | RDone                        \<comment> \<open>\<^verbatim>\<open>close(u.done)\<close> has run\<close>

datatype client_ret =
    RetWrite nat "error option" | RetTransfer | RetClose "error option" | RetSeek "error + int"

record ('w, 'b) upload_state =
  us_w :: 'w
  us_file :: uploadFile
  us_pipe :: pipe
  us_client :: client_pc
  us_runner :: "'b runner_pc"
  us_open :: "'b option"         \<comment> \<open>the body \<^verbatim>\<open>run\<close> closes when it returns\<close>
  us_body :: bytes               \<comment> \<open>what the uploader has read from its body\<close>
  us_acked :: bytes              \<comment> \<open>what \<^verbatim>\<open>Write\<close> calls have reported as written\<close>
  us_last :: "client_ret option" \<comment> \<open>what the last method call returned\<close>

definition upload_start :: "uploadFile \<Rightarrow> 'w \<Rightarrow> ('w, 'b) upload_state" where
  "upload_start u w =
     \<lparr>us_w = w, us_file = u, us_pipe = \<lparr>rerr = None, werr = None\<rparr>, us_client = CIdle,
      us_runner = RStart, us_open = None, us_body = [], us_acked = [], us_last = None\<rparr>"

definition set_err :: "error \<Rightarrow> uploadFile \<Rightarrow> uploadFile" where
  "set_err e u = u\<lparr>u_err := store_once (u_err u) e\<rparr>"

definition recordedErr :: "uploadFile \<Rightarrow> error option" where
  "recordedErr u = u_err u"

text \<open>\<^verbatim>\<open>Write\<close> after \<^verbatim>\<open>pw.Write\<close> returned \<open>n\<close> and \<open>err\<close>.\<close>

definition finish_write :: "bytes \<Rightarrow> nat \<Rightarrow> error option \<Rightarrow> ('w, 'b) upload_state \<Rightarrow> ('w, 'b) upload_state" where
  "finish_write p n err s =
     (let u = us_file s;
          s' = s\<lparr>us_file := u\<lparr>u_pos := wrap64 (u_pos u + int n), u_written := wrap64 (u_written u + int n)\<rparr>,
                 us_acked := us_acked s @ take n p\<rparr>
      in case err of
           None \<Rightarrow> s'\<lparr>us_client := CIdle, us_last := Some (RetWrite n None)\<rparr>
         | Some e \<Rightarrow> s'\<lparr>us_client := CFail1 e n\<rparr>)"

definition up_Write :: "bytes \<Rightarrow> ('w, 'b) upload_state \<Rightarrow> ('w, 'b) upload_state" where
  "up_Write p s =
     (if u_closed (us_file s) then s\<lparr>us_last := Some (RetWrite 0 (Some ErrClosed))\<rparr>
      else if pipe_done (us_pipe s) then finish_write p 0 (Some (writeCloseError (us_pipe s))) s
      else s\<lparr>us_client := COffer p 0 True\<rparr>)"

definition up_TransferError :: "error option \<Rightarrow> ('w, 'b) upload_state \<Rightarrow> ('w, 'b) upload_state" where
  "up_TransferError err s =
     (case err of
        None \<Rightarrow> s\<lparr>us_last := Some RetTransfer\<rparr>
      | Some e \<Rightarrow> s\<lparr>us_client := CTransfer1 e\<rparr>)"

definition up_Close :: "('w, 'b) upload_state \<Rightarrow> ('w, 'b) upload_state" where
  "up_Close s =
     (if u_closed (us_file s) then s\<lparr>us_last := Some (RetClose (recordedErr (us_file s)))\<rparr>
      else s\<lparr>us_file := (us_file s)\<lparr>u_closed := True\<rparr>, us_client := CClose1\<rparr>)"

definition up_Seek :: "int \<Rightarrow> int \<Rightarrow> uploadFile \<Rightarrow> (error + int) \<times> uploadFile" where
  "up_Seek offset whence u =
     (let inval = (Inl (errno ''seek'' (u_name u) EINVAL), u)
      in if u_closed u then (Inl ErrClosed, u)
         else if u_written u > 0 then inval
         else (case (if whence = SeekStart then Some offset
                     else if whence = SeekCurrent then Some (wrap64 (u_pos u + offset))
                     else None) of
                 None \<Rightarrow> inval
               | Some target \<Rightarrow>
                   if target \<noteq> u_prefixLen u then inval
                   else (Inr target, u\<lparr>u_pos := target\<rparr>)))"

text \<open>What remains to be offered by the write in progress.\<close>

fun offering :: "client_pc \<Rightarrow> bytes option" where
  "offering (COffer p n first) = (if first \<or> n < length p then Some (drop n p) else None)"
| "offering pc = None"

fun client_step :: "('w, 'b) upload_state \<Rightarrow> client_pc \<Rightarrow> ('w, 'b) upload_state option" where
  "client_step s CIdle = None"
| "client_step s (COffer p n first) =
     (if \<not> (first \<or> n < length p) then Some (finish_write p n None s)
      else if pipe_done (us_pipe s) then Some (finish_write p n (Some (writeCloseError (us_pipe s))) s)
      else None)"
| "client_step s (CFail1 e n) = Some (s\<lparr>us_file := set_err e (us_file s), us_client := CFail2 e n\<rparr>)"
| "client_step s (CFail2 e n) =
     Some (s\<lparr>us_pipe := closeRead e (us_pipe s), us_client := CIdle, us_last := Some (RetWrite n (Some e))\<rparr>)"
| "client_step s (CTransfer1 e) = Some (s\<lparr>us_file := set_err e (us_file s), us_client := CTransfer2 e\<rparr>)"
| "client_step s (CTransfer2 e) = Some (s\<lparr>us_pipe := closeRead e (us_pipe s), us_client := CTransfer3 e\<rparr>)"
| "client_step s (CTransfer3 e) =
     Some (s\<lparr>us_pipe := closeWrite (Some e) (us_pipe s), us_client := CIdle, us_last := Some RetTransfer\<rparr>)"
| "client_step s CClose1 = Some (s\<lparr>us_client := CClose2 (recordedErr (us_file s))\<rparr>)"
| "client_step s (CClose2 err) = Some (s\<lparr>us_pipe := closeWrite err (us_pipe s), us_client := CCloseWait\<rparr>)"
| "client_step s CCloseWait =
     (case us_runner s of
        RDone \<Rightarrow> Some (s\<lparr>us_client := CIdle, us_last := Some (RetClose (recordedErr (us_file s)))\<rparr>)
      | _ \<Rightarrow> None)"

definition end_of :: "error \<Rightarrow> body_end" where
  "end_of e = (if e = EOF then AtEOF else ReadFailed e)"

text \<open>The steps of \<^verbatim>\<open>run\<close> that need no data from the writer.\<close>

fun runner_step :: "('w, 'b) s3api \<Rightarrow> ('w, 'b) upload_state \<Rightarrow> 'b runner_pc \<Rightarrow> ('w, 'b) upload_state option" where
  "runner_step api s RStart =
     (let u = us_file s
      in if u_prefixLen u > 0 then
           (case getObject api (u_fs u) (u_key u) 0 (us_w s) of
              (Inl e, w') \<Rightarrow> Some (s\<lparr>us_w := w', us_runner := RFail1 e\<rparr>)
            | (Inr bd, w') \<Rightarrow>
                Some (s\<lparr>us_w := w', us_runner := RPrefix bd (u_prefixLen u), us_open := Some bd\<rparr>))
         else Some (s\<lparr>us_runner := RPipe\<rparr>))"
| "runner_step api s (RPrefix bd left) = (if left \<le> 0 then Some (s\<lparr>us_runner := RPipe\<rparr>) else None)"
| "runner_step api s RPipe =
     (if pipe_done (us_pipe s) then Some (s\<lparr>us_runner := RUpload (end_of (readCloseError (us_pipe s)))\<rparr>)
      else None)"
| "runner_step api s (RUpload fin) =
     (let u = us_file s
      in case Upload api (putObjectInput (bucket (u_fs u)) (u_key u) (us_body s) (u_contentType u)) fin (us_w s) of
           (Inl e, w') \<Rightarrow> Some (s\<lparr>us_w := w', us_runner := RFail1 e\<rparr>)
         | (Inr x, w') \<Rightarrow> Some (s\<lparr>us_w := w', us_runner := RFin\<rparr>))"
| "runner_step api s (RFail1 e) = Some (s\<lparr>us_file := set_err e (us_file s), us_runner := RFail2 e\<rparr>)"
| "runner_step api s (RFail2 e) = Some (s\<lparr>us_pipe := closeRead e (us_pipe s), us_runner := RFin\<rparr>)"
| "runner_step api s RFin =
     (case us_open s of
        None \<Rightarrow> Some (s\<lparr>us_runner := RDone\<rparr>)
      | Some bd \<Rightarrow>
          (case CloseBody api bd (us_w s) of (r, w') \<Rightarrow> Some (s\<lparr>us_w := w', us_runner := RDone\<rparr>)))"
| "runner_step api s RDone = None"

text \<open>A read of the uploader with a buffer of \<open>n\<close> bytes: from the prefix, or from the pipe.\<close>

fun runner_read :: "('w, 'b) s3api \<Rightarrow> nat \<Rightarrow> ('w, 'b) upload_state \<Rightarrow> 'b runner_pc \<Rightarrow> ('w, 'b) upload_state option" where
  "runner_read api n s (RPrefix bd left) =
     (if left \<le> 0 \<or> n = 0 then None
      else (case ReadBody api bd (min n (nat left)) (us_w s) of
              ((bs, err, bd'), w') \<Rightarrow>
                (let s' = s\<lparr>us_w := w', us_body := us_body s @ bs, us_open := Some bd'\<rparr>
                 in case err of
                      None \<Rightarrow> Some (s'\<lparr>us_runner := RPrefix bd' (left - int (length bs))\<rparr>)
                    | Some e \<Rightarrow> Some (s'\<lparr>us_runner := (if e = EOF then RPipe else RUpload (ReadFailed e))\<rparr>))))"
| "runner_read api n s RPipe =
     (case us_client s of
        COffer p k first \<Rightarrow>
          (if n = 0 \<or> offering (COffer p k first) = None then None
           else (let m = min n (length p - k)
                 in Some (s\<lparr>us_body := us_body s @ take m (drop k p), us_client := COffer p (k + m) False\<rparr>)))
      | _ \<Rightarrow> None)"
| "runner_read api n s pc = None"

fun runner_abort :: "('w, 'b) upload_state \<Rightarrow> 'b runner_pc \<Rightarrow> ('w, 'b) upload_state option" where
  "runner_abort s (RPrefix bd left) = Some (s\<lparr>us_runner := RUpload NotDrained\<rparr>)"
| "runner_abort s RPipe = Some (s\<lparr>us_runner := RUpload NotDrained\<rparr>)"
| "runner_abort s pc = None"

datatype upload_event =
    CallWrite bytes | CallTransferError "error option" | CallClose | CallSeek int int
  | ClientStep | RunnerStep | RunnerRead nat | RunnerAbort

fun exec_event :: "('w, 'b) s3api \<Rightarrow> upload_event \<Rightarrow> ('w, 'b) upload_state \<Rightarrow> ('w, 'b) upload_state option" where
  "exec_event api (CallWrite p) s = (if us_client s = CIdle then Some (up_Write p s) else None)"
| "exec_event api (CallTransferError e) s = (if us_client s = CIdle then Some (up_TransferError e s) else None)"
| "exec_event api CallClose s = (if us_client s = CIdle then Some (up_Close s) else None)"
| "exec_event api (CallSeek off wh) s =
     (if us_client s = CIdle
      then (case up_Seek off wh (us_file s) of
              (r, u) \<Rightarrow> Some (s\<lparr>us_file := u, us_last := Some (RetSeek r)\<rparr>))
      else None)"
| "exec_event api ClientStep s = client_step s (us_client s)"
| "exec_event api RunnerStep s = runner_step api s (us_runner s)"
| "exec_event api (RunnerRead n) s = runner_read api n s (us_runner s)"
| "exec_event api RunnerAbort s = runner_abort s (us_runner s)"

fun run_events :: "('w, 'b) s3api \<Rightarrow> upload_event list \<Rightarrow> ('w, 'b) upload_state \<Rightarrow> ('w, 'b) upload_state option" where
  "run_events api [] s = Some s"
| "run_events api (ev # evs) s =
     (case exec_event api ev s of None \<Rightarrow> None | Some s' \<Rightarrow> run_events api evs s')"

text \<open>The methods that do not touch the transfer.\<close>

definition up_WriteAt :: "uploadFile \<Rightarrow> bytes \<Rightarrow> int \<Rightarrow> error + int" where
  "up_WriteAt u p off = Inl (errno ''write'' (u_name u) EINVAL)"

definition up_WriteString :: "string \<Rightarrow> ('w, 'b) upload_state \<Rightarrow> ('w, 'b) upload_state" where
  "up_WriteString t s = up_Write t s"

definition up_Read :: "uploadFile \<Rightarrow> nat \<Rightarrow> error + bytes" where
  "up_Read u n = Inl (Errno EBADF)"

definition up_ReadAt :: "uploadFile \<Rightarrow> nat \<Rightarrow> int \<Rightarrow> error + bytes" where
  "up_ReadAt u n off = Inl (Errno EBADF)"

definition up_Name :: "uploadFile \<Rightarrow> string" where
  "up_Name u = path_Base (u_name u)"

definition up_Readdir :: "uploadFile \<Rightarrow> int \<Rightarrow> error + FileInfo list" where
  "up_Readdir u n = Inl (errno ''readdir'' (u_name u) ENOTDIR)"

definition up_Readdirnames :: "uploadFile \<Rightarrow> int \<Rightarrow> error + string list" where
  "up_Readdirnames u n = Inl (errno ''readdir'' (u_name u) ENOTDIR)"

definition up_Stat :: "('w, 'b) s3api \<Rightarrow> ('w \<Rightarrow> gotime) \<Rightarrow> uploadFile \<Rightarrow> ('w, FileInfo) io" where
  "up_Stat api now u =
     attempt (Stat api (u_fs u) (u_name u)) (\<lambda>r.
       case r of
         Inl err \<Rightarrow> (\<lambda>w. (Inr (NewFileInfo (path_Base (u_name u)) (u_prefixLen u) (now w)), w))
       | Inr info \<Rightarrow> ret info)"

definition up_Sync :: "uploadFile \<Rightarrow> error + unit" where
  "up_Sync u = Inr ()"

definition up_Truncate :: "uploadFile \<Rightarrow> int \<Rightarrow> error + unit" where
  "up_Truncate u n = Inl (errno ''truncate'' (u_name u) EINVAL)"

end
