(* ===== verification/Upload_Spec.thy ===== *)
theory Upload_Spec
  imports Upload Download
begin

text \<open>
  What the upload machine of \<open>Upload\<close> guarantees in every reachable state: the invariant
  that ties the two goroutines together, that a successful close has stored the kept
  prefix followed by every byte written, that an aborted transfer never touches the
  object, and that a close always returns.
\<close>

section \<open>The invariant\<close>

fun in_flight :: "client_pc \<Rightarrow> bytes" where
  "in_flight (COffer p n first) = take n p"
| "in_flight pc = []"

definition taken :: "('w, 'b) upload_state \<Rightarrow> bytes" where
  "taken s = us_acked s @ in_flight (us_client s)"

text \<open>The frame of an upload: where it writes, what was stored before, what it keeps of it.\<close>

record upload_frame =
  fr_file :: uploadFile          \<comment> \<open>the handle as opened\<close>
  fr_objs :: objects
  fr_base :: bytes

definition uploaded :: "upload_frame \<Rightarrow> bytes \<Rightarrow> objects" where
  "uploaded fr bs =
     upd_obj (fr_objs fr) (bucket (u_fs (fr_file fr))) (u_key (fr_file fr)) (Some (fr_base fr @ bs))"

definition frame_ok :: "upload_frame \<Rightarrow> bool" where
  "frame_ok fr \<longleftrightarrow>
     (if u_prefixLen (fr_file fr) > 0
      then \<exists>v. fr_objs fr (bucket (u_fs (fr_file fr))) (u_key (fr_file fr)) = Some v
             \<and> fr_base fr = take (nat (u_prefixLen (fr_file fr))) v
      else fr_base fr = [])"

fun runner_ok :: "('b \<Rightarrow> bytes) \<Rightarrow> upload_frame \<Rightarrow> objects \<Rightarrow> ('w, 'b) upload_state \<Rightarrow> 'b runner_pc \<Rightarrow> bool" where
  "runner_ok rm fr os s RStart \<longleftrightarrow> us_body s = [] \<and> taken s = [] \<and> os = fr_objs fr"
| "runner_ok rm fr os s (RPrefix bd left) \<longleftrightarrow>
     us_body s @ take (nat left) (rm bd) = fr_base fr \<and> taken s = [] \<and> os = fr_objs fr"
| "runner_ok rm fr os s RPipe \<longleftrightarrow> us_body s = fr_base fr @ taken s \<and> os = fr_objs fr"
| "runner_ok rm fr os s (RUpload fin) \<longleftrightarrow> os = fr_objs fr \<and>
     (fin = AtEOF \<longrightarrow> u_closed (us_file s) \<and> us_body s = fr_base fr @ taken s)"
| "runner_ok rm fr os s (RFail1 e) \<longleftrightarrow>
     os = fr_objs fr \<or> u_closed (us_file s) \<and> os = uploaded fr (taken s)"
| "runner_ok rm fr os s (RFail2 e) \<longleftrightarrow> u_err (us_file s) \<noteq> None \<and>
     (os = fr_objs fr \<or> u_closed (us_file s) \<and> os = uploaded fr (taken s))"
| "runner_ok rm fr os s pc \<longleftrightarrow>
     u_closed (us_file s) \<and> os = uploaded fr (taken s)
     \<or> u_err (us_file s) \<noteq> None \<and> rerr (us_pipe s) \<noteq> None \<and> os = fr_objs fr"

fun client_ok :: "('w, 'b) upload_state \<Rightarrow> client_pc \<Rightarrow> bool" where
  "client_ok s CIdle \<longleftrightarrow> (u_closed (us_file s) \<longrightarrow> us_runner s = RDone)"
| "client_ok s (COffer p n first) \<longleftrightarrow> \<not> u_closed (us_file s) \<and> n \<le> length p"
| "client_ok s (CFail1 e n) \<longleftrightarrow> \<not> u_closed (us_file s)"
| "client_ok s (CFail2 e n) \<longleftrightarrow> \<not> u_closed (us_file s) \<and> u_err (us_file s) \<noteq> None"
| "client_ok s (CTransfer1 e) \<longleftrightarrow> (u_closed (us_file s) \<longrightarrow> us_runner s = RDone)"
| "client_ok s (CTransfer2 e) \<longleftrightarrow> (u_closed (us_file s) \<longrightarrow> us_runner s = RDone) \<and> u_err (us_file s) \<noteq> None"
| "client_ok s (CTransfer3 e) \<longleftrightarrow> (u_closed (us_file s) \<longrightarrow> us_runner s = RDone)
     \<and> u_err (us_file s) \<noteq> None \<and> rerr (us_pipe s) \<noteq> None"
| "client_ok s CClose1 \<longleftrightarrow> u_closed (us_file s)"
| "client_ok s (CClose2 err) \<longleftrightarrow> u_closed (us_file s) \<and> (err \<noteq> None \<longrightarrow> u_err (us_file s) \<noteq> None)"
| "client_ok s CCloseWait \<longleftrightarrow> u_closed (us_file s) \<and> werr (us_pipe s) \<noteq> None"

fun closing_read :: "client_pc \<Rightarrow> bool" where
  "closing_read (CFail2 e n) = True"
| "closing_read (CTransfer2 e) = True"
| "closing_read pc = False"

fun failing2 :: "'b runner_pc \<Rightarrow> bool" where
  "failing2 (RFail2 e) = True"
| "failing2 pc = False"

definition pipe_ok :: "('w, 'b) upload_state \<Rightarrow> bool" where
  "pipe_ok s \<longleftrightarrow>
     (werr (us_pipe s) \<noteq> None \<longrightarrow> u_closed (us_file s) \<or> rerr (us_pipe s) \<noteq> None)
     \<and> (u_err (us_file s) \<noteq> None \<and> rerr (us_pipe s) = None \<longrightarrow>
          closing_read (us_client s) \<or> failing2 (us_runner s))
     \<and> (rerr (us_pipe s) \<noteq> None \<longrightarrow> u_err (us_file s) \<noteq> None)"

definition same_upload :: "upload_frame \<Rightarrow> ('w, 'b) upload_state \<Rightarrow> bool" where
  "same_upload fr s \<longleftrightarrow>
     u_fs (us_file s) = u_fs (fr_file fr) \<and> u_key (us_file s) = u_key (fr_file fr)
     \<and> u_prefixLen (us_file s) = u_prefixLen (fr_file fr)"

definition upload_inv ::
  "('b \<Rightarrow> bytes) \<Rightarrow> ('w \<Rightarrow> objects) \<Rightarrow> upload_frame \<Rightarrow> ('w, 'b) upload_state \<Rightarrow> bool" where
  "upload_inv rm obj fr s \<longleftrightarrow>
     frame_ok fr \<and> same_upload fr s \<and> runner_ok rm fr (obj (us_w s)) s (us_runner s)
     \<and> client_ok s (us_client s) \<and> pipe_ok s"

lemmas inv_defs = upload_inv_def same_upload_def pipe_ok_def

lemma store_once_ne [simp]: "store_once c e \<noteq> None" "store_once (Some x) e = Some x" "store_once None e = Some e"
  by (auto simp: store_once_def split: option.splits)

lemma set_err_sel [simp]:
  "u_err (set_err e u) = store_once (u_err u) e" "u_closed (set_err e u) = u_closed u"
  "u_fs (set_err e u) = u_fs u" "u_key (set_err e u) = u_key u" "u_prefixLen (set_err e u) = u_prefixLen u"
  by (simp_all add: set_err_def)

lemma close_sel [simp]:
  "rerr (closeRead e p) = store_once (rerr p) e" "werr (closeRead e p) = werr p"
  "rerr (closeWrite x p) = rerr p" "werr (closeWrite x p) \<noteq> None"
  by (simp_all add: closeRead_def closeWrite_def)

lemma finish_write_sel [simp]:
  "us_w (finish_write p n e s) = us_w s" "us_pipe (finish_write p n e s) = us_pipe s"
  "us_runner (finish_write p n e s) = us_runner s" "us_body (finish_write p n e s) = us_body s"
  "us_open (finish_write p n e s) = us_open s"
  "u_err (us_file (finish_write p n e s)) = u_err (us_file s)"
  "u_closed (us_file (finish_write p n e s)) = u_closed (us_file s)"
  "u_fs (us_file (finish_write p n e s)) = u_fs (us_file s)"
  "u_key (us_file (finish_write p n e s)) = u_key (us_file s)"
  "u_prefixLen (us_file (finish_write p n e s)) = u_prefixLen (us_file s)"
  "us_acked (finish_write p n e s) = us_acked s @ take n p"
  "us_client (finish_write p n e s) = (case e of None \<Rightarrow> CIdle | Some x \<Rightarrow> CFail1 x n)"
  by (simp_all add: finish_write_def Let_def split: option.splits)

text \<open>
  The runner's part reads only some fields of the state, and only gains from a recorded
  error, a closed pipe end or a closed handle.
\<close>

lemma runner_ok_mono:
  assumes "runner_ok rm fr os s pc" "us_body s' = us_body s" "taken s' = taken s"
    and "u_closed (us_file s) \<longrightarrow> u_closed (us_file s')"
    and "u_err (us_file s) \<noteq> None \<longrightarrow> u_err (us_file s') \<noteq> None"
    and "rerr (us_pipe s) \<noteq> None \<longrightarrow> rerr (us_pipe s') \<noteq> None"
  shows "runner_ok rm fr os s' pc"
  using assms by (cases pc) auto

lemma upload_inv_clientI:
  assumes "upload_inv rm obj fr s" "us_w s' = us_w s" "us_runner s' = us_runner s"
    and "us_body s' = us_body s" "taken s' = taken s"
    and "u_closed (us_file s) \<longrightarrow> u_closed (us_file s')"
    and "u_err (us_file s) \<noteq> None \<longrightarrow> u_err (us_file s') \<noteq> None"
    and "rerr (us_pipe s) \<noteq> None \<longrightarrow> rerr (us_pipe s') \<noteq> None"
    and "same_upload fr s'" "client_ok s' (us_client s')" "pipe_ok s'"
  shows "upload_inv rm obj fr s'"
  using assms runner_ok_mono [of rm fr "obj (us_w s)" s "us_runner s" s']
  by (simp add: upload_inv_def)

lemma upload_invD:
  assumes "upload_inv rm obj fr s"
  shows "frame_ok fr" "same_upload fr s" "client_ok s (us_client s)" "pipe_ok s"
    "runner_ok rm fr (obj (us_w s)) s (us_runner s)"
  using assms by (simp_all add: upload_inv_def)

lemma finish_write_inv:
  assumes inv: "upload_inv rm obj fr s" and pc: "us_client s = COffer p n first"
  shows "upload_inv rm obj fr (finish_write p n e s)"
  by (rule upload_inv_clientI [OF inv])
    (use upload_invD(2-4) [OF inv] pc in \<open>auto simp: taken_def same_upload_def pipe_ok_def split: option.splits\<close>)

text \<open>Each step of the client, by the state it leads to.\<close>

lemma client_upd_inv:
  assumes inv: "upload_inv rm obj fr s"
  shows "us_client s = CFail1 e n \<Longrightarrow>
      upload_inv rm obj fr (s\<lparr>us_file := set_err e (us_file s), us_client := CFail2 e n\<rparr>)"
    and "us_client s = CFail2 e n \<Longrightarrow>
      upload_inv rm obj fr (s\<lparr>us_pipe := closeRead e (us_pipe s), us_client := CIdle, us_last := Some (RetWrite n (Some e))\<rparr>)"
    and "us_client s = CTransfer1 e \<Longrightarrow>
      upload_inv rm obj fr (s\<lparr>us_file := set_err e (us_file s), us_client := CTransfer2 e\<rparr>)"
    and "us_client s = CTransfer2 e \<Longrightarrow>
      upload_inv rm obj fr (s\<lparr>us_pipe := closeRead e (us_pipe s), us_client := CTransfer3 e\<rparr>)"
    and "us_client s = CTransfer3 e \<Longrightarrow>
      upload_inv rm obj fr (s\<lparr>us_pipe := closeWrite (Some e) (us_pipe s), us_client := CIdle, us_last := Some RetTransfer\<rparr>)"
    and "us_client s = CClose1 \<Longrightarrow>
      upload_inv rm obj fr (s\<lparr>us_client := CClose2 (recordedErr (us_file s))\<rparr>)"
    and "us_client s = CClose2 err \<Longrightarrow>
      upload_inv rm obj fr (s\<lparr>us_pipe := closeWrite err (us_pipe s), us_client := CCloseWait\<rparr>)"
proof -
  note i = upload_invD(2-4) [OF inv]
  show "upload_inv rm obj fr (s\<lparr>us_file := set_err e (us_file s), us_client := CFail2 e n\<rparr>)"
    if "us_client s = CFail1 e n"
    by (rule upload_inv_clientI [OF inv])
      (use i that in \<open>auto simp: taken_def same_upload_def pipe_ok_def recordedErr_def\<close>)
  show "upload_inv rm obj fr (s\<lparr>us_pipe := closeRead e (us_pipe s), us_client := CIdle, us_last := Some (RetWrite n (Some e))\<rparr>)"
    if "us_client s = CFail2 e n"
    by (rule upload_inv_clientI [OF inv])
      (use i that in \<open>auto simp: taken_def same_upload_def pipe_ok_def recordedErr_def\<close>)
  show "upload_inv rm obj fr (s\<lparr>us_file := set_err e (us_file s), us_client := CTransfer2 e\<rparr>)"
    if "us_client s = CTransfer1 e"
    by (rule upload_inv_clientI [OF inv])
      (use i that in \<open>auto simp: taken_def same_upload_def pipe_ok_def recordedErr_def\<close>)
  show "upload_inv rm obj fr (s\<lparr>us_pipe := closeRead e (us_pipe s), us_client := CTransfer3 e\<rparr>)"
    if "us_client s = CTransfer2 e"
    by (rule upload_inv_clientI [OF inv])
      (use i that in \<open>auto simp: taken_def same_upload_def pipe_ok_def recordedErr_def\<close>)
  show "upload_inv rm obj fr (s\<lparr>us_pipe := closeWrite (Some e) (us_pipe s), us_client := CIdle, us_last := Some RetTransfer\<rparr>)"
    if "us_client s = CTransfer3 e"
    by (rule upload_inv_clientI [OF inv])
      (use i that in \<open>auto simp: taken_def same_upload_def pipe_ok_def recordedErr_def\<close>)
  show "upload_inv rm obj fr (s\<lparr>us_client := CClose2 (recordedErr (us_file s))\<rparr>)"
    if "us_client s = CClose1"
    by (rule upload_inv_clientI [OF inv])
      (use i that in \<open>auto simp: taken_def same_upload_def pipe_ok_def recordedErr_def\<close>)
  show "upload_inv rm obj fr (s\<lparr>us_pipe := closeWrite err (us_pipe s), us_client := CCloseWait\<rparr>)"
    if "us_client s = CClose2 err"
    by (rule upload_inv_clientI [OF inv])
      (use i that in \<open>auto simp: taken_def same_upload_def pipe_ok_def recordedErr_def\<close>)
qed

lemma client_inv:
  assumes inv: "upload_inv rm obj fr s" and step: "client_step s (us_client s) = Some s'"
  shows "upload_inv rm obj fr s'"
proof (cases "us_client s")
  case (COffer p n first)
  with step have "\<exists>e. s' = finish_write p n e s" by (simp split: if_splits) blast+
  with finish_write_inv [OF inv COffer] show ?thesis by blast
next
  case CCloseWait
  with step have d: "us_runner s = RDone"
      "s' = s\<lparr>us_client := CIdle, us_last := Some (RetClose (recordedErr (us_file s)))\<rparr>"
    by (auto split: runner_pc.splits)
  show ?thesis unfolding d(2)
    by (rule upload_inv_clientI [OF inv])
      (use upload_invD(2-4) [OF inv] CCloseWait d(1) in \<open>auto simp: taken_def same_upload_def pipe_ok_def\<close>)
qed (use client_upd_inv [OF inv] step in simp_all)

text \<open>The methods a client calls.\<close>

lemma up_Seek_sel [simp]:
  "u_closed (snd (up_Seek off wh u)) = u_closed u" "u_err (snd (up_Seek off wh u)) = u_err u"
  "u_fs (snd (up_Seek off wh u)) = u_fs u" "u_key (snd (up_Seek off wh u)) = u_key u"
  "u_prefixLen (snd (up_Seek off wh u)) = u_prefixLen u"
  by (auto simp: up_Seek_def Let_def split: option.splits)

lemma call_inv:
  assumes inv: "upload_inv rm obj fr s" and idle: "us_client s = CIdle"
  shows "upload_inv rm obj fr (up_Write p s)" "upload_inv rm obj fr (up_TransferError e s)"
    and "upload_inv rm obj fr (up_Close s)"
    and "upload_inv rm obj fr (s\<lparr>us_file := snd (up_Seek off wh (us_file s)), us_last := l\<rparr>)"
proof -
  note i = upload_invD(2-4) [OF inv]
  note clientI = upload_inv_clientI [OF inv]
  show "upload_inv rm obj fr (up_Write p s)"
    by (rule clientI) (use i idle in \<open>auto simp: up_Write_def taken_def same_upload_def pipe_ok_def\<close>)
  show "upload_inv rm obj fr (up_TransferError e s)"
    by (rule clientI; cases e)
      (use i idle in \<open>auto simp: up_TransferError_def taken_def same_upload_def pipe_ok_def\<close>)
  show "upload_inv rm obj fr (up_Close s)"
    by (rule clientI) (use i idle in \<open>auto simp: up_Close_def taken_def same_upload_def pipe_ok_def\<close>)
  show "upload_inv rm obj fr (s\<lparr>us_file := snd (up_Seek off wh (us_file s)), us_last := l\<rparr>)"
    by (rule clientI) (use i idle in \<open>auto simp: taken_def same_upload_def pipe_ok_def\<close>)
qed

section \<open>The uploader's steps\<close>

text \<open>A step of the runner leaves the client alone; what it changes are the runner's own fields.\<close>

definition runner_upd ::
  "'w \<Rightarrow> 'b runner_pc \<Rightarrow> 'b option \<Rightarrow> bytes \<Rightarrow> ('w, 'b) upload_state \<Rightarrow> ('w, 'b) upload_state" where
  "runner_upd w pc ob bs s = s\<lparr>us_w := w, us_runner := pc, us_open := ob, us_body := bs\<rparr>"

lemma runner_upd_sel [simp]:
  "us_w (runner_upd w pc ob bs s) = w" "us_runner (runner_upd w pc ob bs s) = pc"
  "us_open (runner_upd w pc ob bs s) = ob" "us_body (runner_upd w pc ob bs s) = bs"
  "us_file (runner_upd w pc ob bs s) = us_file s" "us_pipe (runner_upd w pc ob bs s) = us_pipe s"
  "us_client (runner_upd w pc ob bs s) = us_client s" "us_acked (runner_upd w pc ob bs s) = us_acked s"
  "us_last (runner_upd w pc ob bs s) = us_last s" "taken (runner_upd w pc ob bs s) = taken s"
  by (simp_all add: runner_upd_def taken_def)

lemma runner_upd_folds:
  "s\<lparr>us_w := w, us_runner := pc\<rparr> = runner_upd w pc (us_open s) (us_body s) s"
  "s\<lparr>us_runner := pc\<rparr> = runner_upd (us_w s) pc (us_open s) (us_body s) s"
  "s\<lparr>us_w := w, us_runner := pc, us_open := ob\<rparr> = runner_upd w pc ob (us_body s) s"
  "s\<lparr>us_w := w, us_body := bs, us_open := ob, us_runner := pc\<rparr> = runner_upd w pc ob bs s"
  by (simp_all add: runner_upd_def)

lemma client_ok_runner:
  "client_ok s pc \<Longrightarrow> us_runner s \<noteq> RDone \<Longrightarrow> client_ok (runner_upd w rpc ob bs s) pc"
  by (cases pc) simp_all

lemma runner_upd_inv:
  assumes "upload_inv rm obj fr s" "us_runner s \<noteq> RDone" "\<not> failing2 (us_runner s)"
    and "runner_ok rm fr (obj w) (runner_upd w pc ob bs s) pc"
  shows "upload_inv rm obj fr (runner_upd w pc ob bs s)"
  using assms client_ok_runner [of s "us_client s"]
  by (simp add: upload_inv_def same_upload_def pipe_ok_def)

lemma runner_fail_inv:
  assumes inv: "upload_inv rm obj fr s"
  shows "us_runner s = RFail1 e \<Longrightarrow>
      upload_inv rm obj fr (s\<lparr>us_file := set_err e (us_file s), us_runner := RFail2 e\<rparr>)"
    and "us_runner s = RFail2 e \<Longrightarrow>
      upload_inv rm obj fr (s\<lparr>us_pipe := closeRead e (us_pipe s), us_runner := RFin\<rparr>)"
proof -
  note i = upload_invD [OF inv]
  have c1: "client_ok (s\<lparr>us_file := set_err e (us_file s), us_runner := RFail2 e\<rparr>) (us_client s)"
    if "us_runner s = RFail1 e" using i(3) that by (cases "us_client s") simp_all
  have c2: "client_ok (s\<lparr>us_pipe := closeRead e (us_pipe s), us_runner := RFin\<rparr>) (us_client s)"
    if "us_runner s = RFail2 e" using i(3) that by (cases "us_client s") simp_all
  show "upload_inv rm obj fr (s\<lparr>us_file := set_err e (us_file s), us_runner := RFail2 e\<rparr>)"
    if "us_runner s = RFail1 e"
    using i(1,2,4,5) c1 [OF that] that
    by (simp add: upload_inv_def same_upload_def pipe_ok_def taken_def)
  show "upload_inv rm obj fr (s\<lparr>us_pipe := closeRead e (us_pipe s), us_runner := RFin\<rparr>)"
    if "us_runner s = RFail2 e"
    using i(1,2,4,5) c2 [OF that] that
    by (auto simp add: upload_inv_def same_upload_def pipe_ok_def taken_def)
qed

lemma end_of_eof: "end_of (readCloseError p) = AtEOF \<longleftrightarrow> rerr p = None \<and> werr p = Some EOF"
  by (auto simp: end_of_def readCloseError_def split: option.splits)

context s3_service
begin

lemma runner_start_inv:
  assumes inv: "upload_inv rem objs fr s" and pc: "us_runner s = RStart"
    and step: "runner_step api s RStart = Some s'"
  shows "upload_inv rem objs fr s'"
proof -
  let ?u = "us_file s"
  note i = upload_invD [OF inv]
  from i(5) pc have st: "us_body s = []" "taken s = []" "objs (us_w s) = fr_objs fr" by simp_all
  note upd = runner_upd_inv [OF inv, unfolded pc, simplified]
  show ?thesis
  proof (cases "u_prefixLen ?u > 0")
    case False
    with i(1,2) have "fr_base fr = []" by (simp add: frame_ok_def same_upload_def)
    with st have "upload_inv rem objs fr (runner_upd (us_w s) RPipe (us_open s) (us_body s) s)"
      by (intro upd) simp
    with False step show ?thesis by (simp add: runner_upd_folds(2))
  next
    case True
    with i(1,2) st obtain v where v: "objs (us_w s) (bucket (u_fs ?u)) (u_key ?u) = Some v"
        "fr_base fr = take (nat (u_prefixLen ?u)) v"
      by (auto simp: frame_ok_def same_upload_def)
    obtain r w' where g: "getObject api (u_fs ?u) (u_key ?u) 0 (us_w s) = (r, w')" by fastforce
    note gb = getObject_body [OF g v(1), simplified]
    show ?thesis
    proof (cases r)
      case (Inl e)
      have "upload_inv rem objs fr (runner_upd w' (RFail1 e) (us_open s) (us_body s) s)"
        using st gb(1) by (intro upd) simp
      with True Inl g step show ?thesis by (simp add: runner_upd_folds(1))
    next
      case (Inr bd)
      have "upload_inv rem objs fr (runner_upd w' (RPrefix bd (u_prefixLen ?u)) (Some bd) (us_body s) s)"
        using st gb Inr v by (intro upd) simp
      with True Inr g step show ?thesis by (simp add: runner_upd_folds(3))
    qed
  qed
qed

lemma runner_upload_inv:
  assumes inv: "upload_inv rem objs fr s" and pc: "us_runner s = RUpload fin"
    and step: "runner_step api s (RUpload fin) = Some s'"
  shows "upload_inv rem objs fr s'"
proof -
  let ?u = "us_file s"
  let ?inp = "putObjectInput (bucket (u_fs ?u)) (u_key ?u) (us_body s) (u_contentType ?u)"
  note i = upload_invD [OF inv]
  note upd = runner_upd_inv [OF inv, unfolded pc, simplified]
  obtain r w' where up: "Upload api ?inp fin (us_w s) = (r, w')" by fastforce
  from i(5) pc have st: "objs (us_w s) = fr_objs fr"
    "fin = AtEOF \<longrightarrow> u_closed ?u \<and> us_body s = fr_base fr @ taken s" by simp_all
  have new: "upd_obj (objs (us_w s)) (put_Bucket ?inp) (put_Key ?inp) (Some (put_Body ?inp)) = uploaded fr (taken s)"
    if "fin = AtEOF" using that st i(2) by (simp add: uploaded_def same_upload_def)
  show ?thesis
  proof (cases r)
    case (Inl e)
    from upload_failed [OF up [unfolded Inl]] new st
    have "objs w' = fr_objs fr \<or> u_closed ?u \<and> objs w' = uploaded fr (taken s)" by auto
    then have "upload_inv rem objs fr (runner_upd w' (RFail1 e) (us_open s) (us_body s) s)"
      by (intro upd) simp
    with Inl step up show ?thesis by (simp add: runner_upd_folds(1))
  next
    case (Inr x)
    then have "r = Inr ()" by simp
    from upload_done [OF up [unfolded this]] new st
    have "u_closed ?u \<and> objs w' = uploaded fr (taken s)" by auto
    then have "upload_inv rem objs fr (runner_upd w' RFin (us_open s) (us_body s) s)"
      by (intro upd) simp
    with Inr step up show ?thesis by (simp add: runner_upd_folds(1) Let_def)
  qed
qed

lemma runner_step_inv:
  assumes inv: "upload_inv rem objs fr s" and step: "runner_step api s (us_runner s) = Some s'"
  shows "upload_inv rem objs fr s'"
proof -
  note i = upload_invD [OF inv]
  show ?thesis
  proof (cases "us_runner s")
    case RStart
    with inv step show ?thesis by (simp only: runner_start_inv)
  next
    case (RPrefix bd left)
    with i(5) have "left \<le> 0 \<Longrightarrow> us_body s = fr_base fr @ taken s \<and> objs (us_w s) = fr_objs fr" by simp
    with runner_upd_inv [OF inv, of "us_w s" RPipe "us_open s" "us_body s"] RPrefix step
    show ?thesis by (simp add: runner_upd_folds(2) split: if_splits)
  next
    case RPipe
    have "u_closed (us_file s)" if "rerr (us_pipe s) = None" "werr (us_pipe s) = Some EOF"
      using i(4) that by (simp add: pipe_ok_def)
    with runner_upd_inv [OF inv, of "us_w s" "RUpload (end_of (readCloseError (us_pipe s)))" "us_open s" "us_body s"]
      RPipe step i(5)
    show ?thesis by (simp add: runner_upd_folds(2) end_of_eof split: if_splits)
  next
    case (RUpload fin)
    with inv step show ?thesis by (metis runner_upload_inv)
  next
    case (RFail1 e)
    with runner_fail_inv(1) [OF inv] step show ?thesis by simp
  next
    case (RFail2 e)
    with runner_fail_inv(2) [OF inv] step show ?thesis by simp
  next
    case RFin
    have "\<exists>w'. s' = runner_upd w' RDone (us_open s) (us_body s) s \<and> objs w' = objs (us_w s)"
    proof (cases "us_open s")
      case None
      with RFin step show ?thesis by (intro exI [of _ "us_w s"]) (simp add: runner_upd_folds(2))
    next
      case (Some bd)
      obtain r w' where "CloseBody api bd (us_w s) = (r, w')" by fastforce
      with RFin Some step close_frame show ?thesis
        by (intro exI [of _ w']) (simp add: runner_upd_folds(1))
    qed
    then obtain w' where s': "s' = runner_upd w' RDone (us_open s) (us_body s) s" "objs w' = objs (us_w s)"
      by blast
    with runner_upd_inv [OF inv, of w' RDone "us_open s" "us_body s"] RFin i(5) show ?thesis by simp
  next
    case RDone
    with step show ?thesis by simp
  qed
qed

lemma prefix_read_inv:
  assumes inv: "upload_inv rem objs fr s" and pc: "us_runner s = RPrefix bd left"
    and step: "runner_read api n s (RPrefix bd left) = Some s'"
  shows "upload_inv rem objs fr s'"
proof -
  from upload_invD(5) [OF inv] pc have st: "us_body s @ take (nat left) (rem bd) = fr_base fr"
    "taken s = []" "objs (us_w s) = fr_objs fr" by simp_all
  note upd = runner_upd_inv [OF inv, unfolded pc, simplified]
  obtain bs e bd' w' where rd: "ReadBody api bd (min n (nat left)) (us_w s) = ((bs, e, bd'), w')"
    by (metis surj_pair)
  from step have left: "0 < left" by (simp split: if_splits)
  note sp = rd_split [OF rd] and fr = read_frame [OF rd]
  have base: "(us_body s @ bs) @ take (nat (left - int (length bs))) (rem bd') = fr_base fr"
    using st(1) sp left by (auto simp: nat_diff_distrib)
  let ?s = "\<lambda>pc. runner_upd w' pc (Some bd') (us_body s @ bs) s"
  show ?thesis
  proof (cases e)
    case None
    have "upload_inv rem objs fr (?s (RPrefix bd' (left - int (length bs))))"
      using base st fr by (intro upd) simp
    with None rd step left show ?thesis by (simp add: Let_def runner_upd_folds(4) split: if_splits)
  next
    case (Some x)
    have "rem bd' = []" if "x = EOF" using rd_eof rd Some that by blast
    then have "upload_inv rem objs fr (?s (if x = EOF then RPipe else RUpload (ReadFailed x)))"
      using base st fr by (intro upd) auto
    with Some rd step left show ?thesis by (simp add: Let_def runner_upd_folds(4) split: if_splits)
  qed
qed

lemma pipe_read_inv:
  assumes inv: "upload_inv rem objs fr s" and pc: "us_runner s = RPipe"
    and step: "runner_read api n s RPipe = Some s'"
  shows "upload_inv rem objs fr s'"
proof -
  note i = upload_invD [OF inv]
  from step obtain p k first where cl: "us_client s = COffer p k first"
    by (auto split: client_pc.splits)
  let ?m = "min n (length p - k)"
  from step cl have s': "s' = s\<lparr>us_body := us_body s @ take ?m (drop k p), us_client := COffer p (k + ?m) False\<rparr>"
    by (simp add: Let_def split: if_splits)
  have "take k p @ take ?m (drop k p) = take (k + ?m) p" by (simp add: take_add)
  then have "taken s' = taken s @ take ?m (drop k p)" by (simp add: s' taken_def cl)
  with i pc cl show ?thesis
    by (auto simp: s' upload_inv_def same_upload_def pipe_ok_def)
qed

lemma event_inv:
  assumes inv: "upload_inv rem objs fr s" and step: "exec_event api ev s = Some s'"
  shows "upload_inv rem objs fr s'"
proof (cases ev)
  case (CallWrite p)
  with step call_inv(1) [OF inv] show ?thesis by (auto split: if_splits)
next
  case (CallTransferError e)
  with step call_inv(2) [OF inv] show ?thesis by (auto split: if_splits)
next
  case CallClose
  with step call_inv(3) [OF inv] show ?thesis by (auto split: if_splits)
next
  case (CallSeek off wh)
  obtain r u where "up_Seek off wh (us_file s) = (r, u)" by fastforce
  with CallSeek step call_inv(4) [OF inv, where off = off and wh = wh and l = "Some (RetSeek r)"] show ?thesis
    by (auto split: if_splits)
next
  case ClientStep
  with step client_inv [OF inv] show ?thesis by simp
next
  case RunnerStep
  with step runner_step_inv [OF inv] show ?thesis by simp
next
  case (RunnerRead n)
  with step have rr: "runner_read api n s (us_runner s) = Some s'" by simp
  then show ?thesis
    by (cases "us_runner s") (use rr prefix_read_inv [OF inv] pipe_read_inv [OF inv] in auto)
next
  case RunnerAbort
  have "upload_inv rem objs fr (runner_upd (us_w s) (RUpload NotDrained) (us_open s) (us_body s) s)"
    if "us_runner s = RPipe \<or> (\<exists>bd left. us_runner s = RPrefix bd left)"
    using that upload_invD(5) [OF inv] by (intro runner_upd_inv [OF inv]) auto
  with RunnerAbort step show ?thesis
    by (cases "us_runner s") (auto simp: runner_upd_folds(2))
qed

lemma run_events_inv:
  "upload_inv rem objs fr s \<Longrightarrow> run_events api evs s = Some s' \<Longrightarrow> upload_inv rem objs fr s'"
  by (induction evs arbitrary: s) (auto split: option.splits dest: event_inv)

end

section \<open>From the open call\<close>

text \<open>What an upload keeps of the object it is opened on, by its flags and offset.\<close>

definition kept_prefix :: "flags \<Rightarrow> int \<Rightarrow> bytes option \<Rightarrow> bytes" where
  "kept_prefix fl offset old =
     (case old of
        None \<Rightarrow> []
      | Some v \<Rightarrow>
          if fl AND O_TRUNC \<noteq> 0 then []
          else if fl AND O_APPEND \<noteq> 0 then v
          else take (nat offset) v)"

definition upload_of :: "'w \<Rightarrow> ('w \<Rightarrow> objects) \<Rightarrow> uploadFile \<Rightarrow> bytes \<Rightarrow> upload_frame" where
  "upload_of w obj u base = \<lparr>fr_file = u, fr_objs = obj w, fr_base = base\<rparr>"

context s3_service
begin

lemma upload_prefix_ok:
  assumes "upload_prefix api f clean fl offset w = (Inr n, w')"
  shows "objs w' = objs w"
    and "n > 0 \<Longrightarrow> \<exists>v. objs w (bucket f) (FS_key f clean) = Some v
           \<and> take (nat n) v = kept_prefix fl offset (Some v)"
    and "\<not> n > 0 \<Longrightarrow> kept_prefix fl offset (objs w (bucket f) (FS_key f clean)) = []"
proof -
  obtain r w1 where h: "headSize api f (FS_key f clean) w = (r, w1)" by fastforce
  note hc = headSize_cases [OF h]
  show "objs w' = objs w"
    using assms h hc(1)
    by (cases r) (auto simp: upload_prefix_def io_simps split: if_splits option.splits)
  have cases: "(fl AND O_TRUNC \<noteq> 0 \<or> fl AND O_APPEND = 0 \<and> offset \<le> 0) \<and> n = 0
    \<or> fl AND O_TRUNC = 0 \<and> fl AND O_APPEND \<noteq> 0 \<and>
        (r = Inr None \<and> n = 0 \<or> (\<exists>sz. r = Inr (Some sz) \<and> n = sz))
    \<or> fl AND O_TRUNC = 0 \<and> fl AND O_APPEND = 0 \<and> offset > 0 \<and> (\<exists>sz. r = Inr (Some sz) \<and> n = min offset sz)"
    using assms h
    by (cases r) (auto simp: upload_prefix_def io_simps split: if_splits option.splits)
  show "\<exists>v. objs w (bucket f) (FS_key f clean) = Some v \<and> take (nat n) v = kept_prefix fl offset (Some v)"
    if "n > 0" using cases hc(3) that by (auto simp: kept_prefix_def min_def nat_le_iff split: if_splits)
  show "kept_prefix fl offset (objs w (bucket f) (FS_key f clean)) = []" if "\<not> n > 0"
    using cases hc(2,3) that by (auto simp: kept_prefix_def min_def split: if_splits option.splits)
qed

lemma openUpload_start:
  assumes "openUpload api mime f clean fl offset w = (Inr u, w')"
  defines "base \<equiv> kept_prefix fl offset (objs w (bucket f) (FS_key f clean))"
  shows "upload_inv rem objs (upload_of w objs u base) (upload_start u w')"
    and "u_fs u = f" "u_key u = FS_key f clean" "objs w' = objs w"
proof -
  from assms(1) obtain n w1 where pr: "upload_prefix api f clean fl offset w = (Inr n, w1)"
    and u: "u = \<lparr>u_fs = f, u_name = clean, u_key = FS_key f clean,
      u_contentType = objectContentType mime (FS_key f clean), u_prefixLen = n,
      u_err = None, u_closed = False, u_pos = n, u_written = 0\<rparr>" "w' = w1"
    unfolding openUpload_def by (rule andThen_InrE) (auto simp: ret_def)
  note pr' = upload_prefix_ok [OF pr]
  show "u_fs u = f" "u_key u = FS_key f clean" "objs w' = objs w" using u pr'(1) by simp_all
  have "frame_ok (upload_of w objs u base)"
    using pr'(2,3) u by (auto simp: frame_ok_def upload_of_def base_def)
  with u pr'(1) show "upload_inv rem objs (upload_of w objs u base) (upload_start u w')"
    by (simp add: upload_inv_def upload_start_def same_upload_def pipe_ok_def taken_def upload_of_def)
qed

end

section \<open>What Close reports\<close>

text \<open>
  The result of a close is the recorded error after the uploader has finished; a recorded
  error is never taken back.
\<close>

fun runner_event :: "upload_event \<Rightarrow> bool" where
  "runner_event RunnerStep = True"
| "runner_event (RunnerRead n) = True"
| "runner_event RunnerAbort = True"
| "runner_event ev = False"

fun offers :: "client_pc \<Rightarrow> bool" where
  "offers (COffer p n first) = True"
| "offers pc = False"

lemma runner_keeps:
  assumes "exec_event api ev s = Some s'" "runner_event ev"
  shows "us_last s' = us_last s" "u_closed (us_file s') = u_closed (us_file s)"
    and "u_err (us_file s) \<noteq> None \<Longrightarrow> u_err (us_file s') \<noteq> None" "us_runner s \<noteq> RDone"
    and "\<not> offers (us_client s) \<Longrightarrow> us_client s' = us_client s \<and> us_acked s' = us_acked s"
  using assms
  by (auto elim!: runner_event.elims runner_step.elims runner_read.elims runner_abort.elims
      simp: Let_def split: if_splits option.splits prod.splits sum.splits client_pc.splits)

lemma client_keeps:
  assumes "exec_event api ev s = Some s'" "\<not> runner_event ev"
  shows "us_w s' = us_w s" "us_runner s' = us_runner s"
    and "u_err (us_file s) \<noteq> None \<Longrightarrow> u_err (us_file s') \<noteq> None"
proof -
  have call: "us_w (up_Write p s) = us_w s" "us_runner (up_Write p s) = us_runner s"
      "u_err (us_file (up_Write p s)) = u_err (us_file s)"
      "us_w (up_TransferError e s) = us_w s" "us_runner (up_TransferError e s) = us_runner s"
      "u_err (us_file (up_TransferError e s)) = u_err (us_file s)"
      "us_w (up_Close s) = us_w s" "us_runner (up_Close s) = us_runner s"
      "u_err (us_file (up_Close s)) = u_err (us_file s)" for p e
    by (simp_all add: up_Write_def up_TransferError_def up_Close_def split: option.splits)
  have seek: "u_err u = u_err (us_file s)" if "up_Seek off wh (us_file s) = (r, u)" for off wh r u
    using up_Seek_sel(2) [of off wh "us_file s"] that by simp
  have step: "us_w s' = us_w s \<and> us_runner s' = us_runner s
      \<and> (u_err (us_file s) \<noteq> None \<longrightarrow> u_err (us_file s') \<noteq> None)" if "ev = ClientStep"
    using assms(1) that by (cases "us_client s") (auto split: if_splits runner_pc.splits)
  have "us_w s' = us_w s \<and> us_runner s' = us_runner s
      \<and> (u_err (us_file s) \<noteq> None \<longrightarrow> u_err (us_file s') \<noteq> None)"
    using assms step by (cases ev) (auto simp: call seek split: if_splits prod.splits)
  then show "us_w s' = us_w s" "us_runner s' = us_runner s"
    "u_err (us_file s) \<noteq> None \<Longrightarrow> u_err (us_file s') \<noteq> None" by blast+
qed

definition stored :: "('w \<Rightarrow> objects) \<Rightarrow> upload_frame \<Rightarrow> ('w, 'b) upload_state \<Rightarrow> bool" where
  "stored obj fr s \<longleftrightarrow> (us_last s = Some (RetClose None) \<longrightarrow>
     u_closed (us_file s) \<and> us_runner s = RDone \<and> obj (us_w s) = uploaded fr (us_acked s))"

lemma closed_taken: "upload_inv rm obj fr s \<Longrightarrow> u_closed (us_file s) \<Longrightarrow> taken s = us_acked s"
  using upload_invD(3) [of rm obj fr s] by (cases "us_client s") (auto simp: taken_def)

lemma closed_not_offers: "upload_inv rm obj fr s \<Longrightarrow> u_closed (us_file s) \<Longrightarrow> \<not> offers (us_client s)"
  using upload_invD(3) [of rm obj fr s] by (cases "us_client s") auto

text \<open>Once closed, a client's step changes neither the acknowledged bytes nor the flag.\<close>

lemma closed_client_step:
  assumes "upload_inv rm obj fr s" "u_closed (us_file s)" "client_step s (us_client s) = Some s'"
  shows "u_closed (us_file s') \<and> us_acked s' = us_acked s"
    and "us_last s' = us_last s \<or> us_last s' = Some RetTransfer
      \<or> us_runner s = RDone \<and> us_last s' = Some (RetClose (u_err (us_file s')))"
proof -
  let ?lst = "us_last s' = us_last s \<or> us_last s' = Some RetTransfer
      \<or> us_runner s = RDone \<and> us_last s' = Some (RetClose (u_err (us_file s')))"
  have "(u_closed (us_file s') \<and> us_acked s' = us_acked s) \<and> ?lst"
    using assms upload_invD(3) [OF assms(1)]
    by (cases "us_client s") (auto simp: recordedErr_def split: runner_pc.splits)
  then show "u_closed (us_file s') \<and> us_acked s' = us_acked s" ?lst by blast+
qed

lemma open_client_step:
  assumes "upload_inv rm obj fr s" "\<not> u_closed (us_file s)" "client_step s (us_client s) = Some s'"
  shows "\<not> u_closed (us_file s')"
    and "us_last s' = us_last s \<or> us_last s' = Some RetTransfer \<or> (\<exists>n e. us_last s' = Some (RetWrite n e))"
proof -
  let ?lst = "us_last s' = us_last s \<or> us_last s' = Some RetTransfer \<or> (\<exists>n e. us_last s' = Some (RetWrite n e))"
  have "\<not> u_closed (us_file s') \<and> ?lst"
    using assms upload_invD(3) [OF assms(1)]
    by (cases "us_client s") (auto simp: finish_write_def Let_def split: if_splits option.splits)
  then show "\<not> u_closed (us_file s')" ?lst by blast+
qed

lemma stored_event:
  assumes inv: "upload_inv rm obj fr s" and st: "stored obj fr s"
    and inv': "upload_inv rm obj fr s'" and step: "exec_event api ev s = Some s'"
  shows "stored obj fr s'"
proof (cases "runner_event ev")
  case True
  with runner_keeps(1,4) [OF step True] st show ?thesis by (auto simp: stored_def)
next
  case False
  note ck = client_keeps [OF step False]
  have again: "us_runner s = RDone \<and> obj (us_w s) = uploaded fr (us_acked s)"
    if "u_closed (us_file s)" "us_client s = CIdle" "u_err (us_file s) = None"
    using upload_invD(3,5) [OF inv] that closed_taken [OF inv] by auto
  show ?thesis
  proof (cases ev)
    case ClientStep
    with step have cs: "client_step s (us_client s) = Some s'" by simp
    show ?thesis
    proof (cases "u_closed (us_file s)")
      case True
      note c = closed_client_step [OF inv True cs]
      have "obj (us_w s) = uploaded fr (us_acked s)"
        if "us_runner s = RDone" "u_err (us_file s') = None"
        using upload_invD(5) [OF inv'] that ck(2) c closed_taken [OF inv'] ck(1) by auto
      with c ck st show ?thesis unfolding stored_def
        by (metis client_ret.distinct(7) client_ret.inject(2) option.inject)
    next
      case open': False
      with open_client_step [OF inv open' cs] st show ?thesis by (auto simp: stored_def)
    qed
  qed (use step st False ck again in \<open>auto simp: stored_def up_Write_def up_TransferError_def up_Close_def
    finish_write_def Let_def recordedErr_def split: if_splits option.splits prod.splits\<close>)
qed

section \<open>Aborted transfers\<close>

text \<open>An upload whose client reported a transfer error before closing.\<close>

definition doomed :: "('w \<Rightarrow> objects) \<Rightarrow> upload_frame \<Rightarrow> ('w, 'b) upload_state \<Rightarrow> bool" where
  "doomed obj fr s \<longleftrightarrow> u_err (us_file s) \<noteq> None \<and> obj (us_w s) = fr_objs fr
     \<and> us_runner s \<noteq> RUpload AtEOF \<and> us_last s \<noteq> Some (RetClose None)"

definition aborting :: "('w \<Rightarrow> objects) \<Rightarrow> upload_frame \<Rightarrow> ('w, 'b) upload_state \<Rightarrow> bool" where
  "aborting obj fr s \<longleftrightarrow> doomed obj fr s
     \<or> \<not> u_closed (us_file s) \<and> (\<exists>e. us_client s = CTransfer1 e) \<and> us_last s \<noteq> Some (RetClose None)"

lemma no_clean_end:
  assumes "upload_inv rm obj fr s" "u_err (us_file s) \<noteq> None" "us_runner s = RPipe"
  shows "end_of (readCloseError (us_pipe s)) \<noteq> AtEOF"
  using upload_invD(3,4) [OF assms(1)] assms(2,3)
  by (cases "us_client s") (auto simp: end_of_eof pipe_ok_def)

lemma open_untouched:
  assumes "upload_inv rm obj fr s" "\<not> u_closed (us_file s)"
  shows "obj (us_w s) = fr_objs fr" "us_runner s \<noteq> RUpload AtEOF"
proof -
  have "obj (us_w s) = fr_objs fr \<and> us_runner s \<noteq> RUpload AtEOF"
    using upload_invD(5) [OF assms(1)] assms(2) by (cases "us_runner s") auto
  then show "obj (us_w s) = fr_objs fr" "us_runner s \<noteq> RUpload AtEOF" by blast+
qed

context s3_service
begin

lemma doomed_runner:
  assumes inv: "upload_inv rem objs fr s" and d: "doomed objs fr s"
    and step: "exec_event api ev s = Some s'" and re: "runner_event ev"
  shows "objs (us_w s') = fr_objs fr" "us_runner s' \<noteq> RUpload AtEOF"
proof -
  from d have o: "objs (us_w s) = fr_objs fr" and ne: "us_runner s \<noteq> RUpload AtEOF"
    and err: "u_err (us_file s) \<noteq> None" by (simp_all add: doomed_def)
  have up: "objs w' = fr_objs fr \<and> (\<exists>e. r = Inl e)"
    if "Upload api inp fin (us_w s) = (r, w')" "fin \<noteq> AtEOF" for inp fin r w'
  proof (cases r)
    case (Inl e)
    with that upload_failed [of inp fin "us_w s" e w'] o show ?thesis by auto
  next
    case (Inr x)
    with that upload_done [of inp fin "us_w s" w'] show ?thesis by auto
  qed
  have get: "getObject api f k off (us_w s) = (r, w') \<Longrightarrow> objs w' = fr_objs fr" for f k off r w'
    using o get_frame unfolding getObject_def by metis
  have "objs (us_w s') = fr_objs fr \<and> us_runner s' \<noteq> RUpload AtEOF"
  proof (cases ev)
    case RunnerStep
    then have st: "runner_step api s (us_runner s) = Some s'" using step by simp
    show ?thesis
    proof (cases "us_runner s")
      case RStart
      with st o get show ?thesis by (auto simp: Let_def split: if_splits prod.splits sum.splits)
    next
      case RPipe
      with st o no_clean_end [OF inv err RPipe] show ?thesis by (auto split: if_splits)
    next
      case (RUpload fin)
      with ne have "fin \<noteq> AtEOF" by simp
      with st RUpload show ?thesis
        by (auto simp: Let_def split: prod.splits sum.splits dest!: up)
    next
      case RFin
      with st o close_frame show ?thesis by (auto split: option.splits prod.splits)
    qed (use st o in \<open>auto split: if_splits\<close>)
  next
    case (RunnerRead n)
    with step have "runner_read api n s (us_runner s) = Some s'" by simp
    with o show ?thesis
      by (cases "us_runner s")
        (auto simp: Let_def dest!: read_frame split: if_splits prod.splits option.splits client_pc.splits)
  next
    case RunnerAbort
    with step o show ?thesis by (cases "us_runner s") auto
  qed (use re in auto)
  then show "objs (us_w s') = fr_objs fr" "us_runner s' \<noteq> RUpload AtEOF" by blast+
qed

lemma doomed_event:
  assumes inv: "upload_inv rem objs fr s" and d: "doomed objs fr s" and step: "exec_event api ev s = Some s'"
  shows "doomed objs fr s'"
proof (cases "runner_event ev")
  case True
  with doomed_runner [OF inv d step True] runner_keeps [OF step True] d show ?thesis
    by (simp add: doomed_def)
next
  case False
  note ck = client_keeps [OF step False]
  from d have err: "u_err (us_file s) \<noteq> None" by (simp add: doomed_def)
  have "us_last s' \<noteq> Some (RetClose None)"
  proof (cases "ev = ClientStep")
    case True
    with step have cs: "client_step s (us_client s) = Some s'" by simp
    show ?thesis
    proof (cases "u_closed (us_file s)")
      case True
      with closed_client_step(2) [OF inv True cs] ck(3) [OF err] d show ?thesis by (auto simp: doomed_def)
    next
      case False
      with open_client_step(2) [OF inv False cs] d show ?thesis by (auto simp: doomed_def)
    qed
  next
    case False
    with step d err \<open>\<not> runner_event ev\<close> show ?thesis
      by (cases ev) (auto simp: doomed_def up_Write_def up_TransferError_def up_Close_def
          finish_write_def Let_def recordedErr_def split: if_splits option.splits prod.splits)
  qed
  with ck ck(3) [OF err] d show ?thesis by (simp add: doomed_def)
qed

lemma aborting_event:
  assumes inv: "upload_inv rem objs fr s" and a: "aborting objs fr s" and step: "exec_event api ev s = Some s'"
  shows "aborting objs fr s'"
proof (cases "doomed objs fr s")
  case True
  with doomed_event [OF inv True step] show ?thesis by (simp add: aborting_def)
next
  case False
  with a obtain e where s: "\<not> u_closed (us_file s)" "us_client s = CTransfer1 e"
      "us_last s \<noteq> Some (RetClose None)" by (auto simp: aborting_def)
  show ?thesis
  proof (cases "runner_event ev")
    case True
    with runner_keeps [OF step True] s show ?thesis by (simp add: aborting_def)
  next
    case False
    with step s(2) have "s' = s\<lparr>us_file := set_err e (us_file s), us_client := CTransfer2 e\<rparr>"
      by (cases ev) auto
    with s open_untouched [OF inv s(1)] show ?thesis by (simp add: aborting_def doomed_def)
  qed
qed

lemma run_stored:
  "upload_inv rem objs fr s \<Longrightarrow> stored objs fr s \<Longrightarrow> run_events api evs s = Some s' \<Longrightarrow> stored objs fr s'"
proof (induction evs arbitrary: s)
  case (Cons ev evs)
  then obtain s1 where s1: "exec_event api ev s = Some s1" "run_events api evs s1 = Some s'"
    by (auto split: option.splits)
  note i1 = event_inv [OF Cons.prems(1) s1(1)]
  from Cons.IH [OF i1 stored_event [OF Cons.prems(1,2) i1 s1(1)] s1(2)] show ?case .
qed simp

lemma run_aborting:
  "upload_inv rem objs fr s \<Longrightarrow> aborting objs fr s \<Longrightarrow> run_events api evs s = Some s' \<Longrightarrow> aborting objs fr s'"
proof (induction evs arbitrary: s)
  case (Cons ev evs)
  then obtain s1 where s1: "exec_event api ev s = Some s1" "run_events api evs s1 = Some s'"
    by (auto split: option.splits)
  from Cons.IH [OF event_inv [OF Cons.prems(1) s1(1)] aborting_event [OF Cons.prems(1,2) s1(1)] s1(2)]
  show ?case .
qed simp

lemma aborting_result:
  assumes "upload_inv rem objs fr s" "aborting objs fr s"
  shows "objs (us_w s) = fr_objs fr \<and> us_last s \<noteq> Some (RetClose None)"
  using assms(2) open_untouched(1) [OF assms(1)] by (auto simp: aborting_def doomed_def)

end

section \<open>Progress\<close>

text \<open>How many more steps the uploader can take once its pipe is closed and no write is pending.\<close>

definition runner_rank :: "('w, 'b) upload_state \<Rightarrow> nat" where
  "runner_rank s =
     (case us_runner s of
        RStart \<Rightarrow> 8 + nat (u_prefixLen (us_file s))
      | RPrefix bd left \<Rightarrow> 7 + nat left
      | RPipe \<Rightarrow> 6
      | RUpload fin \<Rightarrow> 5
      | RFail1 e \<Rightarrow> 4
      | RFail2 e \<Rightarrow> 3
      | RFin \<Rightarrow> 2
      | RDone \<Rightarrow> 1)"

context s3_service
begin

lemma runner_rank_decreases:
  assumes "exec_event api ev s = Some s'" "runner_event ev" "\<not> offers (us_client s)"
  shows "runner_rank s' < runner_rank s"
proof (cases ev)
  case RunnerStep
  with assms(1) have "runner_step api s (us_runner s) = Some s'" by simp
  then show ?thesis
    by (cases "us_runner s")
      (auto simp: runner_rank_def Let_def split: if_splits prod.splits sum.splits option.splits)
next
  case (RunnerRead n)
  with assms(1) have rr: "runner_read api n s (us_runner s) = Some s'" by simp
  show ?thesis
  proof (cases "us_runner s")
    case (RPrefix bd left)
    obtain bs e bd' w' where rd: "ReadBody api bd (min n (nat left)) (us_w s) = ((bs, e, bd'), w')"
      by (metis surj_pair)
    from rr RPrefix have pos: "0 < left" "0 < n" by (auto split: if_splits)
    have "bs \<noteq> []" if "e = None" using rd_progress [of bd _ "us_w s" bs bd' w'] rd that pos by simp
    then have "0 < length bs" if "e = None" using that by simp
    with rd_split [OF rd] rr RPrefix rd pos show ?thesis
      by (auto simp: runner_rank_def Let_def split: option.splits if_splits)
  next
    case RPipe
    with rr assms(3) show ?thesis by (cases "us_client s") auto
  qed (use rr in auto)
next
  case RunnerAbort
  with assms(1) show ?thesis by (cases "us_runner s") (auto simp: runner_rank_def)
qed (use assms(2) in auto)

lemma runner_bounded:
  "run_events api evs s = Some s' \<Longrightarrow> list_all runner_event evs \<Longrightarrow> \<not> offers (us_client s) \<Longrightarrow>
     length evs + runner_rank s' \<le> runner_rank s"
proof (induction evs arbitrary: s)
  case (Cons ev evs)
  then obtain s1 where s1: "exec_event api ev s = Some s1" "run_events api evs s1 = Some s'"
    by (auto split: option.splits)
  have re: "runner_event ev" using Cons.prems(2) by simp
  have "us_client s1 = us_client s" using runner_keeps(5) [OF s1(1) re Cons.prems(3)] by blast
  with Cons.IH [OF s1(2)] Cons.prems(2,3) runner_rank_decreases [OF s1(1) re Cons.prems(3)]
  show ?case by simp
qed simp

text \<open>The uploader never has to give up to go on: a read or a plain step is enabled.\<close>

lemma runner_enabled:
  assumes "us_runner s \<noteq> RDone" "us_runner s \<noteq> RPipe \<or> pipe_done (us_pipe s) \<or> offering (us_client s) \<noteq> None"
  shows "\<exists>ev s'. ev \<in> {RunnerStep, RunnerRead 1} \<and> exec_event api ev s = Some s'"
proof (cases "us_runner s")
  case (RPrefix bd left)
  show ?thesis
  proof (cases "left \<le> 0")
    case True
    with RPrefix have "exec_event api RunnerStep s = Some (s\<lparr>us_runner := RPipe\<rparr>)" by simp
    then show ?thesis by blast
  next
    case False
    then have "min 1 (nat left) = 1" by simp
    moreover obtain bs e bd' w' where "ReadBody api bd 1 (us_w s) = ((bs, e, bd'), w')" by (metis surj_pair)
    ultimately have "\<exists>s'. exec_event api (RunnerRead 1) s = Some s'"
      using False RPrefix by (cases e) (simp_all add: Let_def)
    then show ?thesis by blast
  qed
next
  case RPipe
  show ?thesis
  proof (cases "pipe_done (us_pipe s)")
    case False
    with assms RPipe obtain p n first where c: "us_client s = COffer p n first" "offering (COffer p n first) \<noteq> None"
      by (cases "us_client s") auto
    then have "\<exists>s'. exec_event api (RunnerRead 1) s = Some s'" using RPipe by (simp add: Let_def)
    then show ?thesis by blast
  next
    case True
    with RPipe have "\<exists>s'. exec_event api RunnerStep s = Some s'" by simp
    then show ?thesis by blast
  qed
next
  case (RUpload fin)
  then have "\<exists>s'. exec_event api RunnerStep s = Some s'" by (auto simp: Let_def split: prod.splits sum.splits)
  then show ?thesis by blast
next
  case RStart
  then have "\<exists>s'. exec_event api RunnerStep s = Some s'" by (auto simp: Let_def split: prod.splits sum.splits)
  then show ?thesis by blast
next
  case RFin
  then have "\<exists>s'. exec_event api RunnerStep s = Some s'" by (auto split: prod.splits option.splits)
  then show ?thesis by blast
qed (use assms in auto)

lemma not_stuck:
  assumes inv: "upload_inv rem objs fr s" and busy: "us_client s \<noteq> CIdle"
  shows "\<exists>ev s'. ev \<in> {ClientStep, RunnerStep, RunnerRead 1} \<and> exec_event api ev s = Some s'"
proof (cases "client_step s (us_client s)")
  case (Some s')
  then show ?thesis by (intro exI [of _ ClientStep] exI [of _ s']) simp
next
  case None
  then consider (wait) "us_client s = CCloseWait" "us_runner s \<noteq> RDone"
    | (offer) p n first where "us_client s = COffer p n first" "offering (us_client s) \<noteq> None" "\<not> pipe_done (us_pipe s)"
    using busy by (cases "us_client s"; cases "us_runner s = RDone") (auto split: if_splits)
  then have "us_runner s \<noteq> RDone \<and>
    (us_runner s \<noteq> RPipe \<or> pipe_done (us_pipe s) \<or> offering (us_client s) \<noteq> None)"
  proof cases
    case wait
    with upload_invD(3) [OF inv] show ?thesis by (simp add: pipe_done_def)
  next
    case offer
    with upload_invD(3,5) [OF inv] show ?thesis by (auto simp: pipe_done_def)
  qed
  with runner_enabled [of s] show ?thesis by blast
qed

end

section \<open>Uploads while the service is available\<close>

fun calm_client :: "client_pc \<Rightarrow> bool" where
  "calm_client CIdle = True"
| "calm_client (COffer p n first) = True"
| "calm_client CClose1 = True"
| "calm_client (CClose2 err) = (err = None)"
| "calm_client CCloseWait = True"
| "calm_client pc = False"

fun calm_runner :: "'b runner_pc \<Rightarrow> bool" where
  "calm_runner (RUpload fin) = (fin = AtEOF)"
| "calm_runner (RFail1 e) = False"
| "calm_runner (RFail2 e) = False"
| "calm_runner pc = True"

definition healthy :: "('w \<Rightarrow> bool) \<Rightarrow> ('w, 'b) upload_state \<Rightarrow> bool" where
  "healthy up s \<longleftrightarrow> up (us_w s) \<and> u_err (us_file s) = None \<and> rerr (us_pipe s) = None
     \<and> (werr (us_pipe s) = None \<or> werr (us_pipe s) = Some EOF)
     \<and> calm_client (us_client s) \<and> calm_runner (us_runner s)
     \<and> (\<forall>e. us_last s \<noteq> Some (RetClose (Some e)))"

text \<open>The events of a transfer nobody gives up.\<close>

fun calm_event :: "upload_event \<Rightarrow> bool" where
  "calm_event (CallTransferError e) = (e = None)"
| "calm_event RunnerAbort = False"
| "calm_event ev = True"

lemma healthy_client:
  assumes inv: "upload_inv rm obj fr s" and h: "healthy up s" and step: "exec_event api ev s = Some s'"
    and calm: "calm_event ev" "\<not> runner_event ev"
  shows "healthy up s'"
proof (cases "ev = ClientStep")
  case True
  with step have cs: "client_step s (us_client s) = Some s'" by simp
  have "\<not> pipe_done (us_pipe s)" if "offers (us_client s)"
    using upload_invD(3,4) [OF inv] h that
    by (cases "us_client s") (auto simp: healthy_def pipe_ok_def pipe_done_def)
  with cs h show ?thesis
    by (cases "us_client s")
      (auto simp: healthy_def finish_write_def Let_def closeWrite_def store_once_def recordedErr_def
        split: if_splits runner_pc.splits)
next
  case False
  have "\<not> pipe_done (us_pipe s)" if "\<not> u_closed (us_file s)"
    using upload_invD(4) [OF inv] h that by (auto simp: healthy_def pipe_ok_def pipe_done_def)
  moreover have "u_err (us_file s) = None" using h by (simp add: healthy_def)
  ultimately show ?thesis
    using step False calm h
    by (cases ev)
      (auto simp: healthy_def up_Write_def up_TransferError_def up_Close_def recordedErr_def
        dest: arg_cong [where f = "\<lambda>x. u_err (snd x)"] split: if_splits prod.splits)
qed

context s3_available
begin

lemma healthy_runner:
  assumes inv: "upload_inv rem objs fr s" and h: "healthy up s" and step: "exec_event api ev s = Some s'"
    and calm: "calm_event ev" "runner_event ev"
  shows "healthy up s'"
proof -
  note i = upload_invD [OF inv]
  from h have u: "up (us_w s)" by (simp add: healthy_def)
  show ?thesis
  proof (cases ev)
    case RunnerStep
    with step have st: "runner_step api s (us_runner s) = Some s'" by simp
    show ?thesis
    proof (cases "us_runner s")
      case RStart
      show ?thesis
      proof (cases "u_prefixLen (us_file s) > 0")
        case True
        with i RStart obtain v where
          v: "objs (us_w s) (bucket (u_fs (us_file s))) (u_key (us_file s)) = Some v"
          by (auto simp: frame_ok_def same_upload_def)
        obtain r w' where g: "getObject api (u_fs (us_file s)) (u_key (us_file s)) 0 (us_w s) = (r, w')" by fastforce
        from getObject_up [OF u g v] obtain bd where "r = Inr bd" "up w'" by (cases r) auto
        with True RStart st g h show ?thesis by (auto simp: Let_def healthy_def)
      qed (use RStart st h in \<open>auto simp: Let_def healthy_def\<close>)
    next
      case RPipe
      with st h show ?thesis
        by (auto simp: healthy_def end_of_eof pipe_done_def split: if_splits)
    next
      case (RUpload fin)
      with h have fin: "fin = AtEOF" by (simp add: healthy_def)
      obtain r w' where up: "Upload api (putObjectInput (bucket (u_fs (us_file s))) (u_key (us_file s)) (us_body s)
          (u_contentType (us_file s))) fin (us_w s) = (r, w')" by fastforce
      from upload_up [OF u up] fin obtain x where "r = Inr x" "up w'" by (cases r) auto
      with RUpload st up h show ?thesis by (auto simp: Let_def healthy_def)
    next
      case RFin
      with st h close_up [OF u] show ?thesis
        by (auto simp: healthy_def split: option.splits prod.splits)
    qed (use st h in \<open>auto simp: healthy_def split: if_splits\<close>)
  next
    case (RunnerRead n)
    with step have st: "runner_read api n s (us_runner s) = Some s'" by simp
    show ?thesis
    proof (cases "us_runner s")
      case (RPrefix bd left)
      obtain bs e bd' w' where rd: "ReadBody api bd (min n (nat left)) (us_w s) = ((bs, e, bd'), w')"
        by (metis surj_pair)
      from read_up [OF u rd] RPrefix st rd h show ?thesis
        by (auto simp: Let_def healthy_def split: if_splits)
    next
      case RPipe
      with st h show ?thesis by (auto simp: Let_def healthy_def split: client_pc.splits if_splits)
    qed (use st in auto)
  qed (use calm in auto)
qed

lemma run_healthy:
  "upload_inv rem objs fr s \<Longrightarrow> healthy up s \<Longrightarrow> run_events api evs s = Some s' \<Longrightarrow>
     list_all calm_event evs \<Longrightarrow> healthy up s'"
proof (induction evs arbitrary: s)
  case (Cons ev evs)
  then obtain s1 where s1: "exec_event api ev s = Some s1" "run_events api evs s1 = Some s'"
    by (auto split: option.splits)
  have "healthy up s1"
    using healthy_client [OF Cons.prems(1,2) s1(1)] healthy_runner [OF Cons.prems(1,2) s1(1)] Cons.prems(4)
    by (cases "runner_event ev") auto
  with Cons.IH [OF event_inv [OF Cons.prems(1) s1(1)] _ s1(2)] Cons.prems(4) show ?case by simp
qed simp

lemma openUpload_up:
  assumes "up w" "openUpload api mime f clean fl offset w = (Inr u, w')"
  shows "healthy up (upload_start u w')"
proof -
  from assms(2) obtain n w1 where pr: "upload_prefix api f clean fl offset w = (Inr n, w1)"
    and u: "u_err u = None" "w' = w1"
    unfolding openUpload_def by (rule andThen_InrE) (auto simp: ret_def)
  obtain r w2 where hs: "headSize api f (FS_key f clean) w = (r, w2)" by fastforce
  have "up w1" using pr hs headSize_up(1) [OF assms(1) hs] assms(1)
    by (cases r) (auto simp: upload_prefix_def io_simps split: if_splits option.splits)
  with u show ?thesis by (simp add: healthy_def upload_start_def)
qed

end

end
