(* ===== verification/Open.thy ===== *)
theory Open
  imports Download Upload_Spec
begin

text \<open>
  The opening half of \<^verbatim>\<open>src/internal/s3fs/fs.go\<close>: which handle a path and its flags give.
  A write handle comes with its uploader; the transfer itself is the machine of
  \<open>Upload\<close> started on the opened file.
\<close>

datatype 'b handle = HDir File | HDown "'b downloadFile" | HUp uploadFile

abbreviation (input) write_mask :: flags where
  "write_mask \<equiv> O_WRONLY OR O_RDWR OR O_CREATE OR O_APPEND OR O_TRUNC"

definition GetHandle ::
  "('w, 'b) s3api \<Rightarrow> (string \<Rightarrow> string) \<Rightarrow> FS \<Rightarrow> string \<Rightarrow> flags \<Rightarrow> int \<Rightarrow> ('w, 'b handle) io" where
  "GetHandle api mime f name fl offset =
     (let clean = CleanFTPPath name
      in if clean = [slash] then throw (errno ''open'' clean EISDIR)
         else if fl AND write_mask \<noteq> 0 then
           (if readOnly f then throw (readOnlyErr ''open'' clean)
            else andThen (openUpload api mime f clean fl offset) (\<lambda>u. ret (HUp u)))
         else andThen (openDownload api f clean offset) (\<lambda>d. ret (HDown d)))"

definition Open :: "('w, 'b) s3api \<Rightarrow> FS \<Rightarrow> string \<Rightarrow> ('w, 'b handle) io" where
  "Open api f name =
     andThen (Stat api f name) (\<lambda>info.
       if \<not> IsDir info then throw (errno ''open'' name EISDIR)
       else ret (HDir (NewFile f (CleanFTPPath name) info)))"

definition OpenFile ::
  "('w, 'b) s3api \<Rightarrow> (string \<Rightarrow> string) \<Rightarrow> FS \<Rightarrow> string \<Rightarrow> flags \<Rightarrow> FileMode \<Rightarrow> ('w, 'b handle) io" where
  "OpenFile api mime f name fl perm =
     (if fl AND write_mask \<noteq> 0 then GetHandle api mime f name fl 0 else Open api f name)"

definition Create :: "('w, 'b) s3api \<Rightarrow> (string \<Rightarrow> string) \<Rightarrow> FS \<Rightarrow> string \<Rightarrow> ('w, 'b handle) io" where
  "Create api mime f name = OpenFile api mime f name (O_WRONLY OR O_CREATE OR O_TRUNC) 420"

definition FS_Bucket :: "FS \<Rightarrow> string" where
  "FS_Bucket f = bucket f"

definition FS_ReadOnly :: "FS \<Rightarrow> bool" where
  "FS_ReadOnly f = readOnly f"

definition FS_Name :: "FS \<Rightarrow> string" where
  "FS_Name f = ''s3fs''"

section \<open>What opening guarantees\<close>

lemma handle_ioE:
  assumes "andThen m (\<lambda>x. ret (g x)) w = (Inr h, w')"
  obtains x where "m w = (Inr x, w')" "h = g x"
  using assms by (auto simp: ret_def elim!: andThen_InrE)

lemma GetHandle_upload:
  assumes "GetHandle api mime f name fl off w = (Inr (HUp u), w')"
  shows "openUpload api mime f (CleanFTPPath name) fl off w = (Inr u, w')" "\<not> readOnly f"
    and "CleanFTPPath name \<noteq> [slash]" "fl AND write_mask \<noteq> 0"
  using assms
  by (auto simp: GetHandle_def Let_def throw_def elim!: handle_ioE split: if_splits)

lemma GetHandle_download:
  assumes "GetHandle api mime f name fl off w = (Inr (HDown d), w')"
  shows "openDownload api f (CleanFTPPath name) off w = (Inr d, w')"
    and "CleanFTPPath name \<noteq> [slash]" "fl AND write_mask = 0"
  using assms
  by (auto simp: GetHandle_def Let_def throw_def elim!: handle_ioE split: if_splits)

context s3_service
begin

lemma headObject_quiet: "keeps (quiet objs) (headObject api f k)"
  by (rule keepsI) (simp add: quiet_def headObject_cases(1))

lemma openDownload_quiet: "keeps (quiet objs) (openDownload api f clean off)"
  unfolding openDownload_def
  by (auto intro!: quiet.keeps_andThen headObject_quiet quiet.keeps_ret quiet.keeps_throw
      simp: Let_def split: option.splits)

lemma openUpload_quiet: "keeps (quiet objs) (openUpload api mime f clean fl off)"
  unfolding openUpload_def upload_prefix_def
  by (auto intro!: quiet.keeps_andThen headSize_quiet quiet.keeps_ret quiet.keeps_throw
      split: option.splits)

lemma GetHandle_quiet: "keeps (quiet objs) (GetHandle api mime f name fl off)"
  unfolding GetHandle_def Let_def
  by (auto intro!: quiet.keeps_andThen openDownload_quiet openUpload_quiet quiet.keeps_ret quiet.keeps_throw)

lemma Open_quiet: "keeps (quiet objs) (Open api f name)"
  unfolding Open_def
  by (auto intro!: quiet.keeps_andThen Stat_quiet quiet.keeps_ret quiet.keeps_throw)

lemma OpenFile_quiet: "keeps (quiet objs) (OpenFile api mime f name fl perm)"
  unfolding OpenFile_def by (auto intro: GetHandle_quiet Open_quiet)

text \<open>Every state of an upload has stored nothing, or the whole object under its own key.\<close>

lemma upload_effect:
  assumes "upload_inv rem objs fr s"
  shows "objs (us_w s) = fr_objs fr \<or> (\<exists>bs. objs (us_w s) = uploaded fr bs)"
  using upload_invD(5) [OF assms] by (cases "us_runner s") auto

lemma upload_confined:
  assumes "openUpload api mime f clean fl off w = (Inr u, w0)"
    and "run_events api evs (upload_start u w0) = Some s"
  shows "confined objs (bucket f) (rootPrefix f) w (us_w s)"
proof -
  note o = openUpload_start [OF assms(1)]
  from run_events_inv [OF o(1) assms(2)] have
    "objs (us_w s) = objs w \<or> (\<exists>v. objs (us_w s) = upd_obj (objs w) (bucket f) (FS_key f clean) v)"
    using upload_effect o(2,3) by (fastforce simp: upload_of_def uploaded_def)
  then show ?thesis by (auto intro: confined_same confined_upd FS_key_prefix)
qed

end

end
