(* ===== verification/Driver.thy ===== *)
theory Driver
  imports Config Open "HOL-Library.Word"
begin

text \<open>
  \<^verbatim>\<open>src/internal/ftpdriver\<close>: the driver the FTP server calls. \<^verbatim>\<open>driver.go\<close> builds the server's
  settings, admits clients up to a limit and authenticates accounts to filesystem views;
  \<^verbatim>\<open>tls.go\<close> loads the certificate; \<^verbatim>\<open>client.go\<close> wraps a view for one session. The TLS key
  pair loader and bcrypt are parameters.
\<close>

section \<open>TLS\<close>

abbreviation (input) VersionTLS10 :: "16 word" where "VersionTLS10 \<equiv> 0x0301"
abbreviation (input) VersionTLS11 :: "16 word" where "VersionTLS11 \<equiv> 0x0302"
abbreviation (input) VersionTLS12 :: "16 word" where "VersionTLS12 \<equiv> 0x0303"
abbreviation (input) VersionTLS13 :: "16 word" where "VersionTLS13 \<equiv> 0x0304"

definition parseTLSVersion :: "string \<Rightarrow> error + 16 word" where
  "parseTLSVersion v =
     (if v \<in> set [[], ''1.2'', ''1.2.0'', ''tls1.2''] then Inr VersionTLS12
      else if v \<in> set [''1.0'', ''tls1.0''] then Inr VersionTLS10
      else if v \<in> set [''1.1'', ''tls1.1''] then Inr VersionTLS11
      else if v \<in> set [''1.3'', ''tls1.3''] then Inr VersionTLS13
      else Inl (Message ''unsupported ftp.tls.min_version %q'' [v]))"

record 'cert tls_config =
  Certificates :: "'cert list"
  tlsMinVersion :: "16 word"

definition loadTLSConfig :: "(string \<Rightarrow> string \<Rightarrow> error + 'cert) \<Rightarrow> FTPTLS \<Rightarrow> error + 'cert tls_config" where
  "loadTLSConfig loadKeyPair cfg =
     (case loadKeyPair (CertFile cfg) (KeyFile cfg) of
        Inl e \<Rightarrow> Inl (Wrapped ''load TLS key pair: %w'' [] e)
      | Inr cert \<Rightarrow>
          (case parseTLSVersion (MinVersion cfg) of
             Inl e \<Rightarrow> Inl e
           | Inr v \<Rightarrow> Inr \<lparr>Certificates = [cert], tlsMinVersion = v\<rparr>))"

section \<open>The driver\<close>

record 'cert Driver =
  d_cfg :: Config
  d_tlsConfig :: "'cert tls_config option"
  d_clients :: "32 word set"     \<comment> \<open>the keys of the map\<close>

definition New_driver :: "(string \<Rightarrow> string \<Rightarrow> error + 'cert) \<Rightarrow> Config \<Rightarrow> error + 'cert Driver" where
  "New_driver loadKeyPair cfg =
     (let d = \<lparr>d_cfg = cfg, d_tlsConfig = None, d_clients = {}\<rparr>
      in if TLSEnabled (FTP cfg) then
           (case loadTLSConfig loadKeyPair (TLS (FTP cfg)) of
              Inl e \<Rightarrow> Inl e
            | Inr t \<Rightarrow> Inr (d\<lparr>d_tlsConfig := Some t\<rparr>))
         else Inr d)"

datatype conn_check = IPMatchRequired | IPMatchDisabled
datatype tls_requirement = ClearOrEncrypted | MandatoryEncryption | ImplicitEncryption

record Settings =
  st_ListenAddr :: string
  st_Banner :: string
  st_IdleTimeout :: int
  st_ConnectionTimeout :: int
  st_PublicHost :: string
  st_DisableActiveMode :: bool
  st_DisableMFMT :: bool
  st_BinaryDefault :: bool
  st_PasvConnectionsCheck :: conn_check
  st_ActiveConnectionsCheck :: conn_check
  st_PassiveTransferPortRange :: "(int \<times> int) option"
  st_TLSRequired :: tls_requirement

definition JoinHostPort :: "string \<Rightarrow> string \<Rightarrow> string" where
  "JoinHostPort host port =
     (if CHR '':'' \<in> set host then ''['' @ host @ '']:'' @ port else host @ '':'' @ port)"

definition GetSettings :: "'cert Driver \<Rightarrow> error + Settings" where
  "GetSettings d =
     (let cfg = FTP (d_cfg d);
          check = (if DisableIPMatch cfg then IPMatchDisabled else IPMatchRequired)
      in case ParsePassivePortRange cfg of
           Inl e \<Rightarrow> Inl e
         | Inr portRange \<Rightarrow>
             Inr \<lparr>st_ListenAddr = JoinHostPort (ListenIP cfg) (Itoa (Port cfg)), st_Banner = Banner cfg,
                  st_IdleTimeout = IdleTimeoutSeconds cfg,
                  st_ConnectionTimeout = ConnectionTimeoutSeconds cfg,
                  st_PublicHost = PublicHost cfg, st_DisableActiveMode = DisableActiveMode cfg,
                  st_DisableMFMT = True, st_BinaryDefault = True,
                  st_PasvConnectionsCheck = check, st_ActiveConnectionsCheck = check,
                  st_PassiveTransferPortRange = portRange,
                  st_TLSRequired =
                    (if Mode (TLS cfg) = TLSModeImplicit then ImplicitEncryption
                     else if Mode (TLS cfg) = TLSModeRequired then MandatoryEncryption
                     else ClearOrEncrypted)\<rparr>)"

text \<open>The reply text, the error if the client is refused, and the driver after the call.\<close>

definition ClientConnected :: "'cert Driver \<Rightarrow> 32 word \<Rightarrow> (string \<times> error option) \<times> 'cert Driver" where
  "ClientConnected d cid =
     (let mx = MaxClients (FTP (d_cfg d))
      in if mx > 0 \<and> int (card (d_clients d)) \<ge> mx
         then ((''Too many clients connected'', Some ErrTooManyClients), d)
         else ((Banner (FTP (d_cfg d)), None), d\<lparr>d_clients := insert cid (d_clients d)\<rparr>))"

definition ClientDisconnected :: "'cert Driver \<Rightarrow> 32 word \<Rightarrow> 'cert Driver" where
  "ClientDisconnected d cid = d\<lparr>d_clients := d_clients d - {cid}\<rparr>"

definition ActiveClients :: "'cert Driver \<Rightarrow> nat" where
  "ActiveClients d = card (d_clients d)"

definition AuthUser :: "(string \<Rightarrow> string \<Rightarrow> bool) \<Rightarrow> 'cert Driver \<Rightarrow> string \<Rightarrow> string \<Rightarrow> error + FS" where
  "AuthUser bcryptOk d user pass =
     (case LookupUser (d_cfg d) user of
        None \<Rightarrow> Inl (Wrapped ''%w: %s'' [user] ErrInvalidCredentials)
      | Some account \<Rightarrow>
          if \<not> CheckPassword bcryptOk account pass
          then Inl (Wrapped ''%w: %s'' [user] ErrInvalidCredentials)
          else (let cfg = S3 (d_cfg d);
                    b = (if UserBucket account \<noteq> [] then UserBucket account else Bucket cfg);
                    rp = (if UserRootPrefix account \<noteq> [] then UserRootPrefix account else RootPrefix cfg)
                in Inr (NewFS b rp (DirMarker cfg) (UserReadOnly account))))"

definition GetTLSConfig :: "'cert Driver \<Rightarrow> error + 'cert tls_config" where
  "GetTLSConfig d = (case d_tlsConfig d of None \<Rightarrow> Inl ErrTLSNotConfigured | Some t \<Rightarrow> Inr t)"

section \<open>The session's client\<close>

text \<open>A client is its view; its transfer handles are those of the view.\<close>

definition Client_GetHandle ::
  "('w, 'b) s3api \<Rightarrow> (string \<Rightarrow> string) \<Rightarrow> FS \<Rightarrow> string \<Rightarrow> flags \<Rightarrow> int \<Rightarrow> ('w, 'b handle) io" where
  "Client_GetHandle api mime c name fl offset =
     andThen (GetHandle api mime c name fl offset) (\<lambda>h. ret h)"

definition AllocateSpace :: "FS \<Rightarrow> int \<Rightarrow> error + unit" where
  "AllocateSpace c n = Inr ()"

text \<open>The reply of \<^verbatim>\<open>SITE\<close>: a status code and a message.\<close>

definition Site :: "FS \<Rightarrow> string \<Rightarrow> int \<times> string" where
  "Site c param =
     (let fields = Fields param
      in if fields \<noteq> [] \<and> EqualFold (hd fields) ''chmod''
         then (200, ''SITE CHMOD is not supported by the S3 backend and was ignored'')
         else (502, ''SITE '' @ TrimSpace param @ '' is not implemented''))"

section \<open>The client limit\<close>

text \<open>
  What the server relies on: a registry of connection ids with a capacity. Connecting
  either adds the id or refuses it, and refuses only at the capacity; disconnecting
  removes the id.
\<close>

datatype 'i conn_event = Connect 'i | Disconnect 'i

locale client_registry =
  fixes ids :: "'s \<Rightarrow> 'i set"
    and cap :: "'s \<Rightarrow> int"
    and conn :: "'s \<Rightarrow> 'i \<Rightarrow> bool \<times> 's"
    and disc :: "'s \<Rightarrow> 'i \<Rightarrow> 's"
  assumes finite_ids: "finite (ids s)"
    and conn_accepts: "conn s i = (True, s') \<Longrightarrow>
      ids s' = insert i (ids s) \<and> cap s' = cap s \<and> (cap s \<le> 0 \<or> int (card (ids s)) < cap s)"
    and conn_refuses: "conn s i = (False, s') \<Longrightarrow>
      ids s' = ids s \<and> cap s' = cap s \<and> 0 < cap s \<and> cap s \<le> int (card (ids s))"
    and disc_removes: "ids (disc s i) = ids s - {i} \<and> cap (disc s i) = cap s"
begin

fun reg_step :: "'s \<Rightarrow> 'i conn_event \<Rightarrow> 's" where
  "reg_step s (Connect i) = snd (conn s i)"
| "reg_step s (Disconnect i) = disc s i"

lemma conn_cases:
  "ids (snd (conn s i)) = insert i (ids s) \<and> (cap s \<le> 0 \<or> int (card (ids s)) < cap s)
   \<or> ids (snd (conn s i)) = ids s \<and> 0 < cap s \<and> cap s \<le> int (card (ids s))"
  using conn_accepts conn_refuses by (metis (full_types) prod.collapse)

lemma conn_cap: "cap (snd (conn s i)) = cap s"
  using conn_accepts conn_refuses by (metis (full_types) prod.collapse)

lemma step_cap: "cap (reg_step s ev) = cap s"
  by (cases ev) (simp_all add: disc_removes conn_cap)

lemma step_limit:
  assumes "0 < cap s" "int (card (ids s)) \<le> cap s"
  shows "int (card (ids (reg_step s ev))) \<le> cap s"
proof (cases ev)
  case (Connect i)
  have "card (insert i (ids s)) \<le> Suc (card (ids s))" by (rule card_insert_le_m1) simp_all
  with Connect assms conn_cases [of s i] show ?thesis by auto
next
  case (Disconnect i)
  have "card (ids s - {i}) \<le> card (ids s)" by (simp add: card_mono finite_ids)
  with Disconnect assms show ?thesis by (simp add: disc_removes)
qed

lemma run_cap: "cap (foldl reg_step s evs) = cap s"
  by (induction evs arbitrary: s) (simp_all add: step_cap)

lemma run_limit:
  "0 < cap s \<Longrightarrow> int (card (ids s)) \<le> cap s \<Longrightarrow> int (card (ids (foldl reg_step s evs))) \<le> cap s"
proof (induction evs arbitrary: s)
  case (Cons ev evs)
  then have "int (card (ids (reg_step s ev))) \<le> cap (reg_step s ev)"
    using step_limit [of s ev] by (simp add: step_cap)
  with Cons.IH [of "reg_step s ev"] Cons.prems show ?case by (simp add: step_cap)
qed simp

text \<open>An id that disconnects is gone, whatever happened before.\<close>

lemma run_disconnect: "i \<notin> ids (foldl reg_step s (evs @ [Disconnect i]))"
  by (simp add: disc_removes)

end

text \<open>The driver's calls as such a registry.\<close>

definition driver_conn :: "'cert Driver \<Rightarrow> 32 word \<Rightarrow> bool \<times> 'cert Driver" where
  "driver_conn d i = (case ClientConnected d i of ((msg, err), d') \<Rightarrow> (err = None, d'))"

definition driver_cap :: "'cert Driver \<Rightarrow> int" where
  "driver_cap d = MaxClients (FTP (d_cfg d))"

interpretation registry: client_registry d_clients driver_cap driver_conn ClientDisconnected
  by unfold_locales
    (auto simp: driver_conn_def driver_cap_def ClientConnected_def ClientDisconnected_def Let_def
      split: if_splits)

text \<open>A history of connections and disconnections of one driver.\<close>

fun conn_step :: "'cert Driver \<Rightarrow> 32 word conn_event \<Rightarrow> 'cert Driver" where
  "conn_step d (Connect i) = snd (ClientConnected d i)"
| "conn_step d (Disconnect i) = ClientDisconnected d i"

lemma conn_step_reg: "conn_step d ev = registry.reg_step d ev"
  by (cases ev) (simp_all add: driver_conn_def split: prod.splits)

lemma conn_step_fold: "foldl conn_step d evs = foldl registry.reg_step d evs"
  by (induction evs arbitrary: d) (simp_all add: conn_step_reg)

lemma conn_run_cfg: "d_cfg (foldl conn_step d evs) = d_cfg d"
proof (induction evs arbitrary: d)
  case (Cons ev evs)
  have "d_cfg (conn_step d ev) = d_cfg d"
    by (cases ev) (simp_all add: ClientConnected_def ClientDisconnected_def Let_def)
  with Cons show ?case by simp
qed simp

section \<open>Authentication\<close>

lemma AuthUser_Inr:
  assumes "AuthUser bcryptOk d user pass = Inr f"
  obtains account where "LookupUser (d_cfg d) user = Some account" "CheckPassword bcryptOk account pass"
    "bucket f = (if UserBucket account \<noteq> [] then UserBucket account else Bucket (S3 (d_cfg d)))"
    "rootPrefix f = (if UserRootPrefix account \<noteq> [] then UserRootPrefix account else RootPrefix (S3 (d_cfg d)))"
    "readOnly f = UserReadOnly account" "dirMarker f = DirMarker (S3 (d_cfg d))"
  using assms by (auto simp: AuthUser_def Let_def NewFS_def split: option.splits if_splits)

lemma AuthUser_error:
  "AuthUser bcryptOk d user pass = Inl e \<Longrightarrow> errors_Is e ErrInvalidCredentials"
  by (auto simp: AuthUser_def Let_def errors_Is_def split: option.splits if_splits)

lemma dir_prefix_wf: "dir_prefix p \<Longrightarrow> wf_root p"
  by (auto simp: dir_prefix_def wf_root_def suffix_def)

text \<open>A view handed to an account of a loaded configuration is well formed.\<close>

lemma AuthUser_wf:
  assumes "AuthUser bcryptOk d user pass = Inr f" "config_ok (d_cfg d)" "normal_form (d_cfg d)"
  shows "wf_root (rootPrefix f)" "bucket f \<noteq> []"
proof -
  from assms(1) obtain account where a: "LookupUser (d_cfg d) user = Some account"
    "bucket f = (if UserBucket account \<noteq> [] then UserBucket account else Bucket (S3 (d_cfg d)))"
    "rootPrefix f = (if UserRootPrefix account \<noteq> [] then UserRootPrefix account else RootPrefix (S3 (d_cfg d)))"
    by (rule AuthUser_Inr)
  have "account \<in> set (Users (FTP (d_cfg d)))"
    using a(1) by (auto simp: LookupUser_def dest: find_SomeD)
  with assms(3) a(3) show "wf_root (rootPrefix f)"
    by (auto simp: normal_form_def intro: dir_prefix_wf)
  show "bucket f \<noteq> []" using a(2) assms(2) by (auto simp: config_ok_def)
qed

text \<open>A new driver has no client, and has a TLS configuration exactly when TLS is enabled.\<close>

lemma New_driver_start:
  assumes "New_driver loadKeyPair cfg = Inr d"
  shows "d_cfg d = cfg" "d_clients d = {}" "(\<exists>t. GetTLSConfig d = Inr t) \<longleftrightarrow> TLSEnabled (FTP cfg)"
  using assms by (auto simp: New_driver_def Let_def GetTLSConfig_def split: if_splits sum.splits)

end
