(* ===== verification/Gateway.thy ===== *)
theory Gateway
  imports Driver Fs_Session
begin

text \<open>
  The running gateway: one driver, the sessions it has authenticated, their open handles,
  and the object store they share. The FTP server library decides which callback comes
  next; here it is the environment of a step relation that allows every order. Transfers
  of different sessions interleave step by step, each upload with its own uploader.
\<close>

section \<open>What a session can call\<close>

datatype fs_call =
    CallStat string | CallReadDir string | CallMkdir string | CallMkdirAll string
  | CallRemove string | CallRemoveDir string | CallRemoveAll string | CallRename string string

fun run_call :: "('w, 'b) s3api \<Rightarrow> FS \<Rightarrow> fs_call \<Rightarrow> 'w \<Rightarrow> 'w option" where
  "run_call api f (CallStat p) w = Some (snd (Stat api f p w))"
| "run_call api f (CallReadDir p) w = map_option snd (ReadDir api f p w)"
| "run_call api f (CallMkdir p) w = Some (snd (Mkdir api f p w))"
| "run_call api f (CallMkdirAll p) w = Some (snd (MkdirAll api f p w))"
| "run_call api f (CallRemove p) w = Some (snd (Remove api f p w))"
| "run_call api f (CallRemoveDir p) w = Some (snd (RemoveDir api f p w))"
| "run_call api f (CallRemoveAll p) w = map_option snd (RemoveAll api f p w)"
| "run_call api f (CallRename p q) w = map_option snd (Rename api f p q w)"

datatype ('w, 'b) transfer = TDir File | TDown "'b downloadFile" | TUp "('w, 'b) upload_state"

fun start_transfer :: "'b handle \<Rightarrow> 'w \<Rightarrow> ('w, 'b) transfer" where
  "start_transfer (HDir d) w = TDir d"
| "start_transfer (HDown d) w = TDown d"
| "start_transfer (HUp u) w = TUp (upload_start u w)"

datatype transfer_event = EvReaddir int | EvRead nat | EvReadAt nat int | EvSeek int int | EvClose | EvUpload upload_event

text \<open>One event of a transfer: the transfer and the store after it, if the event is possible.\<close>

fun transfer_step ::
  "('w, 'b) s3api \<Rightarrow> transfer_event \<Rightarrow> ('w, 'b) transfer \<Rightarrow> 'w \<Rightarrow> (('w, 'b) transfer \<times> 'w) option" where
  "transfer_step api (EvReaddir n) (TDir d) w =
     (case Readdir api d n w of
        Some (Inr (r, d'), w') \<Rightarrow> Some (TDir d', w')
      | Some (Inl e, w') \<Rightarrow> Some (TDir d, w')
      | None \<Rightarrow> None)"
| "transfer_step api (EvRead n) (TDown d) w =
     (case Read api d n w of ((bs, e, d'), w') \<Rightarrow> Some (TDown d', w'))"
| "transfer_step api (EvReadAt n off) (TDown d) w =
     (case ReadAt api d n off w of None \<Rightarrow> None | Some (r, w') \<Rightarrow> Some (TDown d, w'))"
| "transfer_step api (EvSeek off wh) (TDown d) w =
     (case dl_Seek api d off wh w of ((r, d'), w') \<Rightarrow> Some (TDown d', w'))"
| "transfer_step api EvClose (TDown d) w =
     (case dl_Close api d w of ((r, d'), w') \<Rightarrow> Some (TDown d', w'))"
| "transfer_step api (EvUpload ev) (TUp s) w =
     (case exec_event api ev (s\<lparr>us_w := w\<rparr>) of None \<Rightarrow> None | Some s' \<Rightarrow> Some (TUp s', us_w s'))"
| "transfer_step api ev t w = None"

section \<open>The gateway\<close>

record ('w, 'b) session =
  ses_fs :: FS
  ses_transfers :: "('w, 'b) transfer list"

record ('w, 'b, 'cert) gateway =
  gw_world :: 'w
  gw_driver :: "'cert Driver"
  gw_sessions :: "('w, 'b) session list"

inductive gw_step ::
  "('w, 'b) s3api \<Rightarrow> (string \<Rightarrow> string) \<Rightarrow> (string \<Rightarrow> string \<Rightarrow> bool) \<Rightarrow>
     ('w, 'b, 'cert) gateway \<Rightarrow> ('w, 'b, 'cert) gateway \<Rightarrow> bool"
  for api mime bcryptOk where
  connection: "gw_step api mime bcryptOk g (g\<lparr>gw_driver := conn_step (gw_driver g) ev\<rparr>)"
| login: "AuthUser bcryptOk (gw_driver g) user pass = Inr f \<Longrightarrow>
    gw_step api mime bcryptOk g (g\<lparr>gw_sessions := gw_sessions g @ [\<lparr>ses_fs = f, ses_transfers = []\<rparr>]\<rparr>)"
| logout: "gw_step api mime bcryptOk g (g\<lparr>gw_sessions := take i (gw_sessions g) @ drop (Suc i) (gw_sessions g)\<rparr>)"
| command: "ses \<in> set (gw_sessions g) \<Longrightarrow> run_call api (ses_fs ses) c (gw_world g) = Some w' \<Longrightarrow>
    gw_step api mime bcryptOk g (g\<lparr>gw_world := w'\<rparr>)"
| refused: "ses \<in> set (gw_sessions g) \<Longrightarrow>
    Client_GetHandle api mime (ses_fs ses) name fl off (gw_world g) = (Inl e, w') \<Longrightarrow>
    gw_step api mime bcryptOk g (g\<lparr>gw_world := w'\<rparr>)"
| opened: "i < length (gw_sessions g) \<Longrightarrow> ses = gw_sessions g ! i \<Longrightarrow>
    Client_GetHandle api mime (ses_fs ses) name fl off (gw_world g) = (Inr h, w') \<Longrightarrow>
    gw_step api mime bcryptOk g (g\<lparr>gw_world := w', gw_sessions :=
      (gw_sessions g)[i := ses\<lparr>ses_transfers := ses_transfers ses @ [start_transfer h w']\<rparr>]\<rparr>)"
| opened_dir: "i < length (gw_sessions g) \<Longrightarrow> ses = gw_sessions g ! i \<Longrightarrow>
    Open api (ses_fs ses) name (gw_world g) = (Inr h, w') \<Longrightarrow>
    gw_step api mime bcryptOk g (g\<lparr>gw_world := w', gw_sessions :=
      (gw_sessions g)[i := ses\<lparr>ses_transfers := ses_transfers ses @ [start_transfer h w']\<rparr>]\<rparr>)"
| transfer: "i < length (gw_sessions g) \<Longrightarrow> ses = gw_sessions g ! i \<Longrightarrow> j < length (ses_transfers ses) \<Longrightarrow>
    transfer_step api ev (ses_transfers ses ! j) (gw_world g) = Some (t', w') \<Longrightarrow>
    gw_step api mime bcryptOk g (g\<lparr>gw_world := w', gw_sessions :=
      (gw_sessions g)[i := ses\<lparr>ses_transfers := (ses_transfers ses)[j := t']\<rparr>]\<rparr>)"

definition gw_start :: "'w \<Rightarrow> 'cert Driver \<Rightarrow> ('w, 'b, 'cert) gateway" where
  "gw_start w d = \<lparr>gw_world = w, gw_driver = d, gw_sessions = []\<rparr>"

section \<open>Which objects an account may change\<close>

definition account_bucket :: "Config \<Rightarrow> FTPUser \<Rightarrow> string" where
  "account_bucket cfg a = (if UserBucket a \<noteq> [] then UserBucket a else Bucket (S3 cfg))"

definition account_root :: "Config \<Rightarrow> FTPUser \<Rightarrow> string" where
  "account_root cfg a = (if UserRootPrefix a \<noteq> [] then UserRootPrefix a else RootPrefix (S3 cfg))"

definition writable :: "Config \<Rightarrow> string \<Rightarrow> string \<Rightarrow> bool" where
  "writable cfg b k \<longleftrightarrow> (\<exists>a \<in> set (Users (FTP cfg)). \<not> UserReadOnly a
     \<and> b = account_bucket cfg a \<and> prefix (account_root cfg a) k)"

definition view_of :: "Config \<Rightarrow> FTPUser \<Rightarrow> FS \<Rightarrow> bool" where
  "view_of cfg a f \<longleftrightarrow> bucket f = account_bucket cfg a \<and> rootPrefix f = account_root cfg a
     \<and> readOnly f = UserReadOnly a \<and> dirMarker f = DirMarker (S3 cfg)"

definition writes_only :: "('w \<Rightarrow> objects) \<Rightarrow> Config \<Rightarrow> 'w \<Rightarrow> 'w \<Rightarrow> bool" where
  "writes_only obj cfg w w' \<longleftrightarrow> (\<forall>b k. \<not> writable cfg b k \<longrightarrow> obj w' b k = obj w b k)"

interpretation writes: state_contract "writes_only obj cfg" for obj :: "'w \<Rightarrow> objects" and cfg
  by unfold_locales (auto simp: writes_only_def)

lemma AuthUser_view:
  "AuthUser bcryptOk d user pass = Inr f \<Longrightarrow> \<exists>a \<in> set (Users (FTP (d_cfg d))). view_of (d_cfg d) a f"
  by (erule AuthUser_Inr) (auto simp: view_of_def account_bucket_def account_root_def LookupUser_def
      dest: find_SomeD)

text \<open>A transfer of a view: an upload writes under the view's root, and only if the view is writable.\<close>

fun transfer_of :: "FS \<Rightarrow> ('w, 'b) transfer \<Rightarrow> bool" where
  "transfer_of f (TUp s) \<longleftrightarrow> u_fs (us_file s) = f \<and> \<not> readOnly f \<and> prefix (rootPrefix f) (u_key (us_file s))"
| "transfer_of f t \<longleftrightarrow> True"

definition session_ok :: "Config \<Rightarrow> ('w, 'b) session \<Rightarrow> bool" where
  "session_ok cfg ses \<longleftrightarrow> (\<exists>a \<in> set (Users (FTP cfg)). view_of cfg a (ses_fs ses))
     \<and> list_all (transfer_of (ses_fs ses)) (ses_transfers ses)"

definition gw_inv :: "Config \<Rightarrow> ('w, 'b, 'cert) gateway \<Rightarrow> bool" where
  "gw_inv cfg g \<longleftrightarrow> d_cfg (gw_driver g) = cfg
     \<and> (0 < MaxClients (FTP cfg) \<longrightarrow> int (ActiveClients (gw_driver g)) \<le> MaxClients (FTP cfg))
     \<and> list_all (session_ok cfg) (gw_sessions g)"

section \<open>Every step keeps to its account\<close>

lemma view_writes_only:
  assumes "view_of cfg a f" "a \<in> set (Users (FTP cfg))" "confined obj (bucket f) (rootPrefix f) w w'"
    and "readOnly f \<Longrightarrow> quiet obj w w'"
  shows "writes_only obj cfg w w'"
  using assms by (auto simp: writes_only_def view_of_def confined_def quiet_def writable_def)

lemma quiet_writes_only: "obj w' = obj w \<Longrightarrow> writes_only obj cfg w w'"
  by (simp add: writes_only_def)

lemma mutators_read_only:
  assumes "readOnly f"
  shows "snd (Mkdir api f p w) = w" "snd (MkdirAll api f p w) = w" "snd (Remove api f p w) = w"
    "snd (RemoveDir api f p w) = w" "map_option snd (RemoveAll api f p w) = Some w"
    "map_option snd (Rename api f p q w) = Some w"
  using assms
  by (simp_all add: Mkdir_def MkdirAll_def Remove_def RemoveDir_def RemoveAll_def Rename_def throw_def once_def)

lemma session_ok_update:
  assumes "list_all (session_ok cfg) S" "i < length S"
    and "ses' = (S ! i)\<lparr>ses_transfers := ts\<rparr>" "list_all (transfer_of (ses_fs (S ! i))) ts"
  shows "list_all (session_ok cfg) (S[i := ses'])"
  using assms by (auto simp: list_all_length session_ok_def nth_list_update)

lemma session_ok_nth: "list_all (session_ok cfg) S \<Longrightarrow> i < length S \<Longrightarrow> session_ok cfg (S ! i)"
  by (simp add: list_all_length)

text \<open>The events of an upload: it stays on its file, and stores nothing but its own object.\<close>

lemma client_step_file:
  "client_step s pc = Some s' \<Longrightarrow> u_fs (us_file s') = u_fs (us_file s) \<and> u_key (us_file s') = u_key (us_file s)"
  by (cases pc) (auto split: if_splits runner_pc.splits)

lemma runner_step_file:
  "runner_step api s pc = Some s' \<Longrightarrow> u_fs (us_file s') = u_fs (us_file s) \<and> u_key (us_file s') = u_key (us_file s)"
  by (cases pc) (auto simp: Let_def split: if_splits prod.splits sum.splits option.splits)

lemma runner_read_file: "runner_read api n s pc = Some s' \<Longrightarrow> us_file s' = us_file s"
  by (cases pc) (auto simp: Let_def split: if_splits prod.splits option.splits client_pc.splits)

lemma runner_abort_file: "runner_abort s pc = Some s' \<Longrightarrow> us_file s' = us_file s \<and> us_w s' = us_w s"
  by (cases pc) auto

lemma up_call_file:
  "u_fs (us_file (up_Write p s)) = u_fs (us_file s)" "u_key (us_file (up_Write p s)) = u_key (us_file s)"
  "u_fs (us_file (up_TransferError e s)) = u_fs (us_file s)" "u_key (us_file (up_TransferError e s)) = u_key (us_file s)"
  "u_fs (us_file (up_Close s)) = u_fs (us_file s)" "u_key (us_file (up_Close s)) = u_key (us_file s)"
  by (simp_all add: up_Write_def up_TransferError_def up_Close_def split: option.splits)

lemma exec_event_file:
  assumes "exec_event api ev s = Some s'"
  shows "u_fs (us_file s') = u_fs (us_file s) \<and> u_key (us_file s') = u_key (us_file s)"
proof (cases ev)
  case (CallSeek off wh)
  with assms show ?thesis by (auto simp: case_prod_beta split: if_splits)
qed (use assms in \<open>auto simp: up_call_file runner_read_file runner_abort_file split: if_splits
      dest: client_step_file runner_step_file\<close>)

context s3_service
begin

lemma runner_step_frame:
  assumes "runner_step api s pc = Some s'"
  shows "objs (us_w s') = objs (us_w s)
    \<or> (\<exists>v. objs (us_w s') = upd_obj (objs (us_w s)) (bucket (u_fs (us_file s))) (u_key (us_file s)) v)"
proof (cases pc)
  case (RUpload fin)
  with assms show ?thesis
    by (auto simp: Let_def dest!: upload_done upload_failed split: prod.splits sum.splits)
qed (use assms in \<open>auto simp: Let_def getObject_def dest: get_frame close_frame
      split: if_splits prod.splits sum.splits option.splits\<close>)

lemma exec_event_frame:
  assumes "exec_event api ev s = Some s'"
  shows "objs (us_w s') = objs (us_w s)
    \<or> (\<exists>v. objs (us_w s') = upd_obj (objs (us_w s)) (bucket (u_fs (us_file s))) (u_key (us_file s)) v)"
proof (cases "runner_event ev")
  case True
  show ?thesis
  proof (cases ev)
    case RunnerStep
    with assms runner_step_frame show ?thesis by simp
  next
    case (RunnerRead n)
    with assms show ?thesis
      by (cases "us_runner s")
        (auto simp: Let_def dest: read_frame split: if_splits prod.splits option.splits client_pc.splits)
  next
    case RunnerAbort
    with assms have "us_w s' = us_w s" using runner_abort_file [of s "us_runner s"] by simp
    then show ?thesis by simp
  qed (use True in simp_all)
next
  case False
  with client_keeps(1) [OF assms] show ?thesis by simp
qed

lemma ensureBody_frame: "ensureBody api d w = (r, w') \<Longrightarrow> objs w' = objs w"
  by (auto simp: ensureBody_def getObject_def ret_def attempt_def andThen_def throw_def dest: get_frame
      split: if_splits prod.splits sum.splits)

lemma body_Read_frame: "body_Read api bd n w = (r, w') \<Longrightarrow> objs w' = objs w"
  by (cases bd) (auto simp: emptyReader_Read_def dest: read_frame split: prod.splits)

lemma Read_frame: "Read api d n w = (r, w') \<Longrightarrow> objs w' = objs w"
  by (auto simp: Read_def Let_def dest!: ensureBody_frame body_Read_frame body_Close_frame
      split: if_splits prod.splits sum.splits option.splits)

lemma readfull_frame: "readfull_loop api bd n acc w = Some (r, w') \<Longrightarrow> objs w' = objs w"
  using readfull_loop_ok [of bd n acc w] by auto

lemma ReadAt_frame: "ReadAt api d n off w = Some (r, w') \<Longrightarrow> objs w' = objs w"
  by (auto simp: ReadAt_def ReadFull_def getObject_def dest!: readfull_frame get_frame close_frame
      split: if_splits prod.splits sum.splits option.splits)

lemma dl_Seek_frame: "dl_Seek api d off wh w = (r, w') \<Longrightarrow> objs w' = objs w"
  by (auto simp: dl_Seek_def dest: body_Close_frame split: if_splits option.splits prod.splits)

lemma dl_Close_frame: "dl_Close api d w = (r, w') \<Longrightarrow> objs w' = objs w"
  by (auto simp: dl_Close_def dest: body_Close_frame split: if_splits option.splits prod.splits)

lemma Readdir_frame: "Readdir api d n w = Some (r, w') \<Longrightarrow> objs w' = objs w"
  using Readdir_returns [of d n w] by auto

lemmas transfer_frames = Read_frame ReadAt_frame dl_Seek_frame dl_Close_frame Readdir_frame

lemma transfer_step_ok:
  assumes "transfer_step api ev t w = Some (t', w')" "transfer_of f t"
  shows "transfer_of f t'" "confined objs (bucket f) (rootPrefix f) w w'" "readOnly f \<Longrightarrow> quiet objs w w'"
proof -
  have "transfer_of f t' \<and> confined objs (bucket f) (rootPrefix f) w w' \<and> (readOnly f \<longrightarrow> quiet objs w w')"
  proof (cases "\<exists>uev s. ev = EvUpload uev \<and> t = TUp s")
    case True
    then obtain uev s where u: "ev = EvUpload uev" "t = TUp s" by blast
    with assms(1) obtain s' where s': "exec_event api uev (s\<lparr>us_w := w\<rparr>) = Some s'" "t' = TUp s'" "w' = us_w s'"
      by (auto split: option.splits)
    from exec_event_file [OF s'(1)] exec_event_frame [OF s'(1)] assms(2) u s'(2,3) show ?thesis
      by (auto intro: confined_same confined_upd)
  next
    case False
    with assms have "objs w' = objs w \<and> transfer_of f t'"
      by (cases ev; cases t) (auto dest: transfer_frames split: prod.splits option.splits sum.splits)
    then show ?thesis by (simp add: confined_same quiet_def)
  qed
  then show "transfer_of f t'" "confined objs (bucket f) (rootPrefix f) w w'" "readOnly f \<Longrightarrow> quiet objs w w'"
    by blast+
qed

lemma run_call_ok:
  assumes "run_call api f c w = Some w'"
  shows "confined objs (bucket f) (rootPrefix f) w w'" "readOnly f \<Longrightarrow> quiet objs w w'"
proof -
  have "objs w' = objs w" if "c = CallStat p \<or> c = CallReadDir p" for p
  proof -
    obtain r1 w1 where "Stat api f p w = (r1, w1)" by fastforce
    with that assms ReadDir_returns [of f p w] Stat_frame [of f p w r1 w1] show ?thesis by auto
  qed
  then show "confined objs (bucket f) (rootPrefix f) w w'"
    using assms
    by (cases c)
      (auto intro: confined_same Mkdir_confined [THEN keepsD] MkdirAll_confined [THEN keepsD]
        Remove_confined [THEN keepsD] RemoveDir_confined [THEN keepsD]
        RemoveAll_confined [THEN lkeepsD] Rename_confined [THEN lkeepsD] simp: prod_eq_iff)
  show "quiet objs w w'" if "readOnly f"
    using assms \<open>\<And>p. c = CallStat p \<or> c = CallReadDir p \<Longrightarrow> objs w' = objs w\<close>
    by (cases c) (auto simp: quiet_def mutators_read_only [OF that] simp del: map_option_eq_Some)
qed

lemma start_transfer_ok:
  assumes "Client_GetHandle api mime f name fl off w = (Inr h, w')"
  shows "transfer_of f (start_transfer h w')"
proof (cases h)
  case (HUp u)
  with assms have g: "GetHandle api mime f name fl off w = (Inr (HUp u), w')"
    by (auto simp: Client_GetHandle_def elim: handle_ioE)
  from GetHandle_upload [OF g] obtain n w1 where "u_fs u = f" "u_key u = FS_key f (CleanFTPPath name)" "\<not> readOnly f"
    unfolding openUpload_def by (auto simp: ret_def elim!: andThen_InrE)
  with HUp show ?thesis by (simp add: upload_start_def FS_key_prefix)
qed simp_all

lemma Client_GetHandle_quiet: "keeps (quiet objs) (Client_GetHandle api mime f name fl off)"
  unfolding Client_GetHandle_def by (intro quiet.keeps_andThen GetHandle_quiet quiet.keeps_ret)

lemma session_writes_only:
  assumes "session_ok cfg ses" "confined objs (bucket (ses_fs ses)) (rootPrefix (ses_fs ses)) w w'"
    and "readOnly (ses_fs ses) \<Longrightarrow> quiet objs w w'"
  shows "writes_only objs cfg w w'"
proof -
  from assms(1) obtain a where "a \<in> set (Users (FTP cfg))" "view_of cfg a (ses_fs ses)"
    by (auto simp: session_ok_def)
  then show ?thesis using assms(2,3) by (intro view_writes_only)
qed

lemma quiet_step: "keeps (quiet objs) m \<Longrightarrow> m w = (r, w') \<Longrightarrow> writes_only objs cfg w w'"
  by (rule quiet_writes_only) (auto simp: quiet_def dest: keepsD)

lemma gw_step_ok:
  assumes step: "gw_step api mime bcryptOk g g'" and inv: "gw_inv cfg g"
  shows "gw_inv cfg g' \<and> writes_only objs cfg (gw_world g) (gw_world g')"
  using step
proof cases
  case (connection ev)
  have "d_cfg (conn_step (gw_driver g) ev) = d_cfg (gw_driver g)"
    using conn_run_cfg [of "gw_driver g" "[ev]"] by simp
  moreover have "int (ActiveClients (conn_step (gw_driver g) ev)) \<le> MaxClients (FTP cfg)"
    if "0 < MaxClients (FTP cfg)"
    using registry.step_limit [of "gw_driver g" ev] that inv
    by (simp add: gw_inv_def driver_cap_def ActiveClients_def conn_step_reg)
  ultimately show ?thesis using connection inv by (simp add: gw_inv_def writes.R_refl)
next
  case (login user pass f)
  with AuthUser_view [OF login(2)] inv show ?thesis
    by (auto simp: gw_inv_def session_ok_def writes.R_refl)
next
  case (logout i)
  with inv show ?thesis
    by (auto simp: gw_inv_def writes.R_refl list_all_iff dest: in_set_takeD in_set_dropD)
next
  case (command ses c w')
  have "session_ok cfg ses" using command(2) inv by (auto simp: gw_inv_def list_all_iff)
  from session_writes_only [OF this run_call_ok [OF command(3)]] command inv show ?thesis
    by (simp add: gw_inv_def)
next
  case (refused ses name fl off e w')
  with quiet_step [OF Client_GetHandle_quiet refused(3)] inv show ?thesis by (simp add: gw_inv_def)
next
  case (opened i ses name fl off h w')
  have so: "session_ok cfg ses" using opened inv session_ok_nth by (auto simp: gw_inv_def)
  then have "list_all (session_ok cfg)
      ((gw_sessions g)[i := ses\<lparr>ses_transfers := ses_transfers ses @ [start_transfer h w']\<rparr>])"
    using session_ok_update [OF _ opened(2) _, of cfg _ "ses_transfers ses @ [start_transfer h w']"]
      opened inv start_transfer_ok [OF opened(4)]
    by (simp add: gw_inv_def session_ok_def)
  with opened quiet_step [OF Client_GetHandle_quiet opened(4)] inv show ?thesis by (simp add: gw_inv_def)
next
  case (opened_dir i ses name h w')
  have so: "session_ok cfg ses" using opened_dir inv session_ok_nth by (auto simp: gw_inv_def)
  have "\<exists>d. h = HDir d" using opened_dir(4)
    by (auto simp: Open_def ret_def throw_def elim!: andThen_InrE split: if_splits)
  then have "list_all (session_ok cfg)
      ((gw_sessions g)[i := ses\<lparr>ses_transfers := ses_transfers ses @ [start_transfer h w']\<rparr>])"
    using session_ok_update [OF _ opened_dir(2) _, of cfg _ "ses_transfers ses @ [start_transfer h w']"]
      opened_dir so inv
    by (auto simp: gw_inv_def session_ok_def)
  with opened_dir quiet_step [OF Open_quiet opened_dir(4)] inv show ?thesis by (simp add: gw_inv_def)
next
  case (transfer i ses j ev t' w')
  have so: "session_ok cfg ses" using transfer inv session_ok_nth by (auto simp: gw_inv_def)
  then have "transfer_of (ses_fs ses) (ses_transfers ses ! j)"
    using transfer(4) by (auto simp: session_ok_def list_all_length)
  note t = transfer_step_ok [OF transfer(5) this]
  have "list_all (transfer_of (ses_fs ses)) ((ses_transfers ses)[j := t'])"
    using so t(1) set_update_subset_insert [of "ses_transfers ses" j t']
    by (auto simp: session_ok_def list_all_iff)
  then have "list_all (session_ok cfg) ((gw_sessions g)[i := ses\<lparr>ses_transfers := (ses_transfers ses)[j := t']\<rparr>])"
    using session_ok_update [OF _ transfer(2) _, of cfg _ "(ses_transfers ses)[j := t']"] transfer(3) inv
    by (simp add: gw_inv_def)
  with transfer session_writes_only [OF so t(2,3)] inv show ?thesis by (simp add: gw_inv_def)
qed

end

section \<open>Runs\<close>

text \<open>Any transition system whose steps keep an invariant and a relation on its store.\<close>

locale transition_contract = state_contract R
  for R :: "'w \<Rightarrow> 'w \<Rightarrow> bool" +
  fixes step :: "'s \<Rightarrow> 's \<Rightarrow> bool"
    and inv :: "'s \<Rightarrow> bool"
    and world :: "'s \<Rightarrow> 'w"
  assumes step_ok: "step s s' \<Longrightarrow> inv s \<Longrightarrow> inv s' \<and> R (world s) (world s')"
begin

lemma run_ok: "step\<^sup>*\<^sup>* s s' \<Longrightarrow> inv s \<Longrightarrow> inv s' \<and> R (world s) (world s')"
  by (induction rule: rtranclp_induct) (auto simp: R_refl dest: step_ok intro: R_trans)

end

sublocale s3_service \<subseteq> gateway: transition_contract "writes_only objs cfg" "gw_step api mime bcryptOk" "gw_inv cfg" gw_world
  for cfg mime bcryptOk
  by unfold_locales (rule gw_step_ok)

lemma gw_start_inv:
  "New_driver loadKeyPair cfg = Inr d \<Longrightarrow> gw_inv cfg (gw_start w d)"
  by (auto simp: gw_inv_def gw_start_def New_driver_start ActiveClients_def)

context s3_service
begin

lemma gw_run_ok:
  assumes "(gw_step api mime bcryptOk)\<^sup>*\<^sup>* g g'" "gw_inv cfg g"
  shows "gw_inv cfg g' \<and> writes_only objs cfg (gw_world g) (gw_world g')"
  by (rule gateway.run_ok [OF assms])

end

lemma view_of_wf:
  assumes "view_of cfg a f" "a \<in> set (Users (FTP cfg))" "config_ok cfg" "normal_form cfg"
  shows "wf_root (rootPrefix f) \<and> bucket f \<noteq> []"
proof -
  have "dir_prefix (UserRootPrefix a)" "dir_prefix (RootPrefix (S3 cfg))"
    using assms(2,4) by (simp_all add: normal_form_def)
  then have "dir_prefix (rootPrefix f)" using assms(1) by (simp add: view_of_def account_root_def)
  moreover have "Bucket (S3 cfg) \<noteq> []" using assms(3) unfolding config_ok_def by blast
  ultimately show ?thesis using assms(1) by (simp add: view_of_def account_bucket_def dir_prefix_wf)
qed

end
