(* ===== verification/Main_Run.thy ===== *)
theory Main_Run
  imports Logging Backend Gateway
begin

text \<open>
  \<^verbatim>\<open>src/cmd/s32ftp/main.go\<close>: the command. Flags, files, environment, SDK, key pair loader
  and the FTP server library are parameters; what the server goroutine and the signal
  handler do after start-up is one value of \<open>server_run\<close>.
\<close>

text \<open>\<^verbatim>\<open>debug.ReadBuildInfo\<close>: the main module's version, if there is build information.\<close>

definition resolvedVersion :: "string \<Rightarrow> string option \<Rightarrow> string" where
  "resolvedVersion version info =
     (if version \<noteq> ''dev'' then version
      else case info of
             None \<Rightarrow> version
           | Some v \<Rightarrow> if v \<noteq> [] \<and> v \<noteq> ''(devel)'' then v else version)"

record flags_set =
  configPath :: string
  showVersion :: bool
  hashPassword :: string

text \<open>\<^verbatim>\<open>int64(cfg.S3.PartSizeMB) * 1024 * 1024\<close>.\<close>

definition partSizeBytes :: "int \<Rightarrow> int" where
  "partSizeBytes mb = wrap64 (wrap64 (mb * 1024) * 1024)"

definition client_options :: "S3Config \<Rightarrow> ClientOptions" where
  "client_options c =
     \<lparr>opt_EndpointURL = EndpointURL c, opt_Region = Region c, opt_AccessKeyID = AccessKeyID c,
      opt_SecretAccessKey = SecretAccessKey c, opt_SessionToken = SessionToken c,
      opt_ForcePathStyle = ForcePathStyle c, opt_InsecureSkipVerify = InsecureSkipVerify c,
      opt_CABundle = CABundle c, opt_PartSizeBytes = partSizeBytes (PartSizeMB c),
      opt_UploadConcurrency = UploadConcurrency c\<rparr>"

text \<open>The world outside the process.\<close>

record ('w, 'b, 'cfg, 'p, 'cert, 'f) host =
  h_readFile :: "string \<Rightarrow> error + bytes"
  h_yaml :: "bytes \<Rightarrow> Config \<Rightarrow> error + Config"
  h_env :: env
  h_ulower :: "string \<Rightarrow> string"
  h_openLog :: "string \<Rightarrow> error + 'f"
  h_sdk :: "('cfg, 'p) sdk"
  h_api :: "'cfg Client \<Rightarrow> ('w, 'b) s3api"
  h_keyPair :: "string \<Rightarrow> string \<Rightarrow> error + 'cert"
  h_bcrypt :: "string \<Rightarrow> error + string"
  h_listen :: "'cert Driver \<Rightarrow> error option"
  h_version :: string
  h_buildInfo :: "string option"

text \<open>
  After \<^verbatim>\<open>Listen\<close>: \<^verbatim>\<open>Serve\<close> returned before a signal, or a signal came first; then \<^verbatim>\<open>Stop\<close>
  returned its result and \<^verbatim>\<open>Serve\<close> returned within ten seconds or not.
\<close>

datatype server_run = ServeEnded "error option" | Signalled "error option" "error option option"

text \<open>The start of the process up to the driver: the logger, its file, the client and the driver.\<close>

definition startup ::
  "('w, 'b, 'cfg, 'p, 'cert, 'f) host \<Rightarrow> string \<Rightarrow> ('w, 'cfg Client \<times> 'cert Driver) io" where
  "startup h path w =
     (case Load (h_readFile h) (h_yaml h) (h_env h) (h_ulower h) path of
        Inl e \<Rightarrow> (Inl e, w)
      | Inr cfg \<Rightarrow>
          (case New_logger (h_openLog h) (h_ulower h) (Logging cfg) of
             Inl e \<Rightarrow> (Inl e, w)
           | Inr logger \<Rightarrow>
               (case NewClient (h_sdk h) (client_options (S3 cfg)) of
                  Inl e \<Rightarrow> (Inl (Wrapped ''create S3 client: %w'' [] e), w)
                | Inr cl \<Rightarrow>
                    (case (if CreateBucketIfMissing (S3 cfg) then EnsureBucket (h_api h cl) (Bucket (S3 cfg)) w
                           else (Inr (), w)) of
                       (Inl e, w') \<Rightarrow> (Inl e, w')
                     | (Inr u, w') \<Rightarrow>
                         (case New_driver (h_keyPair h) cfg of
                            Inl e \<Rightarrow> (Inl e, w')
                          | Inr d \<Rightarrow> (Inr (cl, d), w'))))))"

definition serve_result :: "error option \<Rightarrow> error option" where
  "serve_result r = (case r of None \<Rightarrow> None | Some e \<Rightarrow> if errors_Is e EOF then None else Some e)"

fun await_server :: "server_run \<Rightarrow> error option" where
  "await_server (ServeEnded r) = map_option (Wrapped ''serve: %w'' []) (serve_result r)"
| "await_server (Signalled stopErr (Some r)) = map_option (Wrapped ''serve: %w'' []) (serve_result r)"
| "await_server (Signalled stopErr None) = None"

text \<open>The lines printed, the error returned, and the store afterwards.\<close>

definition run ::
  "('w, 'b, 'cfg, 'p, 'cert, 'f) host \<Rightarrow> flags_set \<Rightarrow> server_run \<Rightarrow> 'w \<Rightarrow> (string list \<times> error option) \<times> 'w" where
  "run h fl sv w =
     (if showVersion fl then (([''s32ftp '' @ resolvedVersion (h_version h) (h_buildInfo h)], None), w)
      else if hashPassword fl \<noteq> [] then
        (case HashPassword (h_bcrypt h) (hashPassword fl) of
           Inl e \<Rightarrow> (([], Some e), w)
         | Inr hash \<Rightarrow> (([hash], None), w))
      else (case startup h (configPath fl) w of
              (Inl e, w') \<Rightarrow> (([], Some e), w')
            | (Inr (cl, d), w') \<Rightarrow>
                (case h_listen h d of
                   Some e \<Rightarrow> (([], Some (Wrapped ''listen: %w'' [] e)), w')
                 | None \<Rightarrow> (([], await_server sv), w'))))"

text \<open>The process's exit status.\<close>

definition main_exit :: "('w, 'b, 'cfg, 'p, 'cert, 'f) host \<Rightarrow> flags_set \<Rightarrow> server_run \<Rightarrow> 'w \<Rightarrow> int" where
  "main_exit h fl sv w = (case run h fl sv w of ((out, None), w') \<Rightarrow> 0 | ((out, Some e), w') \<Rightarrow> 1)"

section \<open>Start-up\<close>

lemma partSizeBytes_exact: "0 \<le> mb \<Longrightarrow> mb < 2 ^ 43 \<Longrightarrow> partSizeBytes mb = mb * 1048576"
  by (simp add: partSizeBytes_def wrap64_id in_int64_def)

lemma startupE:
  assumes "startup h path w = (Inr (cl, d), w')"
  obtains cfg where "Load (h_readFile h) (h_yaml h) (h_env h) (h_ulower h) path = Inr cfg"
    "NewClient (h_sdk h) (client_options (S3 cfg)) = Inr cl" "New_driver (h_keyPair h) cfg = Inr d"
    "if CreateBucketIfMissing (S3 cfg) then EnsureBucket (h_api h cl) (Bucket (S3 cfg)) w = (Inr (), w') else w' = w"
  using assms
  by (auto simp: startup_def split: sum.splits prod.splits if_splits)

text \<open>
  A configuration that loads with a part size below the overflow bound makes a client with
  exactly that part size.
\<close>

lemma client_part_size:
  assumes "config_ok cfg" "PartSizeMB (S3 cfg) < 2 ^ 43" "NewClient sdk (client_options (S3 cfg)) = Inr cl"
  shows "cl_PartSize cl = PartSizeMB (S3 cfg) * 1048576" "cl_Concurrency cl = UploadConcurrency (S3 cfg)"
proof -
  have "5 \<le> PartSizeMB (S3 cfg)" "1 \<le> UploadConcurrency (S3 cfg)" using assms(1) by (simp_all add: config_ok_def)
  with assms(2) NewClient_settings(4,5) [OF assms(3)]
  show "cl_PartSize cl = PartSizeMB (S3 cfg) * 1048576" "cl_Concurrency cl = UploadConcurrency (S3 cfg)"
    by (simp_all add: client_options_def partSizeBytes_exact)
qed

lemma run_objs:
  assumes "\<And>cl. s3_service (h_api h cl) (rem cl) objs mtime tokpos" "run h fl sv w = (r, w')"
  shows "objs w' = objs w"
proof -
  have "objs w1 = objs w" if "EnsureBucket (h_api h cl) b w = (r1, w1)" for cl b r1 w1
    using s3_service.EnsureBucket_quiet [OF assms(1) that] .
  then have "objs w1 = objs w" if "startup h p w = (r1, w1)" for p r1 w1
    using that by (auto simp: startup_def split: sum.splits prod.splits if_splits)
  with assms(2) show ?thesis
    by (auto simp: run_def split: if_splits sum.splits prod.splits option.splits)
qed

end
