(* ===== verification/Demo.thy ===== *)
theory Demo
  imports Fs_Refine Fs_Safety Main_Run
begin

text \<open>
  A small bucket, two views of it and a configuration, on which the theorems of the
  development are applied to concrete calls.
\<close>

definition demo_view :: FS where
  "demo_view = NewFS ''bkt'' ''home/'' True False"

definition demo_guest :: FS where
  "demo_guest = NewFS ''bkt'' ''home/'' True True"

definition demo_world :: mem where
  "demo_world = mem_of
     [(''bkt'', ''home/a.txt'', ''hello''), (''bkt'', ''home/d/x'', ''xyz''),
      (''bkt'', ''home/e/'', []), (''bkt'', ''other/secret'', ''s'')]"

lemma demo_up [simp]: "mem_up demo_world"
  by (simp add: demo_world_def)

lemma demo_bucket [simp]: "slash \<notin> set (bucket demo_view)"
  by (simp add: demo_view_def NewFS_def)

lemma demo_names:
  "stable_name ''/a.txt''" "stable_name ''/d''" "stable_name ''/e''" "stable_name ''/new''"
  by code_simp+

lemma demo_clean:
  "CleanFTPPath ''/a.txt'' = ''/a.txt''" "CleanFTPPath ''/d'' = ''/d''" "CleanFTPPath ''/e'' = ''/e''"
  "CleanFTPPath ''/new'' = ''/new''" "CleanFTPPath ''/d/../a.txt'' = ''/a.txt''"
  by code_simp+

text \<open>The service that hands out listings one entry at a time.\<close>

lemma demo_paged: "s3_available (mem_api 1) (\<lambda>bd. bd) mem_objs mem_mtime mem_tokpos mem_up"
  using mem_avail.s3_available_axioms [of 0] by simp

section \<open>Uploads\<close>

definition demo_flags :: flags where
  "demo_flags = (O_WRONLY OR O_CREATE OR O_TRUNC)"

text \<open>Two bytes written in one piece, up to the point where the close waits; then to its end.\<close>

definition demo_closing :: "upload_event list" where
  "demo_closing = [CallWrite ''hi'', RunnerStep, RunnerRead 5, ClientStep, CallClose, ClientStep, ClientStep]"

definition demo_events :: "upload_event list" where
  "demo_events = demo_closing @ [RunnerStep, RunnerStep, RunnerStep, ClientStep]"

definition demo_aborted :: "upload_event list" where
  "demo_aborted = [CallWrite ''hi'', RunnerStep, RunnerRead 1, RunnerRead 1, ClientStep]"

definition demo_abort :: "upload_event list" where
  "demo_abort = [ClientStep, ClientStep, RunnerStep, ClientStep, CallClose, ClientStep, ClientStep,
     RunnerStep, RunnerStep, RunnerStep, RunnerStep, ClientStep]"

text \<open>The state of an upload after its events, if opening and every event succeeded.\<close>

definition demo_run :: "string \<Rightarrow> upload_event list \<Rightarrow> (mem, bytes) upload_state option" where
  "demo_run name evs =
     (case GetHandle mem_s3 (\<lambda>e. []) demo_view name demo_flags 0 demo_world of
        (Inr (HUp u), w0) \<Rightarrow> run_events mem_s3 evs (upload_start u w0)
      | _ \<Rightarrow> None)"

lemma demo_runE:
  assumes "\<exists>s. demo_run name evs = Some s \<and> P s"
  obtains u w0 s where "GetHandle mem_s3 (\<lambda>e. []) demo_view name demo_flags 0 demo_world = (Inr (HUp u), w0)"
    "run_events mem_s3 evs (upload_start u w0) = Some s" "P s"
  using assms by (auto simp: demo_run_def split: prod.splits sum.splits handle.splits)

lemma Some_exI: "(case x of None \<Rightarrow> False | Some y \<Rightarrow> P y) \<Longrightarrow> \<exists>y. x = Some y \<and> P y"
  by (simp split: option.splits)

lemma demo_upload:
  obtains u w0 s where "GetHandle mem_s3 (\<lambda>e. []) demo_view ''/new'' demo_flags 0 demo_world = (Inr (HUp u), w0)"
    "run_events mem_s3 demo_events (upload_start u w0) = Some s"
    "us_last s = Some (RetClose None)" "us_acked s = ''hi''"
proof -
  have "\<exists>s. demo_run ''/new'' demo_events = Some s \<and> us_last s = Some (RetClose None) \<and> us_acked s = ''hi''"
    by (rule Some_exI) code_simp
  then show ?thesis by (rule demo_runE) (use that in blast)
qed

lemma demo_close:
  obtains u w0 s where "GetHandle mem_s3 (\<lambda>e. []) demo_view ''/new'' demo_flags 0 demo_world = (Inr (HUp u), w0)"
    "run_events mem_s3 demo_closing (upload_start u w0) = Some s" "us_client s = CCloseWait"
proof -
  have "\<exists>s. demo_run ''/new'' demo_closing = Some s \<and> us_client s = CCloseWait"
    by (rule Some_exI) code_simp
  then show ?thesis by (rule demo_runE) (use that in blast)
qed

lemma run_events_append:
  "run_events api (evs @ evs') s = (case run_events api evs s of None \<Rightarrow> None | Some s' \<Rightarrow> run_events api evs' s')"
  by (induction evs arbitrary: s) (simp_all split: option.splits)

lemma demo_abort_run:
  obtains u w0 s1 s where "GetHandle mem_s3 (\<lambda>e. []) demo_view ''/a.txt'' demo_flags 0 demo_world = (Inr (HUp u), w0)"
    "run_events mem_s3 demo_aborted (upload_start u w0) = Some s1" "\<not> u_closed (us_file s1)"
    "run_events mem_s3 (CallTransferError (Some ErrClosed) # demo_abort) s1 = Some s"
    "us_last s = Some (RetClose (Some ErrClosed))"
proof -
  have "\<exists>s. demo_run ''/a.txt'' demo_aborted = Some s \<and> (\<not> u_closed (us_file s) \<and>
      (case run_events mem_s3 (CallTransferError (Some ErrClosed) # demo_abort) s of
         None \<Rightarrow> False | Some s' \<Rightarrow> us_last s' = Some (RetClose (Some ErrClosed))))"
    by (rule Some_exI) code_simp
  then show ?thesis by (rule demo_runE) (use that Some_exI in blast)
qed

section \<open>A configuration\<close>

definition demo_alice :: FTPUser where
  "demo_alice = \<lparr>Username = ''alice'', Password = ''pw'', PasswordHash = [], UserReadOnly = False,
     UserBucket = [], UserRootPrefix = ''home/''\<rparr>"

definition demo_bob :: FTPUser where
  "demo_bob = \<lparr>Username = ''bob'', Password = [], PasswordHash = ''h'', UserReadOnly = True,
     UserBucket = ''pub'', UserRootPrefix = []\<rparr>"

definition demo_config :: Config where
  "demo_config = Default
     \<lparr>FTP := (FTP Default)\<lparr>Users := [demo_alice, demo_bob], MaxClients := 2, PassivePortRange := ''40000-40100''\<rparr>,
      S3 := (S3 Default)\<lparr>Bucket := ''bkt''\<rparr>\<rparr>"

abbreviation (input) demo_load :: "error + Config" where
  "demo_load \<equiv> Load (\<lambda>p. Inr []) (\<lambda>d c. Inr demo_config) (\<lambda>n. None) id ''c.yml''"

lemma applyEnv_empty: "applyEnv (\<lambda>n. None) c = Inr c"
  by (simp add: applyEnv_def applyEnv_s3_def applyEnv_ftp_def applyEnv_logging_def setBool_def setString_def
      setInt_def bind_err_def)

lemma demo_strings:
  "NormalizePrefix ''home/'' = ''home/''" "NormalizePrefix [] = []" "TrimSpace ''alice'' = ''alice''"
  "TrimSpace ''bob'' = ''bob''" "TrimSpace ''stdout'' = ''stdout''"
  "ToLower id (TrimSpace ''info'') = ''info''" "ToLower id (TrimSpace ''text'') = ''text''"
  "ToLower id (TrimSpace ''off'') = ''off''"
  by code_simp+

lemma demo_normal: "normalize id demo_config = demo_config"
  by (simp add: normalize_def normalize_ftp_def normalize_s3_def normalize_logging_def normalize_user_def
      demo_config_def Default_def demo_alice_def demo_bob_def demo_strings)

lemma demo_valid: "Validate demo_config = None"
  by code_simp

lemma demo_load_ok: "demo_load = Inr demo_config"
  by (simp add: Load_def bind_err_def demo_normal applyEnv_empty demo_valid)

definition demo_driver :: "unit Driver" where
  "demo_driver = \<lparr>d_cfg = demo_config, d_tlsConfig = None, d_clients = {}\<rparr>"

lemma demo_driver_ok: "New_driver (\<lambda>c k. Inr ()) demo_config = Inr demo_driver"
proof -
  have "\<not> TLSEnabled (FTP demo_config)" by code_simp
  then show ?thesis by (simp add: New_driver_def demo_driver_def)
qed

lemma demo_login: "AuthUser (\<lambda>h p. False) demo_driver ''alice'' ''pw'' = Inr demo_view"
  by code_simp

definition demo_sdk :: "(unit, unit) sdk" where
  "demo_sdk = \<lparr>sdk_ReadFile = (\<lambda>p. Inr []), sdk_HasTransport = True, sdk_SystemCertPool = Inr None,
     sdk_NewCertPool = (), sdk_AppendCerts = (\<lambda>p b. (True, p)), sdk_LoadDefaultConfig = (\<lambda>r h c. Inr ()),
     sdk_MinUploadPartSize = 5242880\<rparr>"

text \<open>
  Three clients connect, the third beyond the limit of two; Alice logs in and makes a directory.
\<close>

definition demo_full :: "unit Driver" where
  "demo_full = foldl conn_step demo_driver [Connect 1, Connect 2, Connect 3]"

lemma demo_limit: "MaxClients (FTP (d_cfg demo_driver)) = 2"
  by code_simp

lemma demo_full_eq: "demo_full = demo_driver\<lparr>d_clients := {1, 2}\<rparr>"
  by (simp add: demo_full_def ClientConnected_def Let_def demo_limit)
    (simp add: demo_driver_def insert_commute)

lemma demo_full_clients: "ActiveClients demo_full = 2" "snd (fst (ClientConnected demo_full 3)) = Some ErrTooManyClients"
  by (simp_all add: demo_full_eq ActiveClients_def ClientConnected_def Let_def demo_limit)

lemma demo_full_login: "AuthUser (\<lambda>h p. False) demo_full ''alice'' ''pw'' = Inr demo_view"
  using demo_login by (auto simp: demo_full_eq AuthUser_def Let_def split: option.splits)

definition demo_running :: "(mem, bytes, unit) gateway" where
  "demo_running = \<lparr>gw_world = snd (Mkdir mem_s3 demo_view ''/new'' demo_world), gw_driver = demo_full,
     gw_sessions = [\<lparr>ses_fs = demo_view, ses_transfers = []\<rparr>]\<rparr>"

lemma gw_connections:
  "(gw_step api mime bcryptOk)\<^sup>*\<^sup>* (gw_start w d) (gw_start w (foldl conn_step d evs))"
proof (induction evs rule: rev_induct)
  case (snoc ev evs)
  let ?g = "gw_start w (foldl conn_step d evs)"
  have "gw_step api mime bcryptOk ?g (gw_start w (conn_step (foldl conn_step d evs) ev))"
    using gw_step.connection [of api mime bcryptOk ?g ev] by (simp add: gw_start_def)
  with snoc show ?case by (simp add: rtranclp.rtrancl_into_rtrancl)
qed simp

lemma demo_reachable:
  "(gw_step mem_s3 (\<lambda>e. []) (\<lambda>h p. False))\<^sup>*\<^sup>* (gw_start demo_world demo_driver) demo_running"
proof -
  let ?g0 = "gw_start demo_world demo_full"
  let ?g1 = "?g0\<lparr>gw_sessions := [\<lparr>ses_fs = demo_view, ses_transfers = []\<rparr>]\<rparr>"
  have "gw_step mem_s3 (\<lambda>e. []) (\<lambda>h p. False) ?g0 ?g1"
    using gw_step.login [of "\<lambda>h p. False" ?g0 "''alice''" "''pw''" demo_view mem_s3 "\<lambda>e. []"] demo_full_login
    by (simp add: gw_start_def)
  moreover have "gw_step mem_s3 (\<lambda>e. []) (\<lambda>h p. False) ?g1 demo_running"
    using gw_step.command [of "\<lparr>ses_fs = demo_view, ses_transfers = []\<rparr>" ?g1 mem_s3 "CallMkdir ''/new''"]
    by (simp add: demo_running_def gw_start_def)
  ultimately show ?thesis
    using gw_connections [of mem_s3 "\<lambda>e. []" "\<lambda>h p. False" demo_world demo_driver "[Connect 1, Connect 2, Connect 3]"]
    by (simp add: demo_full_def rtranclp.rtrancl_into_rtrancl del: foldl_Cons foldl_Nil)
qed

end
