(* ===== verification/Path_Props.thy ===== *)
theory Path_Props
  imports Demo
begin

text \<open>Properties of the path mapping of \<^verbatim>\<open>src/internal/s3fs/path.go\<close>.\<close>

text \<open>
  C31: A cleaned FTP path is the root or a slash followed by elements joined with single
  slashes, none of which is empty, \<^verbatim>\<open>.\<close>, \<^verbatim>\<open>..\<close> or contains a slash, whatever the client sent.
\<close>

theorem clean_path_form:
  "\<exists>es. CleanFTPPath p = slash # Join slash es
     \<and> list_all (\<lambda>e. e \<noteq> [] \<and> e \<noteq> ''.'' \<and> e \<noteq> ''..'' \<and> slash \<notin> set e) es"
proof -
  obtain es where "CleanFTPPath p = rooted es" "\<forall>e \<in> set es. plain_elem e" by (rule CleanFTPPath_form)
  then show ?thesis by (intro exI [of _ es]) (auto simp: rooted_def list_all_iff plain_elem_def)
qed

text \<open>
  C32: Cleaning is idempotent on every path whose cleaned form does not end in white space:
  an operation may clean its argument again without changing the object it names.
\<close>

theorem clean_path_idempotent:
  "\<not> ends_space (CleanFTPPath p) \<Longrightarrow>
     CleanFTPPath (CleanFTPPath p) = CleanFTPPath p \<and> FS_key f (CleanFTPPath p) = FS_key f p
     \<and> FS_keyDir f (CleanFTPPath p) = FS_keyDir f p"
  by (simp add: CleanFTPPath_idem FS_key_def FS_keyDir_def dirKey_def joinRoot_def)

theorem clean_path_idempotent_witness:
  "\<not> ends_space (CleanFTPPath ''d/../a.txt'')
   \<and> FS_key demo_view (CleanFTPPath ''d/../a.txt'') = FS_key demo_view ''d/../a.txt''"
proof -
  have "\<not> ends_space (CleanFTPPath ''d/../a.txt'')" by code_simp
  with clean_path_idempotent [OF this, of demo_view] show ?thesis by simp
qed

text \<open>
  C30: Two paths name the same object exactly when they clean to the same path, and no path,
  however many \<^verbatim>\<open>..\<close> it has, names an object or a directory outside the root prefix.
\<close>

theorem keys_injective_confined:
  "(FS_key f p = FS_key f q \<longleftrightarrow> CleanFTPPath p = CleanFTPPath q)
   \<and> prefix (rootPrefix f) (FS_key f p) \<and> prefix (rootPrefix f) (FS_keyDir f p)"
proof -
  obtain s t where c: "CleanFTPPath p = slash # s" "CleanFTPPath q = slash # t"
    using CleanFTPPath_hd by metis
  then have "FS_key f p = FS_key f q \<longleftrightarrow> s = t"
    by (auto simp: FS_key_def joinRoot_def Let_def TrimPrefix_def)
  with c show ?thesis by (simp add: FS_key_prefix FS_keyDir_prefix)
qed

text \<open>
  C33: The copy source sent to S3 decodes to the bucket, a slash and the key, for every
  bucket and key, also those with slashes, percent signs and bytes above 127.
\<close>

theorem copy_source_roundtrip: "percent_decode (copySource b k) = Some (b @ slash # k)"
  by (rule copySource_decodes)

text \<open>
  C34: The name a listing shows for an entry is the one that, joined to the directory's
  prefix, gives the entry back: a file name appended, or a directory name and a slash.
\<close>

theorem relative_name_roundtrip:
  assumes "n \<noteq> []" "slash \<notin> set n"
  shows "relativeName pre (pre @ n) = n \<and> relativeName pre (pre @ n @ [slash]) = n"
  using assms by (simp add: relativeName_file relativeName_dir)

theorem relative_name_roundtrip_witness:
  "relativeName ''home/'' ''home/d'' = ''d'' \<and> relativeName ''home/'' ''home/d/'' = ''d''"
  using relative_name_roundtrip [of "''d''" "''home/''"] by simp

end
