(* ===== verification/Fs_Props.thy ===== *)
theory Fs_Props
  imports Demo
begin

text \<open>
  Properties of the filesystem operations of \<^verbatim>\<open>src/internal/s3fs/fs.go\<close>, \<^verbatim>\<open>dir.go\<close> and
  \<^verbatim>\<open>file.go\<close>. A premise \<^term>\<open>s3_service\<close> allows every call to fail at any time;
  \<^term>\<open>s3_available\<close> describes a service that answers.
\<close>

section \<open>Looking\<close>

text \<open>
  C27: While the service answers, \<^verbatim>\<open>Stat\<close> reports exactly what the bucket holds: the object
  with its size and time, a directory if something lies below the name, and otherwise that
  the name does not exist.
\<close>

theorem stat_finds:
  assumes "s3_available api rem objs mtime tokpos up" "up w" "stable_name p"
  shows "fst (Stat api f p w) =
    (case lookup_node f p (objs w (bucket f)) of
       NFile v \<Rightarrow> Inr (NewFileInfo (path_Base (CleanFTPPath p)) (int (length v)) (mtime w (bucket f) (FS_key f p)))
     | NDir \<Rightarrow> Inr (NewDirInfo (path_Base (CleanFTPPath p)))
     | NNone \<Rightarrow> Inl (notExist ''stat'' (CleanFTPPath p)))"
proof (cases "CleanFTPPath p = [slash]")
  case True
  moreover have "path_Base [slash] = [slash]" by code_simp
  ultimately show ?thesis by (simp add: Stat_def lookup_node_def Let_def ret_def)
next
  case False
  have nr: "\<not> at_root f (CleanFTPPath p)" using stable_name_keys(3) [OF assms(3) False] .
  obtain r w' where st: "Stat api f p w = (r, w')" by fastforce
  have "FS_key f (CleanFTPPath p) = FS_key f p"
    using assms(3) by (simp add: FS_key_def joinRoot_def)
  with s3_available.Stat_up(2) [OF assms(1,2) st nr] st False show ?thesis
    by (simp add: lookup_node_def Let_def node_info_def split: node.splits)
qed

theorem stat_finds_witness:
  "fst (Stat mem_s3 demo_view ''/a.txt'' demo_world) = Inr (NewFileInfo ''a.txt'' 5 0)"
proof -
  have "mem_objs demo_world ''bkt'' (FS_key demo_view ''/a.txt'') = Some ''hello''" by code_simp
  then have "lookup_node demo_view ''/a.txt'' (mem_objs demo_world ''bkt'') = NFile ''hello''"
    by (simp add: lookup_node_def demo_clean node_key_def)
  moreover have "path_Base ''/a.txt'' = ''a.txt''" "mem_mtime demo_world ''bkt'' (FS_key demo_view ''/a.txt'') = 0"
    "bucket demo_view = ''bkt''" by code_simp+
  ultimately show ?thesis
    using stat_finds [OF mem_s3_available demo_up demo_names(1), of demo_view] by (simp add: demo_clean)
qed

text \<open>
  C28: Even if calls fail, \<^verbatim>\<open>Stat\<close> never reports something that is not there, and reports
  that a name does not exist only if there is no object with that key and nothing below it.
  It changes no object.
\<close>

theorem stat_honest:
  assumes "s3_service api rem objs mtime tokpos" "\<not> at_root f (CleanFTPPath p)" "Stat api f p w = (r, w')"
  defines "nd \<equiv> node_key (objs w (bucket f)) (FS_key f (CleanFTPPath p)) (FS_keyDir f (CleanFTPPath p))"
  shows "(\<forall>info. r = Inr info \<longrightarrow>
        node_info (path_Base (CleanFTPPath p)) (mtime w (bucket f) (FS_key f (CleanFTPPath p))) nd = Some info)
    \<and> (\<forall>e. r = Inl e \<and> IsNotExist e \<longrightarrow> nd = NNone) \<and> objs w' = objs w"
  using s3_service.Stat_sound [OF assms(1,3,2)] s3_service.Stat_frame [OF assms(1,3)]
  by (simp add: nd_def)

theorem stat_honest_witness:
  "fst (Stat mem_s3 demo_view ''/nope'' (demo_world\<lparr>faults := [False, True]\<rparr>))
     = Inl (Wrapped ''stat %s: %w'' [''/nope''] (APIError ''InternalError'' FaultServer))
   \<and> mem_objs (snd (Stat mem_s3 demo_view ''/nope'' (demo_world\<lparr>faults := [False, True]\<rparr>))) = mem_objs demo_world"
proof -
  let ?w = "demo_world\<lparr>faults := [False, True]\<rparr>"
  have nr: "\<not> at_root demo_view (CleanFTPPath ''/nope'')" by code_simp
  have "fst (Stat mem_s3 demo_view ''/nope'' ?w)
      = Inl (Wrapped ''stat %s: %w'' [''/nope''] (APIError ''InternalError'' FaultServer))" by code_simp
  moreover have "mem_objs (snd (Stat mem_s3 demo_view ''/nope'' ?w)) = mem_objs ?w"
    using stat_honest [OF mem_s3_service nr prod.collapse [symmetric]] by blast
  ultimately show ?thesis by simp
qed

text \<open>
  C10: \<^verbatim>\<open>ReadDir\<close> always returns. If it returns a listing, the listing has exactly the files
  and directories directly below the directory's prefix, each once and with its size and
  time, directories first and both in name order, however the replies were paged.
\<close>

theorem read_dir_correct:
  assumes "s3_service api rem objs mtime tokpos"
  shows "\<exists>r w'. ReadDir api f p w = Some (r, w') \<and> objs w' = objs w
    \<and> (\<forall>infos. r = Inr infos \<longrightarrow> (\<exists>w0. objs w0 = objs w \<and>
         listing_ok (objs w (bucket f)) (mtime w0 (bucket f)) (FS_keyDir f (CleanFTPPath p)) infos))"
proof -
  obtain r w' where "ReadDir api f p w = Some (r, w')" "objs w' = objs w"
    using s3_service.ReadDir_returns [OF assms] by blast
  with s3_service.ReadDir_listing [OF assms, of f p w] show ?thesis by blast
qed

theorem read_dir_correct_witness:
  "\<exists>infos w'. ReadDir (mem_api 1) demo_view ''/'' demo_world = Some (Inr infos, w')
     \<and> map FileInfo_Name infos = [''d'', ''e'', ''a.txt'']
     \<and> FileInfo_Name ` set infos = child_names (mem_objs demo_world ''bkt'') ''home/''"
proof -
  have run: "map_option (\<lambda>(r, w'). map_sum id (map FileInfo_Name) r) (ReadDir (mem_api 1) demo_view ''/'' demo_world)
      = Some (Inr [''d'', ''e'', ''a.txt''])" by code_simp
  have keys: "FS_keyDir demo_view (CleanFTPPath ''/'') = ''home/''" "bucket demo_view = ''bkt''" by code_simp+
  obtain r w' where r: "ReadDir (mem_api 1) demo_view ''/'' demo_world = Some (r, w')"
    "\<And>infos. r = Inr infos \<Longrightarrow> \<exists>w0. mem_objs w0 = mem_objs demo_world \<and>
       listing_ok (mem_objs demo_world ''bkt'') (mem_mtime w0 ''bkt'') ''home/'' infos"
    using read_dir_correct [OF mem_service.s3_service_axioms [of 0], of demo_view "''/''" demo_world] keys
    by auto
  with run obtain infos where "r = Inr infos" "map FileInfo_Name infos = [''d'', ''e'', ''a.txt'']"
    by (cases r) auto
  with r show ?thesis by (auto simp: listing_ok_def)
qed

text \<open>
  C26: A directory handle hands out its listing in slices. Concatenating the slices of
  successive \<^verbatim>\<open>Readdir\<close> calls gives the first entries of one correct listing, in order,
  nothing repeated and nothing left out.
\<close>

theorem readdir_slices_listing:
  assumes "s3_service api rem objs mtime tokpos"
    and "read_listing api (NewFile f name info) (c # cs) w = Some (out # outs, d, w')"
    and "\<forall>c \<in> set (c # cs). 0 < c \<and> c < 2 ^ 62" "int (card (dom (objs w (bucket f)))) < 2 ^ 62"
  shows "\<exists>infos w0. objs w0 = objs w
    \<and> listing_ok (objs w (bucket f)) (mtime w0 (bucket f)) (FS_keyDir f (CleanFTPPath name)) infos
    \<and> concat (out # outs) = take (nat (sum_list (c # cs))) infos"
  by (rule s3_service.read_listing_slices [OF assms])

theorem readdir_slices_listing_witness:
  "\<exists>out1 out2 infos d w'. read_listing mem_s3 (NewFile demo_view ''/'' (NewDirInfo ''/'')) [2, 5] demo_world
       = Some ([out1, out2], d, w')
     \<and> map FileInfo_Name out1 = [''d'', ''e''] \<and> out1 @ out2 = take 7 infos
     \<and> FileInfo_Name ` set infos = child_names (mem_objs demo_world ''bkt'') ''home/''"
proof -
  let ?run = "read_listing mem_s3 (NewFile demo_view ''/'' (NewDirInfo ''/'')) [2, 5] demo_world"
  have run: "map_option (\<lambda>(outs, d, w'). map (map FileInfo_Name) outs) ?run = Some [[''d'', ''e''], [''a.txt'']]"
    by code_simp
  then obtain out1 out2 d w' where r: "?run = Some ([out1, out2], d, w')" "map FileInfo_Name out1 = [''d'', ''e'']"
    by auto
  have keys: "FS_keyDir demo_view (CleanFTPPath ''/'') = ''home/''" "bucket demo_view = ''bkt''" by code_simp+
  have "dom (mem_objs demo_world ''bkt'') = {''home/a.txt'', ''home/d/x'', ''home/e/'', ''other/secret''}"
    by (simp add: dom_mem_objs demo_world_def mem_of_def)
  then have "int (card (dom (mem_objs demo_world (bucket demo_view)))) < 2 ^ 62" by (simp add: keys)
  from readdir_slices_listing [OF mem_s3_service r(1) _ this] keys r show ?thesis
    by (auto simp: listing_ok_def)
qed

section \<open>Changing directories\<close>

text \<open>
  C22: \<^verbatim>\<open>Mkdir\<close> refines its specification on the object map: read-only views and existing
  names are refused with the right error and no change, the root succeeds, and otherwise the
  marker is the only change (none if markers are off).
\<close>

theorem mkdir_refines:
  assumes "s3_available api rem objs mtime tokpos up" "up w" "stable_name p"
  shows "implements objs f (spec_Mkdir f p) w (Mkdir api f p w)"
  using s3_available.Mkdir_implements [OF assms] by blast

theorem mkdir_refines_witness:
  "implements mem_objs demo_view (spec_Mkdir demo_view ''/new'') demo_world (Mkdir mem_s3 demo_view ''/new'' demo_world)
   \<and> fst (Mkdir mem_s3 demo_view ''/new'' demo_world) = Inr ()
   \<and> mem_objs (snd (Mkdir mem_s3 demo_view ''/new'' demo_world)) ''bkt'' ''home/new/'' = Some []"
proof -
  have "fst (Mkdir mem_s3 demo_view ''/new'' demo_world) = Inr ()
    \<and> mem_objs (snd (Mkdir mem_s3 demo_view ''/new'' demo_world)) ''bkt'' ''home/new/'' = Some []" by code_simp
  with mkdir_refines [OF mem_s3_available demo_up demo_names(4), of demo_view] show ?thesis by blast
qed

text \<open>
  C23: \<^verbatim>\<open>MkdirAll\<close> refines its specification: it succeeds on anything that exists and makes
  the marker of a name that does not.
\<close>

theorem mkdir_all_refines:
  assumes "s3_available api rem objs mtime tokpos up" "up w" "stable_name p"
  shows "implements objs f (spec_MkdirAll f p) w (MkdirAll api f p w)"
  using s3_available.MkdirAll_implements [OF assms] by blast

theorem mkdir_all_refines_witness:
  "implements mem_objs demo_view (spec_MkdirAll demo_view ''/d'') demo_world (MkdirAll mem_s3 demo_view ''/d'' demo_world)
   \<and> fst (MkdirAll mem_s3 demo_view ''/d'' demo_world) = Inr ()"
proof -
  have "fst (MkdirAll mem_s3 demo_view ''/d'' demo_world) = Inr ()" by code_simp
  with mkdir_all_refines [OF mem_s3_available demo_up demo_names(2), of demo_view] show ?thesis by blast
qed





text \<open>
  C6: While the service answers, \<^verbatim>\<open>RemoveAll\<close> always returns. It removes the path and everything
  below it, however many pages and batches that takes, and nothing else, unless the name is
  both a file and the prefix of other keys: then the file alone is removed, as by \<^verbatim>\<open>Remove\<close>, and
  what lies below its name stays. Read-only views and the root are refused with no change.
\<close>

theorem remove_all_refines:
  assumes "s3_available api rem objs mtime tokpos up" "up w" "stable_name p"
  shows "\<exists>res. RemoveAll api f p w = Some res
    \<and> implements objs f (if shadowed f p (objs w (bucket f)) then spec_Remove f p else spec_RemoveAll f p) w res"
  by (rule s3_available.RemoveAll_implements [OF assms]) blast

theorem remove_all_refines_witness:
  "\<exists>res. RemoveAll (mem_api 1) demo_view ''/d'' demo_world = Some res
     \<and> implements mem_objs demo_view (spec_RemoveAll demo_view ''/d'') demo_world res"
proof -
  have "mem_objs demo_world (bucket demo_view) (FS_key demo_view (CleanFTPPath ''/d'')) = None" by code_simp
  then have "\<not> shadowed demo_view ''/d'' (mem_objs demo_world (bucket demo_view))"
    by (simp add: shadowed_def Let_def)
  then show ?thesis
    using remove_all_refines [OF demo_paged, OF demo_up demo_names(2), of demo_view] by simp
qed

text \<open>
  C3: \<^verbatim>\<open>Rename\<close> always returns and refines its specification: a file's bytes move to the
  new key, a directory's whole subtree moves to the new prefix, and a target below the
  source, a non-empty target, the root and a missing source are refused with no change.
\<close>

theorem rename_refines:
  assumes "s3_available api rem objs mtime tokpos up" "up w" "stable_name p" "stable_name q"
    and "slash \<notin> set (bucket f)"
  shows "\<exists>res. Rename api f p q w = Some res \<and> implements objs f (spec_Rename f p q) w res"
  by (rule s3_available.Rename_implements [OF assms]) blast

theorem rename_refines_witness:
  "\<exists>res. Rename mem_s3 demo_view ''/d'' ''/new'' demo_world = Some res
     \<and> implements mem_objs demo_view (spec_Rename demo_view ''/d'' ''/new'') demo_world res"
  using rename_refines [OF mem_s3_available demo_up demo_names(2,4) demo_bucket] .

section \<open>What cannot go wrong\<close>

text \<open>
  C4: Whatever calls fail and in whichever state a rename stops, every object of the bucket
  is still there afterwards, under its old key or its new one; the only object that may be
  gone is one that the moved file replaced.
\<close>

theorem rename_loses_nothing:
  assumes "s3_service api rem objs mtime tokpos" "stable_name p" "stable_name q" "slash \<notin> set (bucket f)"
    and "Rename api f p q w = Some (r, w')"
    and "objs w (bucket f) k = Some v"
    and "\<not> (k = FS_key f (CleanFTPPath q) \<and> objs w (bucket f) (FS_key f (CleanFTPPath p)) \<noteq> None)"
  shows "objs w' (bucket f) k = Some v
    \<or> objs w' (bucket f) (renamed_key f (CleanFTPPath p) (CleanFTPPath q) k) = Some v"
  using s3_service.Rename_survives [OF assms(1-5)] assms(6,7)
  by (auto simp: survives_def split: if_splits)

theorem rename_loses_nothing_witness:
  "\<exists>r w'. Rename mem_s3 demo_view ''/d'' ''/new'' (demo_world\<lparr>faults := [False, False, False, False, False, True]\<rparr>)
       = Some (r, w')
     \<and> (mem_objs w' ''bkt'' ''home/d/x'' = Some ''xyz'' \<or> mem_objs w' ''bkt'' ''home/new/x'' = Some ''xyz'')"
proof -
  let ?w = "demo_world\<lparr>faults := [False, False, False, False, False, True]\<rparr>"
  have k: "mem_objs ?w (bucket demo_view) ''home/d/x'' = Some ''xyz''" "bucket demo_view = ''bkt''"
    "renamed_key demo_view (CleanFTPPath ''/d'') (CleanFTPPath ''/new'') ''home/d/x'' = ''home/new/x''"
    "''home/d/x'' \<noteq> FS_key demo_view (CleanFTPPath ''/new'')" by code_simp+
  have "Rename mem_s3 demo_view ''/d'' ''/new'' ?w \<noteq> None"
    using s3_service.Rename_total [OF mem_s3_service] by (simp add: returns_def)
  then obtain r w' where rn: "Rename mem_s3 demo_view ''/d'' ''/new'' ?w = Some (r, w')" by auto
  from rename_loses_nothing [OF mem_s3_service, OF demo_names(2,4) demo_bucket, OF rn, OF k(1)] k rn show ?thesis by auto
qed

text \<open>
  C20: Whatever the service answers, \<^verbatim>\<open>RemoveDir\<close> deletes at most the directory's own marker:
  no file is ever lost by removing a directory.
\<close>

theorem remove_dir_keeps_files:
  assumes "s3_service api rem objs mtime tokpos" "RemoveDir api f p w = (r, w')"
  shows "objs w' = objs w \<or> objs w' = upd_obj (objs w) (bucket f) (FS_keyDir f (CleanFTPPath p)) None"
  by (rule s3_service.RemoveDir_only_marker [OF assms])

theorem remove_dir_keeps_files_witness:
  "mem_objs (snd (RemoveDir mem_s3 demo_view ''/e'' demo_world)) = mem_objs demo_world
   \<or> mem_objs (snd (RemoveDir mem_s3 demo_view ''/e'' demo_world))
      = upd_obj (mem_objs demo_world) ''bkt'' ''home/e/'' None"
proof -
  have k: "FS_keyDir demo_view (CleanFTPPath ''/e'') = ''home/e/''" "bucket demo_view = ''bkt''" by code_simp+
  show ?thesis
    using remove_dir_keeps_files [OF mem_s3_service prod.collapse [symmetric], of demo_view "''/e''" demo_world]
    unfolding k .
qed

text \<open>
  C24: Making a directory that does not exist and removing it again, while the service answers,
  leaves every object of every bucket as it was. Making it succeeds; removing it succeeds if
  directory markers are on (\<^verbatim>\<open>s3.dir_marker\<close>), and with markers off, when nothing was stored,
  reports that the directory does not exist.
\<close>

theorem mkdir_remove_dir_roundtrip:
  assumes av: "s3_available api rem objs mtime tokpos up" "up w" "stable_name p"
    and new: "lookup_node f p (objs w (bucket f)) = NNone" and wr: "\<not> readOnly f"
  defines "w1 \<equiv> snd (Mkdir api f p w)"
  shows "fst (Mkdir api f p w) = Inr ()
    \<and> fst (RemoveDir api f p w1) = (if dirMarker f then Inr () else Inl (notExist ''stat'' (CleanFTPPath p)))
    \<and> objs (snd (RemoveDir api f p w1)) = objs w"
proof -
  let ?c = "CleanFTPPath p" and ?m = "objs w (bucket f)"
  let ?d = "FS_keyDir f ?c"
  let ?m1 = "if dirMarker f then ?m(?d \<mapsto> []) else ?m"
  let ?r = "if dirMarker f then Inr () else Inl (notExist ''stat'' ?c)"
  have c: "?c \<noteq> [slash]" using new by (auto simp: lookup_node_def)
  note key = stable_name_keys [OF av(3) c, of f]
  have none: "?m (FS_key f ?c) = None" "\<not> below ?m ?d"
    using new c by (auto simp: lookup_node_def node_key_def Let_def split: option.splits if_splits)
  then have d: "?m ?d = None" "empty_dir ?m1 ?d"
    by (auto simp: below_def empty_dir_def)
  note mk = s3_available.Mkdir_implements [OF av, of f, folded w1_def]
  have o1: "fst (Mkdir api f p w) = Inr ()" "objs w1 (bucket f) = ?m1"
    "\<And>b. b \<noteq> bucket f \<Longrightarrow> objs w1 b = objs w b"
    using mk new wr c by (simp_all add: implements_def spec_Mkdir_def w1_def)
  have "lookup_node f p ?m1 = (if dirMarker f then NDir else NNone)"
    using c none(1) key(2) new by (auto simp: lookup_node_def node_key_def Let_def below_def)
  then have "spec_RemoveDir f p ?m1 = (?r, ?m)"
    using c wr d by (auto simp: spec_RemoveDir_def Let_def)
  moreover have "\<not> marked_nonempty f p ?m1" using d(2) by (auto simp: marked_nonempty_def Let_def)
  ultimately have "fst (RemoveDir api f p w1) = ?r \<and> objs (snd (RemoveDir api f p w1)) (bucket f) = ?m
    \<and> (\<forall>b. b \<noteq> bucket f \<longrightarrow> objs (snd (RemoveDir api f p w1)) b = objs w b)"
    using s3_available.RemoveDir_implements(2) [OF av(1) _ av(3), of w1 f] mk o1
    by (simp add: implements_def)
  with o1(1) show ?thesis by (metis ext)
qed

theorem mkdir_remove_dir_roundtrip_witness:
  "fst (RemoveDir mem_s3 demo_view ''/new'' (snd (Mkdir mem_s3 demo_view ''/new'' demo_world))) = Inr ()
   \<and> mem_objs (snd (RemoveDir mem_s3 demo_view ''/new'' (snd (Mkdir mem_s3 demo_view ''/new'' demo_world))))
     = mem_objs demo_world"
proof -
  have k: "FS_key demo_view ''/new'' = ''home/new''" "FS_keyDir demo_view ''/new'' = ''home/new/''"
    "bucket demo_view = ''bkt''" "\<not> readOnly demo_view" "dirMarker demo_view"
    "mem_objs demo_world ''bkt'' ''home/new'' = None" by code_simp+
  have "dom (mem_objs demo_world ''bkt'') = {''home/a.txt'', ''home/d/x'', ''home/e/'', ''other/secret''}"
    by (simp add: dom_mem_objs demo_world_def mem_of_def)
  then have "lookup_node demo_view ''/new'' (mem_objs demo_world (bucket demo_view)) = NNone"
    by (simp add: lookup_node_def demo_clean node_key_def k below_def)
  from mkdir_remove_dir_roundtrip [OF mem_s3_available demo_up demo_names(4) this k(4)] k(5)
  show ?thesis by simp
qed

text \<open>
  C25: The paging loops end: listing, removing a tree, renaming and reading a directory
  handle return for every path, bucket and state, also when calls fail in between.
\<close>

theorem paging_terminates:
  assumes "s3_service api rem objs mtime tokpos"
  shows "ReadDir api f p w \<noteq> None \<and> RemoveAll api f p w \<noteq> None \<and> Rename api f p q w \<noteq> None
    \<and> Readdir api d n w \<noteq> None"
proof -
  have "ReadDir api f p w \<noteq> None" "RemoveAll api f p w \<noteq> None" "Rename api f p q w \<noteq> None"
    using s3_service.ReadDir_total [OF assms] s3_service.RemoveAll_total [OF assms]
      s3_service.Rename_total [OF assms] by (auto simp: returns_def)
  moreover have "Readdir api d n w \<noteq> None"
    using s3_service.Readdir_returns [OF assms, of d n w] by auto
  ultimately show ?thesis by blast
qed

theorem paging_terminates_witness:
  "RemoveAll (mem_api 1) demo_view ''/p''
     (mem_of [(''bkt'', ''home/p/x'', ''1''), (''bkt'', ''home/p/y'', ''2''), (''bkt'', ''home/p/z'', ''3'')]) \<noteq> None
   \<and> map_option (\<lambda>(r, w'). (r, mem_keys w' ''bkt'')) (RemoveAll (mem_api 1) demo_view ''/p''
     (mem_of [(''bkt'', ''home/p/x'', ''1''), (''bkt'', ''home/p/y'', ''2''), (''bkt'', ''home/p/z'', ''3'')]))
     = Some (Inr (), [])"
proof
  let ?w = "mem_of [(''bkt'', ''home/p/x'', ''1''), (''bkt'', ''home/p/y'', ''2''), (''bkt'', ''home/p/z'', ''3'')]"
  show "RemoveAll (mem_api 1) demo_view ''/p'' ?w \<noteq> None"
    using paging_terminates [OF s3_available.axioms(1) [OF demo_paged]] by blast
  show "map_option (\<lambda>(r, w'). (r, mem_keys w' ''bkt'')) (RemoveAll (mem_api 1) demo_view ''/p'' ?w) = Some (Inr (), [])"
    by code_simp
qed

end
