(* ===== verification/Transfer_Props.thy ===== *)
theory Transfer_Props
  imports Demo
begin

text \<open>
  Properties of the transfers of \<^verbatim>\<open>src/internal/s3fs/download.go\<close> and \<^verbatim>\<open>upload.go\<close>, from the
  \<^verbatim>\<open>GetHandle\<close> call that opens them. The events of an upload are those of its two goroutines in
  any interleaving.
\<close>

section \<open>Lemmas\<close>

context s3_service
begin

lemma GetHandle_download_ok:
  assumes "GetHandle api mime f name fl off w = (Inr (HDown d), w0)" "in_int64 off"
    and "\<forall>v. objs w (bucket f) (FS_key f (CleanFTPPath name)) = Some v \<longrightarrow> in_int64 (int (length v))"
  obtains v where "objs w (bucket f) (FS_key f (CleanFTPPath name)) = Some v" "dl_ok rem v d" "dl_pos d = off"
    "objs w0 = objs w" "objs w0 (bucket (dl_fs d)) (dl_key d) = Some v" "\<not> dl_closed d"
  by (rule openDownload_ok [OF GetHandle_download(1) [OF assms(1)] assms(2,3)]) (use that in auto)

lemma GetHandle_upload_inv:
  assumes "GetHandle api mime f name fl off w = (Inr (HUp u), w0)"
    and "run_events api evs (upload_start u w0) = Some s"
  defines "fr \<equiv> upload_of w objs u (kept_prefix fl off (objs w (bucket f) (FS_key f (CleanFTPPath name))))"
  shows "upload_inv rem objs fr s"
    and "stored objs fr s"
    and "uploaded fr bs = upd_obj (objs w) (bucket f) (FS_key f (CleanFTPPath name))
      (Some (kept_prefix fl off (objs w (bucket f) (FS_key f (CleanFTPPath name))) @ bs))"
proof -
  note o = openUpload_start [OF GetHandle_upload(1) [OF assms(1)], folded fr_def]
  show "upload_inv rem objs fr s" by (rule run_events_inv [OF o(1) assms(2)])
  have "stored objs fr (upload_start u w0)" by (simp add: stored_def upload_start_def)
  from run_stored [OF o(1) this assms(2)] show "stored objs fr s" .
  show "uploaded fr bs = upd_obj (objs w) (bucket f) (FS_key f (CleanFTPPath name))
      (Some (kept_prefix fl off (objs w (bucket f) (FS_key f (CleanFTPPath name))) @ bs))"
    using o(2,3) by (simp add: uploaded_def fr_def upload_of_def)
qed

lemma upload_stored_or_not:
  assumes "upload_inv rem objs fr s"
  shows "objs (us_w s) = fr_objs fr \<or> u_closed (us_file s) \<and> objs (us_w s) = uploaded fr (us_acked s)"
  using upload_invD(5) [OF assms] closed_taken [OF assms] by (cases "us_runner s") auto

text \<open>A waiting close: the uploader's steps end it.\<close>

lemma close_returns:
  assumes "upload_inv rem objs fr s" "us_client s = CCloseWait"
  shows "\<exists>evs s' e. list_all (\<lambda>ev. ev \<in> {ClientStep, RunnerStep, RunnerRead 1}) evs
    \<and> run_events api evs s = Some s' \<and> us_last s' = Some (RetClose e) \<and> length evs \<le> runner_rank s"
  using assms
proof (induction "runner_rank s" arbitrary: s rule: less_induct)
  case less
  show ?case
  proof (cases "us_runner s = RDone")
    case True
    with less.prems(2) have "run_events api [ClientStep] s
        = Some (s\<lparr>us_client := CIdle, us_last := Some (RetClose (recordedErr (us_file s)))\<rparr>)" by simp
    with True show ?thesis by (intro exI [of _ "[ClientStep]"]) (simp add: runner_rank_def)
  next
    case False
    have "pipe_done (us_pipe s)"
      using upload_invD(3) [OF less.prems(1)] less.prems(2) by (simp add: pipe_done_def)
    with runner_enabled [OF False] obtain ev s1 where
      ev: "ev \<in> {RunnerStep, RunnerRead 1}" and s1: "exec_event api ev s = Some s1" by blast
    from ev have re: "runner_event ev" by auto
    have no: "\<not> offers (us_client s)" using less.prems(2) by simp
    have c1: "us_client s1 = CCloseWait" using runner_keeps(5) [OF s1 re no] less.prems(2) by simp
    note dec = runner_rank_decreases [OF s1 re no]
    from less.hyps [OF dec event_inv [OF less.prems(1) s1] c1] obtain evs s' e where
      ih: "list_all (\<lambda>ev. ev \<in> {ClientStep, RunnerStep, RunnerRead 1}) evs" "run_events api evs s1 = Some s'"
        "us_last s' = Some (RetClose e)" "length evs \<le> runner_rank s1" by blast
    with ev s1 dec show ?thesis by (intro exI [of _ "ev # evs"] exI [of _ s'] exI [of _ e]) auto
  qed
qed

end

context s3_available
begin

lemma GetHandle_download_opens:
  assumes "up w" "CleanFTPPath name \<noteq> [slash]" "fl AND write_mask = 0"
    and v: "objs w (bucket f) (FS_key f (CleanFTPPath name)) = Some v" and off: "0 \<le> off" "off \<le> int (length v)"
  obtains d w0 where "GetHandle api mime f name fl off w = (Inr (HDown d), w0)" "up w0"
proof -
  let ?k = "FS_key f (CleanFTPPath name)"
  obtain r w0 where h: "HeadObject api (bucket f) ?k w = (r, w0)" by fastforce
  from head_up [OF assms(1) h] v obtain out where out: "r = Inr out" "up w0" by (cases r) auto
  from head_found [OF h [unfolded out(1)]] v have "ContentLength out = Some (int (length v))" by auto
  with h out off assms(2,3) have "\<exists>d. GetHandle api mime f name fl off w = (Inr (HDown d), w0)"
    by (simp add: GetHandle_def Let_def openDownload_def headObject_def io_simps sizeOf_def)
  with out(2) that show ?thesis by blast
qed

end

section \<open>Downloads\<close>

text \<open>
  C9: Every read of a download handle, in any sequence of reads, seeks and a close, and
  whatever calls fail, delivers bytes of the object at the handle's position, moves the
  position by as many bytes, reports the end of file only at the end, and makes progress.
\<close>

theorem download_serves_object:
  assumes "s3_service api rem objs mtime tokpos"
    and "GetHandle api mime f name fl off w = (Inr (HDown d), w0)" "in_int64 off"
    and "\<forall>v. objs w (bucket f) (FS_key f (CleanFTPPath name)) = Some v \<longrightarrow> in_int64 (int (length v))"
    and "run_dl api d ops w0 = (rs, d', w')" "list_all op_in_range ops"
  shows "\<exists>v. objs w (bucket f) (FS_key f (CleanFTPPath name)) = Some v \<and> dl_pos d = off
    \<and> list_all (good_result v) rs \<and> objs w' = objs w"
proof -
  obtain v where v: "objs w (bucket f) (FS_key f (CleanFTPPath name)) = Some v" "dl_ok rem v d" "dl_pos d = off"
    "objs w0 = objs w" "objs w0 (bucket (dl_fs d)) (dl_key d) = Some v"
    by (rule s3_service.GetHandle_download_ok [OF assms(1-4)])
  with s3_service.run_dl_ok [OF assms(1,5) v(2) assms(6) v(5)] show ?thesis by simp
qed

theorem download_serves_object_witness:
  "\<exists>d w0 rs d' w'. GetHandle mem_s3 (\<lambda>e. []) demo_view ''/a.txt'' 0 1 demo_world = (Inr (HDown d), w0)
     \<and> run_dl mem_s3 d [OpRead 2, OpSeek (-1) 1, OpRead 9, OpClose, OpRead 1] w0 = (rs, d', w')
     \<and> list_all (good_result ''hello'') rs"
proof -
  let ?ops = "[OpRead 2, OpSeek (-1) 1, OpRead 9, OpClose, OpRead 1]"
  have h: "(case GetHandle mem_s3 (\<lambda>e. []) demo_view ''/a.txt'' 0 1 demo_world of (Inr (HDown d), w0) \<Rightarrow> True | _ \<Rightarrow> False)"
    by code_simp
  then obtain d w0 where g: "GetHandle mem_s3 (\<lambda>e. []) demo_view ''/a.txt'' 0 1 demo_world = (Inr (HDown d), w0)"
    by (auto split: prod.splits sum.splits handle.splits)
  obtain rs d' w' where r: "run_dl mem_s3 d ?ops w0 = (rs, d', w')" by (metis surj_pair)
  have v: "mem_objs demo_world (bucket demo_view) (FS_key demo_view (CleanFTPPath ''/a.txt'')) = Some ''hello''"
    by code_simp
  from download_serves_object [OF mem_s3_service, OF g _ _ r] v have "list_all (good_result ''hello'') rs"
    by (simp add: in_int64_def)
  with g r show ?thesis by blast
qed

text \<open>
  C8: While the service answers, an existing object opens for reading at any offset inside
  it, and reading until the end of file with buffers of any positive sizes ends, having
  delivered exactly the object's bytes from the offset on.
\<close>

theorem download_complete:
  assumes "s3_available api rem objs mtime tokpos up" "up w"
    and "CleanFTPPath name \<noteq> [slash]" "fl AND write_mask = 0"
    and v: "objs w (bucket f) (FS_key f (CleanFTPPath name)) = Some v" "in_int64 (int (length v))"
    and off: "0 \<le> off" "off \<le> int (length v)"
    and ns: "\<forall>n \<in> set ns. 0 < n" "length v < length ns"
  shows "\<exists>d w0. GetHandle api mime f name fl off w = (Inr (HDown d), w0)
    \<and> fst (read_stream api d ns w0) = (drop (nat off) v, Some EOF)"
proof -
  have sv: "s3_service api rem objs mtime tokpos"
    by (rule s3_available.axioms(1) [OF assms(1)])
  obtain d w0 where g: "GetHandle api mime f name fl off w = (Inr (HDown d), w0)" "up w0"
    by (rule s3_available.GetHandle_download_opens [OF assms(1-4) v(1) off])
  have "in_int64 off" using off v(2) by (simp add: in_int64_def)
  moreover have "\<forall>v. objs w (bucket f) (FS_key f (CleanFTPPath name)) = Some v \<longrightarrow> in_int64 (int (length v))"
    using v by simp
  ultimately obtain v' where d': "objs w (bucket f) (FS_key f (CleanFTPPath name)) = Some v'" "dl_ok rem v' d"
    "dl_pos d = off" "objs w0 (bucket (dl_fs d)) (dl_key d) = Some v'" "\<not> dl_closed d"
    by (rule s3_service.GetHandle_download_ok [OF sv g(1)])
  with v have d: "dl_ok rem v d" "objs w0 (bucket (dl_fs d)) (dl_key d) = Some v" by simp_all
  have "length (drop (nat off) v) < length ns" using ns(2) by simp
  with s3_available.read_stream_complete [OF assms(1) g(2) d(1) d'(5) d(2) ns(1)] d'(3) g(1)
  show ?thesis by auto
qed

theorem download_complete_witness:
  "\<exists>d w0. GetHandle mem_s3 (\<lambda>e. []) demo_view ''/a.txt'' 0 2 demo_world = (Inr (HDown d), w0)
     \<and> fst (read_stream mem_s3 d [1, 1, 1, 1, 1, 1] w0) = (''llo'', Some EOF)"
proof -
  have v: "mem_objs demo_world (bucket demo_view) (FS_key demo_view (CleanFTPPath ''/a.txt'')) = Some ''hello''"
    by code_simp
  show ?thesis
    using download_complete [OF mem_s3_available demo_up, of "''/a.txt''" 0 demo_view "''hello''" 2
        "[1, 1, 1, 1, 1, 1]" "\<lambda>e. []"] v
    by (simp add: demo_clean in_int64_def eval_nat_numeral)
qed

text \<open>
  C29: A positioned read always returns and changes no object; the bytes are those of the
  object at that offset, and without an error the buffer is full.
\<close>

theorem read_at_correct:
  assumes "s3_service api rem objs mtime tokpos"
    and "GetHandle api mime f name fl off w = (Inr (HDown d), w0)" "in_int64 off"
    and "\<forall>v. objs w (bucket f) (FS_key f (CleanFTPPath name)) = Some v \<longrightarrow> in_int64 (int (length v))"
  shows "\<exists>v bs e w'. objs w (bucket f) (FS_key f (CleanFTPPath name)) = Some v
    \<and> ReadAt api d n pos w0 = Some ((bs, e), w') \<and> objs w' = objs w
    \<and> length bs \<le> n \<and> bs = take (length bs) (drop (nat pos) v)
    \<and> (e = None \<longrightarrow> bs = take n (drop (nat pos) v) \<and> length bs = n)"
proof -
  obtain v where v: "objs w (bucket f) (FS_key f (CleanFTPPath name)) = Some v" "dl_ok rem v d" "dl_pos d = off"
    "objs w0 = objs w" "objs w0 (bucket (dl_fs d)) (dl_key d) = Some v"
    by (rule s3_service.GetHandle_download_ok [OF assms])
  from s3_service.ReadAt_ok [OF assms(1) v(2,5), of n pos] v(1,4) show ?thesis by auto
qed

theorem read_at_correct_witness:
  "\<exists>d w0 bs e w'. GetHandle mem_s3 (\<lambda>e. []) demo_view ''/a.txt'' 0 0 demo_world = (Inr (HDown d), w0)
     \<and> ReadAt mem_s3 d 3 1 w0 = Some ((bs, e), w') \<and> bs = take (length bs) ''ello'' \<and> length bs \<le> 3"
proof -
  have h: "(case GetHandle mem_s3 (\<lambda>e. []) demo_view ''/a.txt'' 0 0 demo_world of (Inr (HDown d), w0) \<Rightarrow> True | _ \<Rightarrow> False)"
    by code_simp
  then obtain d w0 where g: "GetHandle mem_s3 (\<lambda>e. []) demo_view ''/a.txt'' 0 0 demo_world = (Inr (HDown d), w0)"
    by (auto split: prod.splits sum.splits handle.splits)
  have v: "mem_objs demo_world (bucket demo_view) (FS_key demo_view (CleanFTPPath ''/a.txt'')) = Some ''hello''"
    by code_simp
  from read_at_correct [OF mem_s3_service, OF g, of 3 1] v g show ?thesis by (auto simp: in_int64_def)
qed

section \<open>Uploads\<close>

text \<open>
  C1: In every interleaving of client and uploader, with calls failing at any time: if
  \<^verbatim>\<open>Close\<close> reports success then the object is what the open call kept of the old one followed
  by exactly the bytes the \<^verbatim>\<open>Write\<close> calls reported as written, and no other object changed.
\<close>

theorem upload_close_stores:
  assumes "s3_service api rem objs mtime tokpos"
    and "GetHandle api mime f name fl off w = (Inr (HUp u), w0)"
    and "run_events api evs (upload_start u w0) = Some s" "us_last s = Some (RetClose None)"
  shows "objs (us_w s) = upd_obj (objs w) (bucket f) (FS_key f (CleanFTPPath name))
    (Some (kept_prefix fl off (objs w (bucket f) (FS_key f (CleanFTPPath name))) @ us_acked s))"
  using s3_service.GetHandle_upload_inv(2,3) [OF assms(1-3)] assms(4) by (simp add: stored_def)

theorem upload_close_stores_witness:
  "\<exists>u w0 s. GetHandle mem_s3 (\<lambda>e. []) demo_view ''/new'' demo_flags 0 demo_world = (Inr (HUp u), w0)
     \<and> run_events mem_s3 demo_events (upload_start u w0) = Some s \<and> us_last s = Some (RetClose None)
     \<and> mem_objs (us_w s) ''bkt'' ''home/new'' = Some ''hi''"
proof -
  obtain u w0 s where g: "GetHandle mem_s3 (\<lambda>e. []) demo_view ''/new'' demo_flags 0 demo_world = (Inr (HUp u), w0)"
    and r: "run_events mem_s3 demo_events (upload_start u w0) = Some s"
    and l: "us_last s = Some (RetClose None)" "us_acked s = ''hi''" by (rule demo_upload)
  have k: "FS_key demo_view (CleanFTPPath ''/new'') = ''home/new''" "bucket demo_view = ''bkt''"
    "kept_prefix demo_flags 0 (mem_objs demo_world ''bkt'' ''home/new'') = []" by code_simp+
  have "mem_objs (us_w s) ''bkt'' ''home/new'' = Some ''hi''"
    using upload_close_stores [OF mem_s3_service, OF g, OF r l(1)] by (simp add: k l(2))
  with g r l show ?thesis by blast
qed

text \<open>
  C5: A client that reports a transfer error before it closes leaves the store untouched:
  in every later state no object has changed, and \<^verbatim>\<open>Close\<close> does not report success.
\<close>

theorem upload_abort_keeps_object:
  assumes "s3_service api rem objs mtime tokpos"
    and "GetHandle api mime f name fl off w = (Inr (HUp u), w0)"
    and "run_events api evs (upload_start u w0) = Some s1" "\<not> u_closed (us_file s1)"
    and "run_events api (CallTransferError (Some e) # evs') s1 = Some s"
  shows "objs (us_w s) = objs w \<and> us_last s \<noteq> Some (RetClose None)"
proof -
  note i = s3_service.GetHandle_upload_inv(1,2) [OF assms(1-3)]
  from assms(5) obtain s2 where s2: "exec_event api (CallTransferError (Some e)) s1 = Some s2"
    "run_events api evs' s2 = Some s" by (auto split: option.splits if_splits)
  then have c: "us_client s1 = CIdle" "s2 = s1\<lparr>us_client := CTransfer1 e\<rparr>"
    by (auto simp: up_TransferError_def split: if_splits)
  note i2 = s3_service.event_inv [OF assms(1) i(1) s2(1)]
  have "us_last s1 \<noteq> Some (RetClose None)" using i(2) assms(4) by (auto simp: stored_def)
  with c assms(4) have "aborting objs (upload_of w objs u
      (kept_prefix fl off (objs w (bucket f) (FS_key f (CleanFTPPath name))))) s2"
    by (simp add: aborting_def)
  note ab = s3_service.run_aborting [OF assms(1) i2 this s2(2)]
  from s3_service.aborting_result [OF assms(1) s3_service.run_events_inv [OF assms(1) i2 s2(2)] ab]
  show ?thesis by (simp add: upload_of_def)
qed

theorem upload_abort_keeps_object_witness:
  "\<exists>u w0 s. GetHandle mem_s3 (\<lambda>e. []) demo_view ''/a.txt'' demo_flags 0 demo_world = (Inr (HUp u), w0)
     \<and> run_events mem_s3 (demo_aborted @ CallTransferError (Some ErrClosed) # demo_abort) (upload_start u w0) = Some s
     \<and> mem_objs (us_w s) = mem_objs demo_world \<and> us_last s = Some (RetClose (Some ErrClosed))"
proof -
  obtain u w0 s1 s where g: "GetHandle mem_s3 (\<lambda>e. []) demo_view ''/a.txt'' demo_flags 0 demo_world = (Inr (HUp u), w0)"
    and r: "run_events mem_s3 demo_aborted (upload_start u w0) = Some s1" "\<not> u_closed (us_file s1)"
    and r2: "run_events mem_s3 (CallTransferError (Some ErrClosed) # demo_abort) s1 = Some s"
    and l: "us_last s = Some (RetClose (Some ErrClosed))" by (rule demo_abort_run)
  from upload_abort_keeps_object [OF mem_s3_service, OF g, OF r, OF r2] r(1) r2 g l show ?thesis
    by (auto simp: run_events_append simp del: run_events.simps)
qed

text \<open>
  C7: In every reachable state of an upload the store is as it was when the file was opened,
  or holds the complete new object (the kept prefix and every acknowledged byte); a partial
  object is never visible, and nothing is stored before the client closes.
\<close>

theorem upload_all_or_nothing:
  assumes "s3_service api rem objs mtime tokpos"
    and "GetHandle api mime f name fl off w = (Inr (HUp u), w0)"
    and "run_events api evs (upload_start u w0) = Some s"
  shows "objs (us_w s) = objs w
    \<or> u_closed (us_file s) \<and> objs (us_w s) = upd_obj (objs w) (bucket f) (FS_key f (CleanFTPPath name))
        (Some (kept_prefix fl off (objs w (bucket f) (FS_key f (CleanFTPPath name))) @ us_acked s))"
  using s3_service.upload_stored_or_not [OF assms(1) s3_service.GetHandle_upload_inv(1) [OF assms]]
    s3_service.GetHandle_upload_inv(3) [OF assms]
  by (simp add: upload_of_def)

theorem upload_all_or_nothing_witness:
  "\<exists>u w0 s. GetHandle mem_s3 (\<lambda>e. []) demo_view ''/new'' demo_flags 0 demo_world = (Inr (HUp u), w0)
     \<and> run_events mem_s3 demo_closing (upload_start u w0) = Some s
     \<and> (mem_objs (us_w s) = mem_objs demo_world
        \<or> mem_objs (us_w s) = upd_obj (mem_objs demo_world) ''bkt'' ''home/new'' (Some (us_acked s)))"
proof -
  obtain u w0 s where g: "GetHandle mem_s3 (\<lambda>e. []) demo_view ''/new'' demo_flags 0 demo_world = (Inr (HUp u), w0)"
    and r: "run_events mem_s3 demo_closing (upload_start u w0) = Some s" by (rule demo_close)
  have k: "FS_key demo_view (CleanFTPPath ''/new'') = ''home/new''" "bucket demo_view = ''bkt''"
    "kept_prefix demo_flags 0 (mem_objs demo_world ''bkt'' ''home/new'') = []" by code_simp+
  from upload_all_or_nothing [OF mem_s3_service, OF g, OF r] g r show ?thesis by (auto simp: k)
qed

text \<open>
  C13: An upload never blocks for good: in every reachable state in which a call of the
  client is under way, the client or the uploader can take a step.
\<close>

theorem upload_never_stuck:
  assumes "s3_service api rem objs mtime tokpos"
    and "GetHandle api mime f name fl off w = (Inr (HUp u), w0)"
    and "run_events api evs (upload_start u w0) = Some s" "us_client s \<noteq> CIdle"
  shows "\<exists>ev s'. ev \<in> {ClientStep, RunnerStep, RunnerRead 1} \<and> exec_event api ev s = Some s'"
  by (rule s3_service.not_stuck [OF assms(1) s3_service.GetHandle_upload_inv(1) [OF assms(1-3)] assms(4)])

theorem upload_never_stuck_witness:
  "\<exists>u w0 s ev s'. GetHandle mem_s3 (\<lambda>e. []) demo_view ''/new'' demo_flags 0 demo_world = (Inr (HUp u), w0)
     \<and> run_events mem_s3 demo_closing (upload_start u w0) = Some s \<and> exec_event mem_s3 ev s = Some s'"
proof -
  obtain u w0 s where g: "GetHandle mem_s3 (\<lambda>e. []) demo_view ''/new'' demo_flags 0 demo_world = (Inr (HUp u), w0)"
    and r: "run_events mem_s3 demo_closing (upload_start u w0) = Some s" and c: "us_client s = CCloseWait"
    by (rule demo_close)
  from upload_never_stuck [OF mem_s3_service, OF g, OF r] c g r show ?thesis by auto
qed

text \<open>
  C12: \<^verbatim>\<open>Close\<close> returns: once it waits for the uploader, the uploader can take only a bounded
  number of further steps, and there is a run within that bound after which \<^verbatim>\<open>Close\<close> has
  returned.
\<close>

theorem upload_close_returns:
  assumes "s3_service api rem objs mtime tokpos"
    and "GetHandle api mime f name fl off w = (Inr (HUp u), w0)"
    and "run_events api evs (upload_start u w0) = Some s" "us_client s = CCloseWait"
  shows "(\<forall>evs s'. run_events api evs s = Some s' \<and> list_all runner_event evs \<longrightarrow> length evs < runner_rank s)
    \<and> (\<exists>evs s' e. list_all (\<lambda>ev. ev \<in> {ClientStep, RunnerStep, RunnerRead 1}) evs
         \<and> run_events api evs s = Some s' \<and> us_last s' = Some (RetClose e) \<and> length evs \<le> runner_rank s)"
proof -
  have "length evs < runner_rank s" if "run_events api evs s = Some s'" "list_all runner_event evs" for evs s'
  proof -
    have "0 < runner_rank s'" by (cases "us_runner s'") (simp_all add: runner_rank_def)
    with s3_service.runner_bounded [OF assms(1) that] assms(4) show ?thesis by simp
  qed
  with s3_service.close_returns [OF assms(1) s3_service.GetHandle_upload_inv(1) [OF assms(1-3)] assms(4)]
  show ?thesis by blast
qed

theorem upload_close_returns_witness:
  "\<exists>u w0 s evs s' e. GetHandle mem_s3 (\<lambda>e. []) demo_view ''/new'' demo_flags 0 demo_world = (Inr (HUp u), w0)
     \<and> run_events mem_s3 demo_closing (upload_start u w0) = Some s
     \<and> run_events mem_s3 evs s = Some s' \<and> us_last s' = Some (RetClose e)"
proof -
  obtain u w0 s where g: "GetHandle mem_s3 (\<lambda>e. []) demo_view ''/new'' demo_flags 0 demo_world = (Inr (HUp u), w0)"
    and r: "run_events mem_s3 demo_closing (upload_start u w0) = Some s" and c: "us_client s = CCloseWait"
    by (rule demo_close)
  from upload_close_returns [OF mem_s3_service, OF g, OF r c] g r show ?thesis by blast
qed

text \<open>
  C14: While the service answers and nobody gives up, an upload never fails: \<^verbatim>\<open>Close\<close> does
  not report an error and no error is recorded.
\<close>

theorem upload_succeeds:
  assumes "s3_available api rem objs mtime tokpos up" "up w"
    and "GetHandle api mime f name fl off w = (Inr (HUp u), w0)"
    and "run_events api evs (upload_start u w0) = Some s" "list_all calm_event evs"
  shows "recordedErr (us_file s) = None \<and> us_last s \<noteq> Some (RetClose (Some e)) \<and> up (us_w s)"
proof -
  have sv: "s3_service api rem objs mtime tokpos"
    by (rule s3_available.axioms(1) [OF assms(1)])
  note o = GetHandle_upload(1) [OF assms(3)]
  from s3_available.run_healthy [OF assms(1) s3_service.openUpload_start(1) [OF sv o]
      s3_available.openUpload_up [OF assms(1,2) o] assms(4,5)]
  show ?thesis by (simp add: healthy_def recordedErr_def)
qed

theorem upload_succeeds_witness:
  "\<exists>u w0 s. GetHandle mem_s3 (\<lambda>e. []) demo_view ''/new'' demo_flags 0 demo_world = (Inr (HUp u), w0)
     \<and> run_events mem_s3 demo_closing (upload_start u w0) = Some s \<and> recordedErr (us_file s) = None"
proof -
  obtain u w0 s where g: "GetHandle mem_s3 (\<lambda>e. []) demo_view ''/new'' demo_flags 0 demo_world = (Inr (HUp u), w0)"
    and r: "run_events mem_s3 demo_closing (upload_start u w0) = Some s" by (rule demo_close)
  have "list_all calm_event demo_closing" by code_simp
  with upload_succeeds [OF mem_s3_available, OF demo_up, OF g, OF r] g r show ?thesis by blast
qed

text \<open>
  C11: What is uploaded is what is downloaded: after a truncating upload whose \<^verbatim>\<open>Close\<close>
  returned, while the service answers, reading the file to its end gives exactly the bytes
  written.
\<close>

theorem upload_download_roundtrip:
  assumes av: "s3_available api rem objs mtime tokpos up" "up w"
    and g: "GetHandle api mime f name fl off w = (Inr (HUp u), w0)" and trunc: "fl AND O_TRUNC \<noteq> 0"
    and run: "run_events api evs (upload_start u w0) = Some s" "list_all calm_event evs"
    and closed: "us_last s = Some (RetClose e)" and small: "in_int64 (int (length (us_acked s)))"
    and ns: "\<forall>n \<in> set ns. 0 < n" "length (us_acked s) < length ns"
  shows "\<exists>d w1. GetHandle api mime f name 0 0 (us_w s) = (Inr (HDown d), w1)
    \<and> fst (read_stream api d ns w1) = (us_acked s, Some EOF)"
proof -
  have sv: "s3_service api rem objs mtime tokpos"
    by (rule s3_available.axioms(1) [OF av(1)])
  note o = GetHandle_upload(1) [OF g]
  have h: "healthy up s"
    by (rule s3_available.run_healthy [OF av(1) s3_service.openUpload_start(1) [OF sv o]
        s3_available.openUpload_up [OF av o] run])
  with closed have e: "us_last s = Some (RetClose None)" by (cases e) (auto simp: healthy_def)
  have "kept_prefix fl off (objs w (bucket f) (FS_key f (CleanFTPPath name))) = []"
    using trunc by (simp add: kept_prefix_def split: option.splits)
  with s3_service.GetHandle_upload_inv(2,3) [OF sv g run(1)] e
  have v: "objs (us_w s) (bucket f) (FS_key f (CleanFTPPath name)) = Some (us_acked s)"
    by (simp add: stored_def)
  have up: "up (us_w s)" using h by (simp add: healthy_def)
  obtain d w1 where d: "GetHandle api mime f name 0 0 (us_w s) = (Inr (HDown d), w1)" "up w1"
    by (rule s3_available.GetHandle_download_opens [OF av(1) up GetHandle_upload(3) [OF g] _ v, of 0 0]) simp_all
  have "in_int64 0" by (simp add: in_int64_def)
  moreover have "\<forall>v. objs (us_w s) (bucket f) (FS_key f (CleanFTPPath name)) = Some v \<longrightarrow> in_int64 (int (length v))"
    using v small by simp
  ultimately obtain v' where d': "objs (us_w s) (bucket f) (FS_key f (CleanFTPPath name)) = Some v'" "dl_ok rem v' d"
    "dl_pos d = 0" "objs w1 (bucket (dl_fs d)) (dl_key d) = Some v'" "\<not> dl_closed d"
    by (rule s3_service.GetHandle_download_ok [OF sv d(1)])
  then have "length (drop (nat (dl_pos d)) v') < length ns" "v' = us_acked s" using v ns(2) by simp_all
  with s3_available.read_stream_complete [OF av(1) d(2) d'(2,5,4) ns(1)] d'(3) d(1) show ?thesis by auto
qed

theorem upload_download_roundtrip_witness:
  "\<exists>u w0 s d w1. GetHandle mem_s3 (\<lambda>e. []) demo_view ''/new'' demo_flags 0 demo_world = (Inr (HUp u), w0)
     \<and> run_events mem_s3 demo_events (upload_start u w0) = Some s
     \<and> GetHandle mem_s3 (\<lambda>e. []) demo_view ''/new'' 0 0 (us_w s) = (Inr (HDown d), w1)
     \<and> fst (read_stream mem_s3 d [1, 4, 1] w1) = (''hi'', Some EOF)"
proof -
  obtain u w0 s where g: "GetHandle mem_s3 (\<lambda>e. []) demo_view ''/new'' demo_flags 0 demo_world = (Inr (HUp u), w0)"
    and r: "run_events mem_s3 demo_events (upload_start u w0) = Some s"
    and l: "us_last s = Some (RetClose None)" "us_acked s = ''hi''" by (rule demo_upload)
  have c: "demo_flags AND O_TRUNC \<noteq> 0" "list_all calm_event demo_events" by code_simp+
  have "in_int64 (int (length (us_acked s)))" by (simp add: l(2) in_int64_def)
  moreover have "\<forall>n \<in> set [1, 4, 1 :: nat]. 0 < n" "length (us_acked s) < length [1, 4, 1 :: nat]"
    by (simp_all add: l(2))
  ultimately obtain d w1 where "GetHandle mem_s3 (\<lambda>e. []) demo_view ''/new'' 0 0 (us_w s) = (Inr (HDown d), w1)"
    "fst (read_stream mem_s3 d [1, 4, 1] w1) = (us_acked s, Some EOF)"
    using upload_download_roundtrip [OF mem_s3_available, OF demo_up, OF g c(1) r c(2) l(1)] by blast
  with g r l(2) show ?thesis by auto
qed

end
