(* ===== verification/Gateway_Props.thy ===== *)
theory Gateway_Props
  imports Demo
begin

text \<open>
  Properties of the configuration (\<^verbatim>\<open>src/internal/config\<close>), of the driver
  (\<^verbatim>\<open>src/internal/ftpdriver\<close>) and of the running gateway, in which the sessions of all
  accounts share one store and interleave in any order.
\<close>

lemma view_of_NewFS:
  "view_of cfg a f \<longleftrightarrow> NewFS (account_bucket cfg a) (account_root cfg a) (DirMarker (S3 cfg)) (UserReadOnly a) = f"
  by (cases f) (auto simp: view_of_def NewFS_def)

section \<open>The running gateway\<close>

text \<open>
  C2: Whatever clients connect, log in, call and transfer, in whatever order and with calls
  failing at any time: an object that changed lies under the bucket and root prefix of an
  account of the configuration that is not read-only.
\<close>

theorem gateway_changes_only_writable:
  assumes "s3_service api rem objs mtime tokpos" "New_driver loadKeyPair cfg = Inr d"
    and "(gw_step api mime bcryptOk)\<^sup>*\<^sup>* (gw_start w d) g" "objs (gw_world g) b k \<noteq> objs w b k"
  shows "\<exists>a. a \<in> set (Users (FTP cfg)) \<and> \<not> UserReadOnly a \<and> b = account_bucket cfg a
    \<and> prefix (account_root cfg a) k"
  using s3_service.gw_run_ok [OF assms(1,3) gw_start_inv [OF assms(2)]] assms(4)
  by (auto simp: writes_only_def writable_def gw_start_def)

theorem gateway_changes_only_writable_witness:
  "mem_objs (gw_world demo_running) ''bkt'' ''home/new/'' \<noteq> mem_objs demo_world ''bkt'' ''home/new/''
   \<and> (\<exists>a. a \<in> set (Users (FTP demo_config)) \<and> \<not> UserReadOnly a \<and> ''bkt'' = account_bucket demo_config a
        \<and> prefix (account_root demo_config a) ''home/new/'')"
proof -
  have "mem_objs (gw_world demo_running) ''bkt'' ''home/new/'' = Some []"
    "mem_objs demo_world ''bkt'' ''home/new/'' = None" by code_simp+
  then have ne: "mem_objs (gw_world demo_running) ''bkt'' ''home/new/'' \<noteq> mem_objs demo_world ''bkt'' ''home/new/''"
    by simp
  from gateway_changes_only_writable [OF mem_s3_service, OF demo_driver_ok, OF demo_reachable ne] ne
  show ?thesis by blast
qed

text \<open>
  C15: One call of a session changes only objects of its own view, and none if the view is
  read-only, on every error path and wherever it stops.
\<close>

theorem session_call_confined:
  assumes "s3_service api rem objs mtime tokpos" "run_call api f c w = Some w'" "objs w' b k \<noteq> objs w b k"
  shows "\<not> readOnly f \<and> b = bucket f \<and> prefix (rootPrefix f) k"
  using s3_service.run_call_ok [OF assms(1,2)] assms(3) by (auto simp: confined_def quiet_def)

theorem session_call_confined_witness:
  "\<exists>w'. run_call mem_s3 demo_view (CallRemove ''/../../a.txt'') demo_world = Some w'
     \<and> mem_objs w' ''bkt'' ''home/a.txt'' \<noteq> mem_objs demo_world ''bkt'' ''home/a.txt''
     \<and> prefix (rootPrefix demo_view) ''home/a.txt''"
proof -
  define w' where "w' = snd (Remove mem_s3 demo_view ''/../../a.txt'' demo_world)"
  have r: "run_call mem_s3 demo_view (CallRemove ''/../../a.txt'') demo_world = Some w'" by (simp add: w'_def)
  have "mem_objs w' ''bkt'' ''home/a.txt'' = None" unfolding w'_def by code_simp
  moreover have "mem_objs demo_world ''bkt'' ''home/a.txt'' = Some ''hello''" by code_simp
  ultimately have ne: "mem_objs w' ''bkt'' ''home/a.txt'' \<noteq> mem_objs demo_world ''bkt'' ''home/a.txt''" by simp
  from session_call_confined [OF mem_s3_service, OF r ne] r ne show ?thesis by blast
qed

text \<open>
  C17: With a client limit configured, the number of registered clients never exceeds it,
  in any history of connections, disconnections, log-ins and calls.
\<close>

theorem gateway_client_limit:
  assumes "s3_service api rem objs mtime tokpos" "New_driver loadKeyPair cfg = Inr d"
    and "(gw_step api mime bcryptOk)\<^sup>*\<^sup>* (gw_start w d) g" "0 < MaxClients (FTP cfg)"
  shows "int (ActiveClients (gw_driver g)) \<le> MaxClients (FTP cfg)"
  using s3_service.gw_run_ok [OF assms(1,3) gw_start_inv [OF assms(2)]] assms(4) by (simp add: gw_inv_def)

theorem gateway_client_limit_witness:
  "int (ActiveClients (gw_driver demo_running)) \<le> 2 \<and> ActiveClients (gw_driver demo_running) = 2
   \<and> snd (fst (ClientConnected (gw_driver demo_running) 3)) = Some ErrTooManyClients"
proof -
  have "MaxClients (FTP demo_config) = 2" by code_simp
  with gateway_client_limit [OF mem_s3_service, OF demo_driver_ok, OF demo_reachable]
  have "int (ActiveClients (gw_driver demo_running)) \<le> 2" by simp
  then show ?thesis using demo_full_clients by (simp add: demo_running_def)
qed

text \<open>
  C16: In a gateway started on a loaded configuration, every session has the view of one of
  its accounts: that account's bucket (not empty), its root prefix (empty or ending in a
  slash) and its read-only flag.
\<close>

theorem gateway_session_views:
  assumes "s3_service api rem objs mtime tokpos" "Load readFile yaml env ulower path = Inr cfg"
    and "New_driver loadKeyPair cfg = Inr d"
    and "(gw_step api mime bcryptOk)\<^sup>*\<^sup>* (gw_start w d) g" "ses \<in> set (gw_sessions g)"
  shows "\<exists>a. a \<in> set (Users (FTP cfg)) \<and> view_of cfg a (ses_fs ses)
    \<and> wf_root (rootPrefix (ses_fs ses)) \<and> bucket (ses_fs ses) \<noteq> []"
proof -
  have "gw_inv cfg g" using s3_service.gw_run_ok [OF assms(1,4) gw_start_inv [OF assms(3)]] by blast
  with assms(5) obtain a where a: "a \<in> set (Users (FTP cfg))" "view_of cfg a (ses_fs ses)"
    by (auto simp: gw_inv_def list_all_iff session_ok_def)
  from view_of_wf [OF a(2,1)] Load_good [OF assms(2)] a show ?thesis by blast
qed

theorem gateway_session_views_witness:
  "\<exists>a. a \<in> set (Users (FTP demo_config)) \<and> view_of demo_config a demo_view \<and> wf_root (rootPrefix demo_view)"
  using gateway_session_views [OF mem_s3_service, OF demo_load_ok, OF demo_driver_ok, OF demo_reachable,
      of "\<lparr>ses_fs = demo_view, ses_transfers = []\<rparr>"]
  by (auto simp: demo_running_def)

text \<open>
  C18: On a validated configuration a log-in succeeds exactly with the name of an account and
  a password that account accepts, and the view granted is that account's; every refusal is
  an invalid-credentials error that names the user and nothing else.
\<close>

theorem login_exact:
  assumes "Validate (d_cfg d) = None"
  shows "(AuthUser bcryptOk d user pass = Inr f \<longleftrightarrow>
      (\<exists>a. a \<in> set (Users (FTP (d_cfg d))) \<and> Username a = user \<and> CheckPassword bcryptOk a pass
         \<and> view_of (d_cfg d) a f))
    \<and> (\<forall>e. AuthUser bcryptOk d user pass = Inl e \<longrightarrow> e = Wrapped ''%w: %s'' [user] ErrInvalidCredentials)"
proof -
  have "distinct (map Username (Users (FTP (d_cfg d))))" using assms by (simp add: Validate_iff config_ok_def)
  note lk = LookupUser_Some [OF this]
  have "AuthUser bcryptOk d user pass = Inr f \<longleftrightarrow>
      (\<exists>a. LookupUser (d_cfg d) user = Some a \<and> CheckPassword bcryptOk a pass \<and> view_of (d_cfg d) a f)"
    by (cases "LookupUser (d_cfg d) user")
      (simp_all add: AuthUser_def Let_def view_of_NewFS account_bucket_def account_root_def)
  moreover have "e = Wrapped ''%w: %s'' [user] ErrInvalidCredentials" if "AuthUser bcryptOk d user pass = Inl e" for e
    using that by (auto simp: AuthUser_def Let_def split: option.splits if_splits)
  ultimately show ?thesis unfolding lk by blast
qed

theorem login_exact_witness:
  "(\<exists>a. a \<in> set (Users (FTP (d_cfg demo_driver))) \<and> Username a = ''alice'' \<and> CheckPassword (\<lambda>h p. False) a ''pw''
      \<and> view_of (d_cfg demo_driver) a demo_view)
   \<and> AuthUser (\<lambda>h p. False) demo_driver ''bob'' ''x'' = Inl (Wrapped ''%w: %s'' [''bob''] ErrInvalidCredentials)"
proof -
  have v: "Validate (d_cfg demo_driver) = None" by code_simp
  have "AuthUser (\<lambda>h p. False) demo_driver ''bob'' ''x'' = Inl (Wrapped ''%w: %s'' [''bob''] ErrInvalidCredentials)"
    by code_simp
  with login_exact [OF v, of "\<lambda>h p. False" "''alice''" "''pw''" demo_view] demo_login show ?thesis by simp
qed

text \<open>
  C38: With a loaded configuration the server gets its settings: the passive port range lies
  within 1 and 65535 in order, and encryption is mandatory or implicit only if the driver has
  a certificate to offer.
\<close>

theorem settings_of_loaded_config:
  assumes "Load readFile yaml env ulower path = Inr cfg" "New_driver loadKeyPair cfg = Inr d"
  shows "\<exists>st. GetSettings d = Inr st
    \<and> (\<forall>a b. st_PassiveTransferPortRange st = Some (a, b) \<longrightarrow> 1 \<le> a \<and> a \<le> b \<and> b \<le> 65535)
    \<and> (st_TLSRequired st \<noteq> ClearOrEncrypted \<longrightarrow> (\<exists>t. GetTLSConfig d = Inr t))"
proof -
  note d = New_driver_start [OF assms(2)]
  have "config_ok cfg" using Load_good [OF assms(1)] by blast
  then obtain r where r: "ParsePassivePortRange (FTP cfg) = Inr r" by (auto simp: config_ok_def)
  have "TLSEnabled (FTP cfg)" if "Mode (TLS (FTP cfg)) = TLSModeImplicit \<or> Mode (TLS (FTP cfg)) = TLSModeRequired"
    using that by (auto simp: TLSEnabled_def)
  with r d ParsePassivePortRange_range [of "FTP cfg"] show ?thesis
    by (auto simp: GetSettings_def Let_def)
qed

theorem settings_of_loaded_config_witness:
  "\<exists>st. GetSettings demo_driver = Inr st
     \<and> (\<forall>a b. st_PassiveTransferPortRange st = Some (a, b) \<longrightarrow> 1 \<le> a \<and> a \<le> b \<and> b \<le> 65535)"
  using settings_of_loaded_config [OF demo_load_ok demo_driver_ok] by blast

end
