(* ===== verification/Config_Props.thy ===== *)
theory Config_Props
  imports Demo
begin

text \<open>Properties of loading and validating the configuration, and of the client built from it.\<close>

text \<open>
  C35: Validation accepts a document exactly if it satisfies the declarative condition
  \<^term>\<open>config_ok\<close>: port and TLS settings, port range, bucket, credentials in pairs, part
  size, at least one account, accounts with names and secrets and no two of one name, log
  level and format.
\<close>

theorem validate_exact: "Validate c = None \<longleftrightarrow> config_ok c"
  by (rule Validate_iff)

text \<open>
  C36: What \<^verbatim>\<open>Load\<close> returns, from any file contents and environment, is valid and normalised:
  root prefixes are empty or end in one slash and do not start with one, account names have
  no surrounding white space, and the environment's bucket and credentials win over the file's.
\<close>

theorem load_well_formed:
  assumes "Load readFile yaml env ulower path = Inr cfg"
  shows "config_ok cfg \<and> normal_form cfg
    \<and> (\<forall>b. env ''S32FTP_S3_BUCKET'' = Some b \<longrightarrow> Bucket (S3 cfg) = b)
    \<and> (\<forall>k. env ''S32FTP_S3_ACCESS_KEY_ID'' = Some k \<longrightarrow> AccessKeyID (S3 cfg) = k)
    \<and> (\<forall>k. env ''S32FTP_S3_SECRET_ACCESS_KEY'' = Some k \<longrightarrow> SecretAccessKey (S3 cfg) = k)"
proof -
  obtain c0 c1 where c: "applyEnv env (normalize ulower c0) = Inr c1" "cfg = normalize ulower c1"
    using assms by (rule Load_steps)
  have keep: "Bucket (S3 cfg) = Bucket (S3 c1)" "AccessKeyID (S3 cfg) = AccessKeyID (S3 c1)"
    "SecretAccessKey (S3 cfg) = SecretAccessKey (S3 c1)"
    by (simp_all add: c(2) normalize_def normalize_s3_def)
  note f = applyEnv_s3_fields(1-3) [OF c(1)]
  have "\<forall>b. env ''S32FTP_S3_BUCKET'' = Some b \<longrightarrow> Bucket (S3 cfg) = b"
    by (simp only: keep f) (simp add: setString_def)
  moreover have "\<forall>k. env ''S32FTP_S3_ACCESS_KEY_ID'' = Some k \<longrightarrow> AccessKeyID (S3 cfg) = k"
    by (simp only: keep f) (simp add: setString_def)
  moreover have "\<forall>k. env ''S32FTP_S3_SECRET_ACCESS_KEY'' = Some k \<longrightarrow> SecretAccessKey (S3 cfg) = k"
    by (simp only: keep f) (simp add: setString_def)
  ultimately show ?thesis using Load_good [OF assms] by blast
qed

theorem load_well_formed_witness: "config_ok demo_config \<and> normal_form demo_config"
  using load_well_formed [OF demo_load_ok] by blast

text \<open>
  C40: A normalised prefix is empty or ends in exactly one slash and does not start with one,
  and normalisation leaves such a prefix alone unless it starts with white space.
\<close>

theorem normalize_prefix_form:
  "dir_prefix (NormalizePrefix p)
   \<and> (\<not> starts_space (NormalizePrefix p) \<longrightarrow> NormalizePrefix (NormalizePrefix p) = NormalizePrefix p)"
  using NormalizePrefix_dir NormalizePrefix_id by blast

theorem normalize_prefix_form_witness:
  "NormalizePrefix (NormalizePrefix ''/data//'') = NormalizePrefix ''/data//''"
proof -
  have "\<not> starts_space (NormalizePrefix ''/data//'')" by code_simp
  with normalize_prefix_form [of "''/data//''"] show ?thesis by blast
qed

text \<open>
  C39: Every range of ports within 1 and 65535, written as \<^verbatim>\<open>start-end\<close>, is read back as that
  range, and nothing outside these bounds is ever accepted.
\<close>

theorem port_range_roundtrip:
  "(1 \<le> a \<and> a \<le> b \<and> b \<le> 65535 \<longrightarrow>
      ParsePassivePortRange (c\<lparr>PassivePortRange := Itoa a @ CHR ''-'' # Itoa b\<rparr>) = Inr (Some (a, b)))
   \<and> (ParsePassivePortRange c' = Inr (Some (a, b)) \<longrightarrow> 1 \<le> a \<and> a \<le> b \<and> b \<le> 65535)"
  using ParsePassivePortRange_print ParsePassivePortRange_range by blast

theorem port_range_roundtrip_witness:
  "ParsePassivePortRange ((FTP Default)\<lparr>PassivePortRange := Itoa 1 @ CHR ''-'' # Itoa 65535\<rparr>)
     = Inr (Some (1, 65535))"
  using port_range_roundtrip [of 1 65535 "FTP Default" "FTP Default"] by simp

text \<open>
  C37: Take a loaded configuration with a part size below the overflow bound whose HTTP client
  could be made (its CA file is readable), and an SDK with the documented minimum part size of
  five megabytes whose own loading succeeds. A session token without access keys, which
  validation lets pass, is refused with an error of its own; in every other case the client is
  built, with exactly the configured part size in bytes and the configured concurrency.
\<close>

theorem loaded_config_gives_client:
  assumes "Load readFile yaml env ulower path = Inr cfg" "PartSizeMB (S3 cfg) < 2 ^ 43"
    and "sdk_MinUploadPartSize sdk = 5 * 1024 * 1024"
    and "newHTTPClient sdk (client_options (S3 cfg)) = Inr http"
    and "\<And>creds. \<exists>x. sdk_LoadDefaultConfig sdk (Region (S3 cfg)) http creds = Inr x"
  shows "if SessionToken (S3 cfg) \<noteq> [] \<and> AccessKeyID (S3 cfg) = []
    then NewClient sdk (client_options (S3 cfg))
      = Inl (Message ''s3.session_token requires access_key_id and secret_access_key'' [])
    else (\<exists>cl. NewClient sdk (client_options (S3 cfg)) = Inr cl
      \<and> cl_PartSize cl = PartSizeMB (S3 cfg) * 1048576 \<and> cl_Concurrency cl = UploadConcurrency (S3 cfg))"
proof -
  have ok: "config_ok cfg" using Load_good [OF assms(1)] by blast
  then have mb: "5 \<le> PartSizeMB (S3 cfg)" and keys: "AccessKeyID (S3 cfg) = [] \<longleftrightarrow> SecretAccessKey (S3 cfg) = []"
    unfolding config_ok_def by blast+
  have size: "partSizeBytes (PartSizeMB (S3 cfg)) = PartSizeMB (S3 cfg) * 1048576"
    using mb assms(2) by (intro partSizeBytes_exact) simp_all
  show ?thesis
  proof (cases "SessionToken (S3 cfg) \<noteq> [] \<and> AccessKeyID (S3 cfg) = []")
    case True
    then have "credentials_of (client_options (S3 cfg))
        = Inl (Message ''s3.session_token requires access_key_id and secret_access_key'' [])"
      using keys by (simp add: credentials_of_def client_options_def)
    with True assms(3,4) mb size show ?thesis by (simp add: NewClient_def Let_def)
  next
    case False
    then obtain creds where cr: "credentials_of (client_options (S3 cfg)) = Inr creds"
      using keys by (auto simp: credentials_of_def client_options_def)
    obtain x where "sdk_LoadDefaultConfig sdk (Region (S3 cfg)) http creds = Inr x" using assms(5) by blast
    then have "\<exists>cl. NewClient sdk (client_options (S3 cfg)) = Inr cl"
      using assms(3,4) cr mb size by (simp add: NewClient_def Let_def) (simp add: client_options_def)
    with False client_part_size [OF ok assms(2)] show ?thesis by auto
  qed
qed

theorem loaded_config_gives_client_witness:
  "\<exists>cl. NewClient demo_sdk (client_options (S3 demo_config)) = Inr cl \<and> cl_PartSize cl = 8388608"
proof -
  have c: "PartSizeMB (S3 demo_config) = 8" "SessionToken (S3 demo_config) = []"
    "sdk_MinUploadPartSize demo_sdk = 5 * 1024 * 1024"
    "newHTTPClient demo_sdk (client_options (S3 demo_config)) = Inr \<lparr>hc_tls = None\<rparr>" by code_simp+
  have "\<And>creds. \<exists>x. sdk_LoadDefaultConfig demo_sdk (Region (S3 demo_config)) \<lparr>hc_tls = None\<rparr> creds = Inr x"
    by (simp add: demo_sdk_def)
  from loaded_config_gives_client [OF demo_load_ok _ c(3,4) this] c(1,2) show ?thesis by auto
qed

end
