(* ===== verification/Findings.thy ===== *)
theory Findings
  imports Demo
begin

text \<open>
  Behaviours of the code that differ from what its comments, documentation or evident
  intention say, each shown by evaluating the definitions on a concrete input.
\<close>

text \<open>
  Cleaning trims white space only before it resolves the path, so it is not idempotent:
  \<^verbatim>\<open>"/ /"\<close> cleans to \<^verbatim>\<open>"/ "\<close>, which cleans to the root.
\<close>

theorem clean_not_idempotent:
  "CleanFTPPath ''/ /'' = ''/ '' \<and> CleanFTPPath (CleanFTPPath ''/ /'') = ''/''"
  by code_simp

text \<open>
  The guard of \<^verbatim>\<open>RemoveAll\<close> for the root looks at the path cleaned once, the key is computed
  from the path cleaned twice: \<^verbatim>\<open>RemoveAll("/ /")\<close> deletes everything below the root prefix.
\<close>

theorem remove_all_root_guard_bypassed:
  "map_option (\<lambda>(r, w'). (r, mem_keys w' ''bkt'')) (RemoveAll mem_s3 demo_view ''/ /'' demo_world)
     = Some (Inr (), [''other/secret''])"
  by code_simp

text \<open>
  A rename from \<^verbatim>\<open>"/a.txt /"\<close> to \<^verbatim>\<open>"/a.txt"\<close> names one object twice but passes the check that
  the paths differ. The code asks the service to copy the object onto itself, which S3 refuses,
  and reports that error where the check was to succeed without doing anything; a service that
  accepts such a copy would have the object deleted next.
\<close>

theorem rename_onto_itself_fails:
  "map_option (\<lambda>(r, w'). (r, mem_objs w' ''bkt'' ''home/a.txt'')) (Rename mem_s3 demo_view ''/a.txt /'' ''/a.txt'' demo_world)
     = Some (Inl (APIError ''InvalidRequest'' FaultClient), Some ''hello'')
   \<and> map_option fst (Rename mem_s3 demo_view ''/a.txt'' ''/a.txt'' demo_world) = Some (Inr ())"
  by code_simp

text \<open>
  \<^verbatim>\<open>RemoveAll\<close> is documented to remove a path and everything below it. A name that is both a
  file and a prefix is seen as the file: the call succeeds and what lies below stays.
\<close>

theorem remove_all_keeps_below_file:
  "map_option (\<lambda>(r, w'). (r, mem_keys w' ''bkt'')) (RemoveAll mem_s3 demo_view ''/d''
     (mem_of [(''bkt'', ''home/d'', ''1''), (''bkt'', ''home/d/x'', ''2'')])) = Some (Inr (), [''home/d/x''])"
  by code_simp

text \<open>
  With directory markers off, \<^verbatim>\<open>Mkdir\<close> reports success and stores nothing: the directory it
  made cannot be removed, because it does not exist.
\<close>

theorem mkdir_without_marker:
  "(let f = demo_view\<lparr>dirMarker := False\<rparr>; res = Mkdir mem_s3 f ''/new'' demo_world
    in fst res = Inr () \<and> fst (RemoveDir mem_s3 f ''/new'' (snd res)) = Inl (notExist ''stat'' ''/new''))"
  by code_simp

text \<open>
  \<^verbatim>\<open>deleteKeys\<close> drops the \<^verbatim>\<open>Errors\<close> of a \<^verbatim>\<open>DeleteObjects\<close> reply: a tree with a key that may not
  be deleted is reported as removed.
\<close>

theorem remove_all_ignores_key_errors:
  "map_option (\<lambda>(r, w'). (r, mem_objs w' ''bkt'' ''home/d/x''))
     (RemoveAll mem_s3 demo_view ''/d'' (demo_world\<lparr>locked := [''home/d/x'']\<rparr>)) = Some (Inr (), Some ''xyz'')"
  by code_simp

text \<open>
  \<^verbatim>\<open>RemoveDir\<close> asks for two keys and ignores \<^verbatim>\<open>IsTruncated\<close>: with a service that answers with a
  shorter page a directory that is not empty loses its marker and the call succeeds.
\<close>

theorem remove_dir_trusts_short_page:
  "(let w = mem_of [(''bkt'', ''home/e/'', []), (''bkt'', ''home/e/x'', ''1'')];
        res = RemoveDir (mem_api 1) demo_view ''/e'' w
    in fst res = Inr () \<and> mem_keys (snd res) ''bkt'' = [''home/e/x''])"
  by code_simp

text \<open>Opening a file as a directory reports \<^verbatim>\<open>EISDIR\<close>, the error for the opposite mistake.\<close>

theorem open_file_reports_eisdir:
  "fst (Open mem_s3 demo_view ''/a.txt'' demo_world) = Inl (errno ''open'' ''/a.txt'' EISDIR)"
proof -
  have "(case Open mem_s3 demo_view ''/a.txt'' demo_world of (Inl e, w') \<Rightarrow> e = errno ''open'' ''/a.txt'' EISDIR | _ \<Rightarrow> False)"
    by code_simp
  then show ?thesis by (auto split: prod.splits sum.splits)
qed

text \<open>A directory handle read with the largest count after a first slice slices out of bounds.\<close>

theorem readdir_count_overflow_panics:
  "(let d = NewFile demo_view ''/'' (NewDirInfo ''/''); d' = d\<lparr>entries := [NewDirInfo ''d'', NewDirInfo ''e'']\<rparr>
    in case fst (readdir_slice (snd (readdir_slice d' 1)) (2 ^ 63 - 1)) of Inl (RuntimePanic m) \<Rightarrow> True | _ \<Rightarrow> False)"
  by code_simp

text \<open>
  A prefix from the YAML file is normalised twice, one from the environment once; the two
  results can differ.
\<close>

theorem normalize_prefix_not_idempotent:
  "NormalizePrefix ''/ a'' = '' a/'' \<and> NormalizePrefix (NormalizePrefix ''/ a'') = ''a/''"
  by code_simp

text \<open>A part size of 2^44 megabytes passes validation and wraps to zero, which selects the default of 8 MiB.\<close>

theorem part_size_wraps:
  "(let cfg = demo_config\<lparr>S3 := (S3 demo_config)\<lparr>PartSizeMB := 2 ^ 44\<rparr>\<rparr>
    in Validate cfg = None \<and> opt_PartSizeBytes (client_options (S3 cfg)) = 0)"
  by code_simp

text \<open>A session token without access keys passes validation, and the client then refuses it.\<close>

theorem session_token_without_keys:
  "(let cfg = demo_config\<lparr>S3 := (S3 demo_config)\<lparr>SessionToken := ''t''\<rparr>\<rparr>
    in Validate cfg = None
     \<and> (case NewClient demo_sdk (client_options (S3 cfg)) of
          Inl e \<Rightarrow> e = Message ''s3.session_token requires access_key_id and secret_access_key'' []
        | Inr cl \<Rightarrow> False))"
  by code_simp

text \<open>The TLS mode \<^verbatim>\<open>off\<close> does not turn TLS off when a certificate and a key are configured.\<close>

theorem tls_off_still_enabled:
  "TLSEnabled ((FTP Default)\<lparr>TLS := \<lparr>Mode = TLSModeOff, CertFile = ''c'', KeyFile = ''k'', MinVersion = []\<rparr>\<rparr>)"
  by code_simp

end
