(* ===== verification/Spec2Isabelle.thy ===== *)
theory Spec2Isabelle
  imports Path_Props Fs_Props Transfer_Props Gateway_Props Config_Props Findings
begin

text \<open>
  A verification library for s32ftp, a gateway that serves an S3 bucket over FTP. An FTP
  server library calls a driver (\<^verbatim>\<open>src/internal/ftpdriver\<close>); the driver checks accounts of the
  configuration (\<^verbatim>\<open>src/internal/config\<close>) and gives each session a view of a bucket
  (\<^verbatim>\<open>src/internal/s3fs\<close>), whose operations are requests to the object store.

  \<^bold>\<open>The program's parts and their theories.\<close>

  \<^item> \<open>Prelude\<close>, \<open>Go_Strings\<close>, \<open>Go_Conv\<close>, \<open>Go_Errors\<close>: what the code uses of Go. Strings are
    byte lists; \<^verbatim>\<open>TrimSpace\<close>, \<^verbatim>\<open>path.Clean\<close>, \<^verbatim>\<open>Atoi\<close>, \<^verbatim>\<open>url.PathEscape\<close> and their like; 64-bit
    wrap-around written out (\<open>wrap64\<close>); error values and \<^verbatim>\<open>errors.Is\<close>/\<^verbatim>\<open>errors.As\<close>; a computation
    is a function from the world to a result and the world after it (\<open>io\<close>), or to an option
    of it where it loops (\<open>lio\<close>, \<^term>\<open>None\<close> for not returning). \<open>state_contract\<close> is the interface for
    relations that every call keeps. \<open>Go_Errors\<close> also holds the error classification of
    \<^verbatim>\<open>backend.go\<close> and the error constructors of \<^verbatim>\<open>fs.go\<close>.
  \<^item> \<open>S3_Api\<close>: the object store and the SDK, which are not part of the repository, as a record
    of calls and three interfaces: \<open>body_reader\<close> (\<^verbatim>\<open>io.Reader\<close>), \<open>s3_service\<close> (what a reply means; every
    call may fail at any time, and a failed write may have happened), \<open>s3_available\<close> (states in
    which calls do not fail). A reply to a listing may hold any number of entries up to the one
    asked for, but a truncated reply is not empty and its token points behind it; replies are
    not assumed to be full. A copy of an object onto itself may be refused, as S3 does. \<open>Mem_S3\<close> is
    a store in memory, with a page size of choice, that implements all of them.
  \<^item> \<open>S3_Path\<close> (\<^verbatim>\<open>path.go\<close>), \<open>File_Info\<close> (\<^verbatim>\<open>fileinfo.go\<close>, \<^verbatim>\<open>helpers.go\<close>), \<open>Fs\<close> and \<open>Open\<close> (\<^verbatim>\<open>fs.go\<close>), \<open>Dir\<close>
    (\<^verbatim>\<open>dir.go\<close>), \<open>Dir_Handle\<close> (\<^verbatim>\<open>file.go\<close>), \<open>Download\<close> (\<^verbatim>\<open>download.go\<close>), \<open>Upload\<close> (\<^verbatim>\<open>upload.go\<close>), \<open>Backend\<close>
    (\<^verbatim>\<open>backend.go\<close>): one definition per Go function, with its name, prefixed where several types
    have it (\<open>File_\<close>, \<open>dl_\<close>, \<open>up_\<close>, \<open>FS_\<close>). An upload is a state machine over the atomic steps of its
    two goroutines and the pipe between them.
  \<^item> \<open>Config\<close> (\<^verbatim>\<open>config.go\<close>), \<open>Logging\<close> (\<^verbatim>\<open>logging.go\<close>), \<open>Driver\<close> (\<^verbatim>\<open>driver.go\<close>, \<^verbatim>\<open>tls.go\<close>, \<^verbatim>\<open>client.go\<close>),
    \<open>Main_Run\<close> (\<^verbatim>\<open>main.go\<close>).
  \<^item> \<open>Gateway\<close> composes them: a driver, the sessions it authenticated and their open handles on
    one store, with a step relation that allows every order of callbacks and interleaves the
    transfers of all sessions.

  \<^bold>\<open>What is shown.\<close> \<open>Dir_Spec\<close> and \<open>Fs_Session\<close>: the paging loops return and a listing has exactly the
  children of its directory; no operation leaves the root prefix of its view. \<open>Fs_Refine\<close>: a
  specification of the six changing operations on the object map, which the code implements
  while the service answers, with two exceptions that the properties spell out: a directory
  with a marker and content may lose its marker to \<^verbatim>\<open>RemoveDir\<close> or \<^verbatim>\<open>Remove\<close> when a listing reply is
  short (\<open>marked_nonempty\<close>, \<open>drop_marker\<close>), and \<^verbatim>\<open>RemoveAll\<close> on a name that is both a file and a prefix
  removes only the file (\<open>shadowed\<close>). \<open>Fs_Safety\<close>: with calls failing anywhere, a rename loses nothing and
  removing a directory removes at most its marker. \<open>Download\<close> and \<open>Upload_Spec\<close>: the invariants of the
  handles. \<open>Path_Props\<close>, \<open>Fs_Props\<close>, \<open>Transfer_Props\<close>, \<open>Gateway_Props\<close> and \<open>Config_Props\<close> state the
  properties of the program over the definitions, with instances on the small bucket and
  configuration of \<open>Demo\<close>. \<open>Findings\<close> evaluates the code where it differs from its intention.

  \<^bold>\<open>Bounds.\<close> No definition uses fuel: loops are \<^theory_text>\<open>partial_function\<close> into options, proved to return, or
  recursion with a termination proof. Sizes and offsets are integers with Go's wrap-around;
  where a property needs it, an object's size is assumed to be an \<^verbatim>\<open>int64\<close>, a listing's length to be
  below \<open>2 ^ 62\<close>, and a part size in megabytes to be below \<open>2 ^ 43\<close>, which real buckets and
  configurations satisfy. Properties of paths named \<^term>\<open>stable_name\<close> are about paths whose cleaned
  form does not end in white space; \<open>Findings\<close> shows what happens on the others.

  \<^bold>\<open>Not modelled.\<close> Log records; the text of formatted messages (an error keeps its format and
  arguments); deadlines and cancellation other than as failing calls; YAML decoding, bcrypt,
  certificates, MIME tables, the SDK and the FTP server library, which are parameters; the
  calls of one directory operation are not interleaved with other clients of the bucket
  (transfers are); the accessors \<^verbatim>\<open>S3()\<close>, \<^verbatim>\<open>Logger()\<close> and \<^verbatim>\<open>Sys()\<close>; tests and build files.
\<close>

end
